(* ===== verification/Prelude.thy ===== *)
theory Prelude
  imports Main "HOL-Library.Word" "HOL-Library.AList"
begin

text \<open>
  Shared vocabulary of the SnakeTron development.

  \<^item> Machine integers. Rust's unsigned integers are words of their width, so \<open>+\<close>, \<open>-\<close> and
    \<open>*\<close> wrap around as they do in a release build; the saturating operations of the standard
    library are defined here with their meaning on \<open>nat\<close>. Signed 16-bit coordinates are \<open>int\<close>
    with the wrap-around written out by \<open>wrap_i16\<close>.
  \<^item> Errors. A fallible operation returns \<open>error + 'a\<close>: \<open>Err\<close> is an \<open>anyhow\<close> error of
    the source (with the fixed part of its message), \<open>Panic\<close> a failed assertion or \<open>expect\<close>.
  \<^item> Containers. A \<open>Vec\<close> is a list, read by \<open>get_at\<close> and written by \<open>upd_at\<close>; a
    \<open>HashMap\<close> is an association list with distinct keys; a \<open>HashSet\<close> is a set.
\<close>

section \<open>Machine integers\<close>

type_synonym u8 = "8 word"
type_synonym u16 = "16 word"
type_synonym u32 = "32 word"
type_synonym u64 = "64 word"
type_synonym i16 = int
type_synonym i64 = int

named_theorems rust_arith \<open>meaning of the machine-integer operations on nat and int\<close>

text \<open>Two's-complement wrap-around of an i16, and its range.\<close>

definition wrap_i16 :: "int \<Rightarrow> i16" where
  "wrap_i16 z = (z + 32768) mod 65536 - 32768"

definition in_i16 :: "int \<Rightarrow> bool" where
  "in_i16 z \<longleftrightarrow> - 32768 \<le> z \<and> z \<le> 32767"

text \<open>The cast \<open>u16 as i16\<close>.\<close>

definition i16_of_u16 :: "u16 \<Rightarrow> i16" where
  "i16_of_u16 w = wrap_i16 (uint w)"

text \<open>Rust's signed division truncates towards zero.\<close>

definition div_i16 :: "int \<Rightarrow> int \<Rightarrow> int" where
  "div_i16 a b = wrap_i16 (sgn a * sgn b * (\<bar>a\<bar> div \<bar>b\<bar>))"

definition clamp_int :: "int \<Rightarrow> int \<Rightarrow> int \<Rightarrow> int" where
  "clamp_int lo hi z = (if z < lo then lo else if hi < z then hi else z)"

definition sat_add :: "'a::len word \<Rightarrow> 'a word \<Rightarrow> 'a word" where
  "sat_add a b = (if a \<le> a + b then a + b else - 1)"

definition sat_sub :: "'a::len word \<Rightarrow> 'a word \<Rightarrow> 'a word" where
  "sat_sub a b = (if b \<le> a then a - b else 0)"

definition sat_mul :: "'a::len word \<Rightarrow> 'a word \<Rightarrow> 'a word" where
  "sat_mul a b = (if uint a * uint b < 2 ^ LENGTH('a) then a * b else - 1)"

definition checked_add :: "'a::len word \<Rightarrow> 'a word \<Rightarrow> 'a word option" where
  "checked_add a b = (if a \<le> a + b then Some (a + b) else None)"

text \<open>\<open>is_multiple_of\<close>; a zero divisor divides only zero, in Rust as in HOL.\<close>

definition is_multiple_of :: "'a::len word \<Rightarrow> 'a word \<Rightarrow> bool" where
  "is_multiple_of a b \<longleftrightarrow> a mod b = 0"

section \<open>Errors\<close>

datatype error = Err string | Panic string

type_synonym 'a result = "error + 'a"

text \<open>The \<open>?\<close> operator: continue with the value, return early with the error.\<close>

definition try_then :: "'a result \<Rightarrow> ('a \<Rightarrow> 'b result) \<Rightarrow> 'b result" where
  "try_then r f = (case r of Inl e \<Rightarrow> Inl e | Inr v \<Rightarrow> f v)"

definition is_ok :: "'a result \<Rightarrow> bool" where
  "is_ok r = (case r of Inl _ \<Rightarrow> False | Inr _ \<Rightarrow> True)"

text \<open>A loop that runs a fallible check on every element and stops at the first error.\<close>

fun check_all :: "('a \<Rightarrow> unit result) \<Rightarrow> 'a list \<Rightarrow> unit result" where
  "check_all f [] = Inr ()"
| "check_all f (x # xs) = (case f x of Inl e \<Rightarrow> Inl e | Inr _ \<Rightarrow> check_all f xs)"

text \<open>A loop that threads a state and leaves at the first error.\<close>

fun fold_result :: "('a \<Rightarrow> 's \<Rightarrow> 's result) \<Rightarrow> 'a list \<Rightarrow> 's \<Rightarrow> 's result" where
  "fold_result f [] s = Inr s"
| "fold_result f (x # xs) s = try_then (f x s) (fold_result f xs)"

section \<open>Containers\<close>

definition get_at :: "'a list \<Rightarrow> nat \<Rightarrow> 'a option" where
  "get_at xs i = (if i < length xs then Some (xs ! i) else None)"

definition upd_at :: "nat \<Rightarrow> ('a \<Rightarrow> 'a) \<Rightarrow> 'a list \<Rightarrow> 'a list" where
  "upd_at i f xs = (if i < length xs then xs[i := f (xs ! i)] else xs)"

type_synonym ('k, 'v) hash_map = "('k \<times> 'v) list"

definition hm_get :: "('k, 'v) hash_map \<Rightarrow> 'k \<Rightarrow> 'v option" where
  "hm_get m k = map_of m k"

definition hm_contains :: "('k, 'v) hash_map \<Rightarrow> 'k \<Rightarrow> bool" where
  "hm_contains m k \<longleftrightarrow> map_of m k \<noteq> None"

definition hm_insert :: "('k, 'v) hash_map \<Rightarrow> 'k \<Rightarrow> 'v \<Rightarrow> ('k, 'v) hash_map" where
  "hm_insert m k v = AList.update k v m"

definition hm_remove :: "('k, 'v) hash_map \<Rightarrow> 'k \<Rightarrow> ('k, 'v) hash_map" where
  "hm_remove m k = AList.delete k m"

definition hm_keys :: "('k, 'v) hash_map \<Rightarrow> 'k list" where
  "hm_keys m = map fst m"

definition hm_wf :: "('k, 'v) hash_map \<Rightarrow> bool" where
  "hm_wf m \<longleftrightarrow> distinct (map fst m)"

text \<open>\<open>get(k).copied().unwrap_or(d)\<close>.\<close>

definition hm_get_or :: "('k, 'v) hash_map \<Rightarrow> 'k \<Rightarrow> 'v \<Rightarrow> 'v" where
  "hm_get_or m k d = (case hm_get m k of None \<Rightarrow> d | Some v \<Rightarrow> v)"

section \<open>Lemmas on machine integers\<close>

lemma wrap_i16_range [simp]: "in_i16 (wrap_i16 z)"
  by (simp add: in_i16_def wrap_i16_def)

lemma wrap_i16_id [simp]: "in_i16 z \<Longrightarrow> wrap_i16 z = z"
  by (simp add: in_i16_def wrap_i16_def)

lemma i16_of_u16_small: "uint w < 32768 \<Longrightarrow> i16_of_u16 w = uint w"
  using uint_ge_0 [of w] by (simp add: i16_of_u16_def wrap_i16_def)

lemma unat_u16_less: "unat (x :: u16) < 65536"
  and unat_u32_less: "unat (y :: u32) < 4294967296"
  and unat_u64_less: "unat (z :: u64) < 18446744073709551616"
  using unsigned_less [of x] unsigned_less [of y] unsigned_less [of z] by simp_all

lemma unat_minus_one_max: "unat (- 1 :: 'a::len word) = 2 ^ LENGTH('a) - 1"
  by (metis mask_eq_exp_minus_1 take_bit_minus_one_eq_mask unsigned_minus_1_eq_mask)

lemma unat_sat_sub [rust_arith]: "unat (sat_sub a b) = unat a - unat b"
  by (simp add: sat_sub_def unat_sub word_le_nat_alt)

lemma unat_sat_add [rust_arith]:
  "unat (sat_add a b) = min (unat a + unat b) (2 ^ LENGTH('a) - 1)" for a b :: "'a::len word"
proof (cases "a \<le> a + b")
  case True
  then have "unat a + unat b < 2 ^ LENGTH('a)"
    by (simp add: no_olen_add_nat)
  then show ?thesis
    using True by (simp add: sat_add_def unat_word_ariths)
next
  case False
  then have "2 ^ LENGTH('a) \<le> unat a + unat b"
    by (simp add: no_olen_add_nat)
  then show ?thesis
    using False by (simp add: sat_add_def unat_minus_one_max)
qed

lemma sat_add_ge: "a \<le> sat_add a b"
  by (simp add: sat_add_def)

lemma sat_sub_le: "sat_sub a b \<le> a"
  by (simp add: word_le_nat_alt unat_sat_sub)

lemma checked_add_Some_iff:
  "checked_add a b = Some c \<longleftrightarrow> unat a + unat b < 2 ^ LENGTH('a) \<and> c = a + b"
  for a b :: "'a::len word"
  by (auto simp: checked_add_def no_olen_add_nat split: if_splits)

lemma is_multiple_of_unat [rust_arith]:
  "is_multiple_of a b \<longleftrightarrow> unat b dvd unat a"
  by (simp add: is_multiple_of_def unat_eq_0 [symmetric] unat_mod dvd_eq_mod_eq_0)

lemma is_multiple_of_0 [simp]: "is_multiple_of 0 b"
  by (simp add: is_multiple_of_unat)

lemma is_multiple_of_self [simp]: "is_multiple_of a a"
  by (simp add: is_multiple_of_unat)

lemma is_multiple_of_diff:
  "is_multiple_of a c \<Longrightarrow> is_multiple_of b c \<Longrightarrow> b \<le> a \<Longrightarrow> is_multiple_of (a - b) c"
  by (simp add: is_multiple_of_unat unat_sub dvd_diff_nat)

lemma is_multiple_of_add:
  "is_multiple_of a c \<Longrightarrow> is_multiple_of b c \<Longrightarrow> a \<le> a + b \<Longrightarrow> is_multiple_of (a + b) c"
  by (simp add: is_multiple_of_unat no_olen_add_nat unat_word_ariths)

section \<open>Lemmas on results\<close>

lemma try_then_Inr [simp]: "try_then (Inr v) f = f v"
  by (simp add: try_then_def)

lemma try_then_Inl [simp]: "try_then (Inl e) f = Inl e"
  by (simp add: try_then_def)

lemma try_then_eq_Inr_iff: "try_then r f = Inr w \<longleftrightarrow> (\<exists>v. r = Inr v \<and> f v = Inr w)"
  by (cases r) simp_all

lemma is_ok_Inr [simp]: "is_ok (Inr v)" and is_ok_Inl [simp]: "\<not> is_ok (Inl e)"
  by (simp_all add: is_ok_def)

lemma is_ok_unit_iff: "is_ok r \<longleftrightarrow> r = Inr ()"
  by (cases r) simp_all

text \<open>A guard clause \<open>if b { return Err(e) }\<close> succeeds exactly when its condition is false.\<close>

lemma guard_ok_iff: "(if b then Inl e else r) = Inr v \<longleftrightarrow> \<not> b \<and> r = Inr v"
  by simp

lemma try_thenE: "try_then r f = Inr y \<Longrightarrow> (\<And>x. r = Inr x \<Longrightarrow> f x = Inr y \<Longrightarrow> P) \<Longrightarrow> P"
  by (auto simp: try_then_eq_Inr_iff)

lemma check_all_ok_iff [simp]: "check_all f xs = Inr () \<longleftrightarrow> (\<forall>x\<in>set xs. f x = Inr ())"
  by (induction xs) (auto split: sum.splits)

section \<open>Lemmas on containers\<close>

lemma get_at_Some_iff [simp]: "get_at xs i = Some x \<longleftrightarrow> i < length xs \<and> xs ! i = x"
  by (simp add: get_at_def)

lemma get_at_None_iff [simp]: "get_at xs i = None \<longleftrightarrow> length xs \<le> i"
  by (simp add: get_at_def)

lemma get_at_in_set: "get_at xs i = Some x \<Longrightarrow> x \<in> set xs"
  by auto

lemma length_upd_at [simp]: "length (upd_at i f xs) = length xs"
  by (simp add: upd_at_def)

lemma upd_at_beyond [simp]: "length xs \<le> i \<Longrightarrow> upd_at i f xs = xs"
  by (simp add: upd_at_def)

lemma nth_upd_at:
  "j < length xs \<Longrightarrow> upd_at i f xs ! j = (if i = j then f (xs ! j) else xs ! j)"
  by (simp add: upd_at_def)

lemma set_upd_atD: "y \<in> set (upd_at i f xs) \<Longrightarrow> y \<in> set xs \<or> (\<exists>x\<in>set xs. y = f x)"
  using set_update_subset_insert [of xs i "f (xs ! i)"]
  by (auto simp: upd_at_def split: if_splits)

lemma list_all_upd_at:
  "\<forall>x\<in>set xs. P x \<Longrightarrow> (\<And>x. x \<in> set xs \<Longrightarrow> P x \<Longrightarrow> P (f x)) \<Longrightarrow> \<forall>x\<in>set (upd_at i f xs). P x"
  by (blast dest: set_upd_atD)

lemma map_upd_at_same:
  "(\<And>x. x \<in> set xs \<Longrightarrow> g (f x) = g x) \<Longrightarrow> map g (upd_at i f xs) = map g xs"
  by (auto simp: list_eq_iff_nth_eq nth_upd_at)

text \<open>
  A transition system whose steps keep an invariant keeps it along every sequence of steps.
\<close>

locale stable_steps =
  fixes step :: "'s \<Rightarrow> 'e \<Rightarrow> 's"
    and inv :: "'s \<Rightarrow> bool"
  assumes step_inv: "inv s \<Longrightarrow> inv (step s e)"
begin

lemma run_inv: "inv s \<Longrightarrow> inv (foldl step s es)"
  by (induction es arbitrary: s) (simp_all add: step_inv)

end

text \<open>
  The interface a client of a hash map relies on, over what a lookup returns, and its
  implementation by the association lists of the model.
\<close>

locale hash_map_ops =
  fixes wf :: "'m \<Rightarrow> bool"
    and empty :: 'm
    and get :: "'m \<Rightarrow> 'k \<Rightarrow> 'v option"
    and insert :: "'m \<Rightarrow> 'k \<Rightarrow> 'v \<Rightarrow> 'm"
    and remove :: "'m \<Rightarrow> 'k \<Rightarrow> 'm"
    and keys :: "'m \<Rightarrow> 'k list"
  assumes wf_empty: "wf empty"
    and wf_insert: "wf m \<Longrightarrow> wf (insert m k v)"
    and wf_remove: "wf m \<Longrightarrow> wf (remove m k)"
    and get_empty: "get empty k = None"
    and get_insert: "wf m \<Longrightarrow> get (insert m k v) k' = (if k' = k then Some v else get m k')"
    and get_remove: "wf m \<Longrightarrow> get (remove m k) k' = (if k' = k then None else get m k')"
    and keys_distinct: "wf m \<Longrightarrow> distinct (keys m)"
    and keys_get: "wf m \<Longrightarrow> k \<in> set (keys m) \<longleftrightarrow> get m k \<noteq> None"
begin

lemma insert_insert: "wf m \<Longrightarrow> get (insert (insert m k v) k w) = get (insert m k w)"
  by (rule ext) (simp add: get_insert wf_insert)

lemma remove_insert: "wf m \<Longrightarrow> get m k = None \<Longrightarrow> get (remove (insert m k v) k) = get m"
  by (rule ext) (simp add: get_insert get_remove wf_insert)

lemma keys_insert: "wf m \<Longrightarrow> set (keys (insert m k v)) = Set.insert k (set (keys m))"
  by (auto simp: keys_get wf_insert get_insert split: if_splits)

lemma keys_eq_of_get_eq:
  assumes "wf m" "wf m'" "get m = get m'"
  shows "set (keys m) = set (keys m')" and "length (keys m) = length (keys m')"
proof -
  show "set (keys m) = set (keys m')"
    using assms by (auto simp: keys_get)
  then show "length (keys m) = length (keys m')"
    using assms keys_distinct by (metis distinct_card)
qed

end

interpretation hm: hash_map_ops hm_wf "[]" hm_get hm_insert hm_remove hm_keys
proof unfold_locales
  fix m :: "('a, 'b) hash_map" and k k' v
  show "hm_wf m \<Longrightarrow> hm_wf (hm_insert m k v)"
    by (simp add: hm_wf_def hm_insert_def distinct_update)
  show "hm_wf m \<Longrightarrow> hm_wf (hm_remove m k)"
    by (simp add: hm_wf_def hm_remove_def distinct_delete)
  show "hm_get (hm_insert m k v) k' = (if k' = k then Some v else hm_get m k')"
    by (simp add: hm_get_def hm_insert_def update_conv')
  show "hm_get (hm_remove m k) k' = (if k' = k then None else hm_get m k')"
    by (simp add: hm_get_def hm_remove_def delete_conv')
  show "k \<in> set (hm_keys m) \<longleftrightarrow> hm_get m k \<noteq> None"
    by (auto simp: hm_keys_def hm_get_def map_of_eq_None_iff)
qed (simp_all add: hm_wf_def hm_get_def hm_keys_def)

lemma hm_contains_iff: "hm_contains m k \<longleftrightarrow> k \<in> set (hm_keys m)"
  by (simp add: hm_contains_def hm_keys_def map_of_eq_None_iff)

lemma hm_contains_insert [simp]: "hm_contains (hm_insert m k v) k' \<longleftrightarrow> k' = k \<or> hm_contains m k'"
  by (simp add: hm_contains_def hm_insert_def update_conv')

lemma hm_get_insert [simp]: "hm_get (hm_insert m k v) k' = (if k' = k then Some v else hm_get m k')"
  by (simp add: hm_get_def hm_insert_def update_conv')

lemma hm_contains_get: "hm_contains m k \<longleftrightarrow> (\<exists>v. hm_get m k = Some v)"
  by (auto simp: hm_contains_def hm_get_def)

lemma hm_get_mem: "hm_get m k = Some v \<Longrightarrow> (k, v) \<in> set m"
  by (simp add: hm_get_def map_of_SomeD)

lemma hm_insert_memD: "(k', v') \<in> set (hm_insert m k v) \<Longrightarrow> (k' = k \<and> v' = v) \<or> (k', v') \<in> set m"
  by (induction m) (auto simp: hm_insert_def split: if_splits)

end
