(* ===== verification/Snake_Model.thy ===== *)
theory Snake_Model
  imports Prelude
begin

text \<open>
  The snake of \<^verbatim>\<open>common/src/snake.rs\<close>: its data, the boost, combo and movement lifecycle, and
  the compressed body. A method that mutates \<open>self\<close> takes the snake and returns the new one,
  paired with the method's result; methods that can fail an assertion return a \<open>result\<close>.
\<close>

section \<open>Constants\<close>

abbreviation (input) DEFAULT_TICK_INTERVAL_MS :: u32 where "DEFAULT_TICK_INTERVAL_MS \<equiv> 100"
abbreviation (input) BOOST_TICK_INTERVAL_MS :: u32 where "BOOST_TICK_INTERVAL_MS \<equiv> 50"
abbreviation (input) NORMAL_SNAKE_SPEED_MILLI :: u16 where "NORMAL_SNAKE_SPEED_MILLI \<equiv> 1000"
abbreviation (input) MAX_BOOST_SPEED_MILLI :: u16 where "MAX_BOOST_SPEED_MILLI \<equiv> 2000"
abbreviation (input) DEFAULT_BOOST_SPEED_MILLI :: u16 where "DEFAULT_BOOST_SPEED_MILLI \<equiv> 1500"
abbreviation (input) DEFAULT_BOOST_CAPACITY_MS :: u32 where "DEFAULT_BOOST_CAPACITY_MS \<equiv> 3000"

section \<open>Data\<close>

datatype direction = Up | Down | Left | Right

fun is_opposite :: "direction \<Rightarrow> direction \<Rightarrow> bool" where
  "is_opposite Up Down = True"
| "is_opposite Down Up = True"
| "is_opposite Left Right = True"
| "is_opposite Right Left = True"
| "is_opposite _ _ = False"

record position =
  px :: i16
  py :: i16

definition is_between :: "position \<Rightarrow> position \<Rightarrow> position \<Rightarrow> bool" where
  "is_between p p1 p2 \<longleftrightarrow>
     (px p \<ge> px p1 \<and> px p \<le> px p2 \<or> px p \<le> px p1 \<and> px p \<ge> px p2) \<and>
     (py p \<ge> py p1 \<and> py p \<le> py p2 \<or> py p \<le> py p1 \<and> py p \<ge> py p2)"

type_synonym team_id = u8

record player =
  pl_user_id :: u32
  pl_snake_id :: u32

record snake_boost =
  charge_ms :: u32
  boost_on :: bool
  intent :: bool

record snake_combo =
  chain_count :: u32
  remaining_ms :: u32

datatype boost_resolution = Activated | Deactivated

definition snake_boost_default :: snake_boost where
  "snake_boost_default = \<lparr>charge_ms = 0, boost_on = False, intent = False\<rparr>"

definition snake_combo_default :: snake_combo where
  "snake_combo_default = \<lparr>chain_count = 0, remaining_ms = 0\<rparr>"

record snake =
  sn_body :: "position list"
  sn_direction :: direction
  sn_alive :: bool
  sn_food :: u32
  sn_team :: "team_id option"
  sn_speed :: u16
  sn_credit :: u32
  sn_boost :: snake_boost
  sn_combo :: snake_combo

definition snake_new :: "position list \<Rightarrow> direction \<Rightarrow> bool \<Rightarrow> u32 \<Rightarrow> team_id option \<Rightarrow> snake" where
  "snake_new body direction is_alive food team_id =
     \<lparr>sn_body = body, sn_direction = direction, sn_alive = is_alive, sn_food = food,
      sn_team = team_id, sn_speed = NORMAL_SNAKE_SPEED_MILLI, sn_credit = 0,
      sn_boost = snake_boost_default, sn_combo = snake_combo_default\<rparr>"

definition snake_for_illustration ::
  "position list \<Rightarrow> direction \<Rightarrow> team_id option \<Rightarrow> u32 \<Rightarrow> bool \<Rightarrow> bool \<Rightarrow> snake" where
  "snake_for_illustration body direction team_id food is_alive boost_active =
     \<lparr>sn_body = body, sn_direction = direction, sn_alive = is_alive, sn_food = food,
      sn_team = team_id,
      sn_speed = (if boost_active then DEFAULT_BOOST_SPEED_MILLI else NORMAL_SNAKE_SPEED_MILLI),
      sn_credit = 0,
      sn_boost = \<lparr>charge_ms = (if boost_active then DEFAULT_BOOST_CAPACITY_MS else 0),
                  boost_on = boost_active, intent = boost_active\<rparr>,
      sn_combo = snake_combo_default\<rparr>"

section \<open>Boost\<close>

definition collect_boost_charge :: "u32 \<Rightarrow> u32 \<Rightarrow> snake \<Rightarrow> snake \<times> u32 option" where
  "collect_boost_charge amount_ms capacity_ms s =
     (if \<not> sn_alive s \<or> amount_ms = 0 \<or> capacity_ms = 0
         \<or> \<not> is_multiple_of amount_ms BOOST_TICK_INTERVAL_MS
         \<or> \<not> is_multiple_of capacity_ms BOOST_TICK_INTERVAL_MS
         \<or> charge_ms (sn_boost s) \<ge> capacity_ms
      then (s, None)
      else
        let available_ms = capacity_ms - charge_ms (sn_boost s);
            charge = charge_ms (sn_boost s) + min amount_ms available_ms
        in (s\<lparr>sn_boost := (sn_boost s)\<lparr>charge_ms := charge\<rparr>\<rparr>, Some charge))"

definition set_boost_intent :: "bool \<Rightarrow> snake \<Rightarrow> snake \<times> bool" where
  "set_boost_intent wants_boost s =
     (if intent (sn_boost s) = wants_boost then (s, False)
      else (s\<lparr>sn_boost := (sn_boost s)\<lparr>intent := wants_boost\<rparr>\<rparr>, True))"

definition try_activate_boost :: "u16 \<Rightarrow> u32 \<Rightarrow> snake \<Rightarrow> snake \<times> bool" where
  "try_activate_boost configured_speed_milli capacity_ms s =
     (let valid_config =
            NORMAL_SNAKE_SPEED_MILLI \<le> configured_speed_milli
            \<and> configured_speed_milli \<le> MAX_BOOST_SPEED_MILLI
            \<and> capacity_ms > 0 \<and> is_multiple_of capacity_ms BOOST_TICK_INTERVAL_MS;
          valid_charge =
            charge_ms (sn_boost s) > 0 \<and> charge_ms (sn_boost s) \<le> capacity_ms
            \<and> is_multiple_of (charge_ms (sn_boost s)) BOOST_TICK_INTERVAL_MS
      in if \<not> sn_alive s \<or> boost_on (sn_boost s) \<or> sn_speed s \<noteq> NORMAL_SNAKE_SPEED_MILLI
            \<or> \<not> valid_config \<or> \<not> valid_charge
         then (s, False)
         else (s\<lparr>sn_boost := (sn_boost s)\<lparr>boost_on := True\<rparr>, sn_speed := configured_speed_milli\<rparr>, True))"

definition try_deactivate_boost :: "snake \<Rightarrow> snake \<times> bool" where
  "try_deactivate_boost s =
     (if \<not> boost_on (sn_boost s) then (s, False)
      else (s\<lparr>sn_boost := (sn_boost s)\<lparr>boost_on := False\<rparr>, sn_speed := NORMAL_SNAKE_SPEED_MILLI\<rparr>, True))"

definition resolve_boost :: "u16 \<Rightarrow> u32 \<Rightarrow> snake \<Rightarrow> snake \<times> boost_resolution option" where
  "resolve_boost configured_speed_milli capacity_ms s =
     (if \<not> intent (sn_boost s) \<or> \<not> sn_alive s
      then let (s, stopped) = try_deactivate_boost s
           in (s, if stopped then Some Deactivated else None)
      else let (s, started) = try_activate_boost configured_speed_milli capacity_ms s
           in (s, if started then Some Activated else None))"

definition reserve_boost_quantum :: "bool \<Rightarrow> snake \<Rightarrow> snake \<times> bool" where
  "reserve_boost_quantum unlimited s =
     (if \<not> sn_alive s \<or> \<not> boost_on (sn_boost s) \<or> charge_ms (sn_boost s) < BOOST_TICK_INTERVAL_MS
      then (s, False)
      else if \<not> unlimited
      then (s\<lparr>sn_boost := (sn_boost s)\<lparr>charge_ms := charge_ms (sn_boost s) - BOOST_TICK_INTERVAL_MS\<rparr>\<rparr>, True)
      else (s, True))"

definition finalize_boost_depletion :: "snake \<Rightarrow> snake \<times> bool" where
  "finalize_boost_depletion s =
     (if \<not> boost_on (sn_boost s) \<or> charge_ms (sn_boost s) \<noteq> 0 then (s, False)
      else (s\<lparr>sn_boost := (sn_boost s)\<lparr>boost_on := False\<rparr>, sn_speed := NORMAL_SNAKE_SPEED_MILLI\<rparr>, True))"

text \<open>
  The arithmetic is done in u64, as in the source; the two assertions and the \<open>expect\<close> of the
  final narrowing are panics.
\<close>

definition accrue_movement_credit :: "u32 \<Rightarrow> u32 \<Rightarrow> snake \<Rightarrow> (snake \<times> bool) result" where
  "accrue_movement_credit tick_duration_ms normal_movement_interval_ms s =
     (if \<not> sn_alive s then Inr (s, False)
      else if normal_movement_interval_ms = 0
      then Inl (Panic ''normal movement interval must be positive'')
      else
        let threshold = ucast NORMAL_SNAKE_SPEED_MILLI * ucast normal_movement_interval_ms :: u64;
            accumulated = ucast (sn_credit s) + ucast (sn_speed s) * ucast tick_duration_ms :: u64
        in if \<not> accumulated < threshold * 2
           then Inl (Panic ''a snake may accrue at most one movement opportunity per simulation quantum'')
           else
             let moves = accumulated \<ge> threshold;
                 residual = (if moves then accumulated - threshold else accumulated)
             in if unat residual < 2 ^ 32
                then Inr (s\<lparr>sn_credit := ucast residual\<rparr>, moves)
                else Inl (Panic ''movement credit residual must fit in serialized state''))"

definition reset_boost_and_movement :: "u32 option \<Rightarrow> snake \<Rightarrow> snake" where
  "reset_boost_and_movement unlimited_capacity_ms s =
     s\<lparr>sn_speed := NORMAL_SNAKE_SPEED_MILLI, sn_credit := 0,
       sn_boost := snake_boost_default\<lparr>intent := intent (sn_boost s),
         charge_ms := (case unlimited_capacity_ms of None \<Rightarrow> 0 | Some c \<Rightarrow> c)\<rparr>\<rparr>"

section \<open>Combo\<close>

definition drain_combo :: "u32 \<Rightarrow> snake \<Rightarrow> snake" where
  "drain_combo elapsed_ms s =
     (if remaining_ms (sn_combo s) = 0
      then s\<lparr>sn_combo := (sn_combo s)\<lparr>chain_count := 0\<rparr>\<rparr>
      else
        let left = sat_sub (remaining_ms (sn_combo s)) elapsed_ms;
            s = s\<lparr>sn_combo := (sn_combo s)\<lparr>remaining_ms := left\<rparr>\<rparr>
        in if left = 0 then s\<lparr>sn_combo := (sn_combo s)\<lparr>chain_count := 0\<rparr>\<rparr> else s)"

definition reset_combo :: "snake \<Rightarrow> snake" where
  "reset_combo s = s\<lparr>sn_combo := snake_combo_default\<rparr>"

section \<open>The compressed body\<close>

definition head :: "snake \<Rightarrow> position result" where
  "head s = (case sn_body s of [] \<Rightarrow> Inl (Err ''Snake has no head'') | p # _ \<Rightarrow> Inr p)"

definition tail :: "snake \<Rightarrow> position result" where
  "tail s = (case sn_body s of [] \<Rightarrow> Inl (Err ''Snake has no tail'') | _ \<Rightarrow> Inr (last (sn_body s)))"

definition travel_direction :: "snake \<Rightarrow> direction" where
  "travel_direction s =
     (case sn_body s of
        h # neck # _ \<Rightarrow>
          if px h > px neck then Right
          else if px h < px neck then Left
          else if py h > py neck then Down
          else if py h < py neck then Up
          else sn_direction s
      | _ \<Rightarrow> sn_direction s)"

text \<open>The \<open>match self.direction\<close> of \<open>step_forward\<close>, in i16 arithmetic.\<close>

fun next_head :: "direction \<Rightarrow> position \<Rightarrow> position" where
  "next_head Up p = \<lparr>px = px p, py = wrap_i16 (py p - 1)\<rparr>"
| "next_head Down p = \<lparr>px = px p, py = wrap_i16 (py p + 1)\<rparr>"
| "next_head Left p = \<lparr>px = wrap_i16 (px p - 1), py = py p\<rparr>"
| "next_head Right p = \<lparr>px = wrap_i16 (px p + 1), py = py p\<rparr>"

text \<open>One cell of the tail towards the point before it.\<close>

definition tail_towards :: "position \<Rightarrow> position \<Rightarrow> position" where
  "tail_towards before t =
     (if px t < px before then t\<lparr>px := px t + 1\<rparr>
      else if px t > px before then t\<lparr>px := px t - 1\<rparr>
      else if py t < py before then t\<lparr>py := py t + 1\<rparr>
      else if py t > py before then t\<lparr>py := py t - 1\<rparr>
      else t)"

definition retract_tail :: "position list \<Rightarrow> position list" where
  "retract_tail body =
     (let tail_idx = length body - 1;
          before = body ! (tail_idx - 1);
          t = tail_towards before (body ! tail_idx)
      in if t = before then butlast body else body[tail_idx := t])"

definition step_forward :: "snake \<Rightarrow> snake" where
  "step_forward s =
     (if \<not> sn_alive s \<or> length (sn_body s) < 2 then s
      else
        let p1 = sn_body s ! 0;
            p2 = sn_body s ! 1;
            p0 = next_head (sn_direction s) p1;
            body = (if (px p0 = px p1 \<and> px p1 = px p2) \<or> (py p0 = py p1 \<and> py p1 = py p2)
                    then (sn_body s)[0 := p0]
                    else p0 # sn_body s)
        in if sn_food s > 0
           then s\<lparr>sn_body := body, sn_food := sn_food s - 1\<rparr>
           else s\<lparr>sn_body := retract_tail body\<rparr>)"

definition iter_body :: "snake \<Rightarrow> (position \<times> position) list" where
  "iter_body s = zip (sn_body s) (drop 1 (sn_body s))"

definition contains_point :: "snake \<Rightarrow> position \<Rightarrow> bool \<Rightarrow> bool" where
  "contains_point s point skip_head \<longleftrightarrow>
     list_ex (\<lambda>(idx, (p1, p2)).
       if skip_head \<and> idx = 0 \<and> p1 = point then False else is_between point p1 p2)
       (enumerate 0 (iter_body s))"

definition is_head :: "snake \<Rightarrow> position \<Rightarrow> bool" where
  "is_head s point = (case sn_body s of [] \<Rightarrow> False | p # _ \<Rightarrow> p = point)"

text \<open>The cast \<open>i16 as usize\<close> sign-extends.\<close>

definition usize_of_i16 :: "int \<Rightarrow> nat" where
  "usize_of_i16 z = nat (z mod 2 ^ 64)"

definition segment_distance :: "position \<times> position \<Rightarrow> nat" where
  "segment_distance = (\<lambda>(p1, p2).
     usize_of_i16 (wrap_i16 (wrap_i16 \<bar>wrap_i16 (px p2 - px p1)\<bar> + wrap_i16 \<bar>wrap_i16 (py p2 - py p1)\<bar>)))"

definition snake_length :: "snake \<Rightarrow> nat" where
  "snake_length s =
     (if length (sn_body s) < 2 then length (sn_body s)
      else sum_list (map segment_distance (iter_body s)) + 1)"

end
