(* ===== verification/Pseudo_Random.thy ===== *)
theory Pseudo_Random
  imports Complex_Main Prelude
begin

unbundle bit_operations_syntax

text \<open>
  The pseudo-random generator of \<^verbatim>\<open>common/src/util.rs\<close> and the single-precision arithmetic that
  the food sampler of \<^verbatim>\<open>common/src/game_state.rs\<close> performs on its output.

  A value of \<open>next_f32\<close> is \<open>k / 2 ^ 24\<close> for a 24-bit \<open>k\<close>, so it is represented by the
  numerator \<open>k\<close>; the one multiplication of the uniform sampler is modelled bit-exactly by
  \<open>f32_round\<close>, round-to-nearest-even to 24 significant bits. The Box-Muller transform of
  \<open>next_normal\<close> uses \<open>ln\<close>, \<open>sqrt\<close> and \<open>cos\<close>, whose results the platform's mathematical
  library decides; it is a parameter of the model (type \<open>box_muller\<close>), and the generator
  steps it consumes are modelled.
\<close>

section \<open>The xorshift generator\<close>

record pseudo_random =
  rng_state :: u64

definition pseudo_random_new :: "u64 \<Rightarrow> pseudo_random" where
  "pseudo_random_new seed =
     \<lparr>rng_state = (if seed = 0 then 0x1234567890abcdef else seed)\<rparr>"

text \<open>The three xor-shift assignments that \<open>next_u32\<close> and \<open>next_u64\<close> both perform.\<close>

definition xorshift :: "u64 \<Rightarrow> u64" where
  "xorshift s =
     (let s = s XOR push_bit 13 s;
          s = s XOR drop_bit 17 s
      in s XOR push_bit 5 s)"

definition next_u32 :: "pseudo_random \<Rightarrow> u32 \<times> pseudo_random" where
  "next_u32 r =
     (let s = xorshift (rng_state r)
      in (ucast (drop_bit 32 s), r\<lparr>rng_state := s\<rparr>))"

definition next_u16 :: "pseudo_random \<Rightarrow> u16 \<times> pseudo_random" where
  "next_u16 r = (let (v, r) = next_u32 r in (ucast v, r))"

definition next_u64 :: "pseudo_random \<Rightarrow> u64 \<times> pseudo_random" where
  "next_u64 r =
     (let s = xorshift (rng_state r)
      in (s, r\<lparr>rng_state := s\<rparr>))"

text \<open>The numerator over \<open>2 ^ 24\<close> of \<open>next_f32\<close>.\<close>

definition next_f32 :: "pseudo_random \<Rightarrow> nat \<times> pseudo_random" where
  "next_f32 r = (let (v, r) = next_u32 r in (unat (drop_bit 8 v), r))"

section \<open>Single-precision values\<close>

text \<open>A float that is read only through \<open>round\<close>, \<open>clamp\<close> and a cast.\<close>

datatype f32_value = NaN | NegInf | PosInf | Finite rat

text \<open>
  The value \<open>mean + z0 * std_dev\<close> of the Box-Muller transform for its two uniform inputs, twice
  the mean and six times the standard deviation (both integers at the only call). What the code
  relies on is that a logarithm of a number strictly between 0 and 1 is not a NaN.
\<close>

type_synonym box_muller = "rat \<Rightarrow> rat \<Rightarrow> int \<Rightarrow> int \<Rightarrow> f32_value"

definition box_muller_ok :: "box_muller \<Rightarrow> bool" where
  "box_muller_ok bm \<longleftrightarrow>
     (\<forall>u1 u2 m s. 0 < u1 \<longrightarrow> u1 < 1 \<longrightarrow> 0 \<le> u2 \<longrightarrow> u2 < 1 \<longrightarrow> bm u1 u2 m s \<noteq> NaN)"

text \<open>The f32 nearest to 0.000001, which replaces a draw of zero, is \<open>8796093 / 2 ^ 43\<close>.\<close>

definition next_normal :: "box_muller \<Rightarrow> int \<Rightarrow> int \<Rightarrow> pseudo_random \<Rightarrow> f32_value \<times> pseudo_random" where
  "next_normal bm mean2 std6 r =
     (let (k1, r) = next_f32 r;
          (k2, r) = next_f32 r;
          u1 = (if k1 = 0 then 8796093 / 2 ^ 43 else rat_of_nat k1 / 2 ^ 24)
      in (bm u1 (rat_of_nat k2 / 2 ^ 24) mean2 std6, r))"

fun bit_length :: "nat \<Rightarrow> nat" where
  "bit_length n = (if n = 0 then 0 else Suc (bit_length (n div 2)))"

declare bit_length.simps [simp del]

text \<open>Drop \<open>s\<close> low bits, rounding to nearest and ties to even.\<close>

definition round_shift :: "nat \<Rightarrow> nat \<Rightarrow> nat" where
  "round_shift n s =
     (let q = n div 2 ^ s; r = n mod 2 ^ s; h = 2 ^ (s - 1)
      in if s = 0 then n else if h < r \<or> (r = h \<and> odd q) then q + 1 else q)"

text \<open>An integer rounded to the 24 significant bits of an f32.\<close>

definition f32_round :: "nat \<Rightarrow> nat" where
  "f32_round n = (let s = bit_length n - 24 in round_shift n s * 2 ^ s)"

text \<open>\<open>f32::round\<close>: to the nearest integer, halves away from zero.\<close>

definition round_away :: "rat \<Rightarrow> int" where
  "round_away q = (if q < 0 then - \<lfloor>- q + 1 / 2\<rfloor> else \<lfloor>q + 1 / 2\<rfloor>)"

text \<open>\<open>round().clamp(lo, hi) as i16\<close>; \<open>clamp\<close> keeps a NaN, which the cast sends to zero.\<close>

definition f32_round_clamp_i16 :: "i16 \<Rightarrow> i16 \<Rightarrow> f32_value \<Rightarrow> i16 result" where
  "f32_round_clamp_i16 lo hi v =
     (if hi < lo then Inl (Panic ''min > max'')
      else Inr (case v of
                  NaN \<Rightarrow> 0
                | NegInf \<Rightarrow> lo
                | PosInf \<Rightarrow> hi
                | Finite q \<Rightarrow> clamp_int lo hi (round_away q)))"

section \<open>The generator is a permutation of its non-zero states\<close>

lemma xor_eq_0D: "x XOR y = 0 \<Longrightarrow> x = y" for x y :: "'a::len word"
  by (metis xor.assoc xor.left_neutral xor.right_neutral xor_self_eq)

lemma xor_push_bit_eq_0:
  fixes x :: "'a::len word"
  assumes "0 < n" and "x XOR push_bit n x = 0"
  shows "x = 0"
proof (rule bit_word_eqI)
  fix i
  assume "i < LENGTH('a)"
  have eq: "x = push_bit n x"
    using assms(2) by (rule xor_eq_0D)
  have "\<not> bit x i"
  proof (induction i rule: less_induct)
    case (less i)
    show ?case
    proof
      assume "bit x i"
      then have "n \<le> i" and "bit x (i - n)"
        using eq by (metis bit_push_bit_iff)+
      then show False
        using less.IH [of "i - n"] assms(1) by auto
    qed
  qed
  then show "bit x i \<longleftrightarrow> bit 0 i"
    by simp
qed

lemma xor_drop_bit_eq_0:
  fixes x :: "'a::len word"
  assumes "0 < n" and "x XOR drop_bit n x = 0"
  shows "x = 0"
proof (rule bit_word_eqI)
  fix i
  assume "i < LENGTH('a)"
  have eq: "x = drop_bit n x"
    using assms(2) by (rule xor_eq_0D)
  have "\<not> bit x i"
  proof (induction "LENGTH('a) - i" arbitrary: i rule: less_induct)
    case less
    show ?case
    proof
      assume "bit x i"
      then have b: "bit x (n + i)"
        using eq by (metis bit_drop_bit_eq comp_apply)
      then have "n + i < LENGTH('a)"
        by (simp add: bit_imp_le_length)
      with b show False
        using less [of "n + i"] assms(1) by auto
    qed
  qed
  then show "bit x i \<longleftrightarrow> bit 0 i"
    by simp
qed

lemma xorshift_eq_0_iff [simp]: "xorshift s = 0 \<longleftrightarrow> s = 0"
proof
  assume "xorshift s = 0"
  then have "(s XOR push_bit 13 s) XOR drop_bit 17 (s XOR push_bit 13 s) = 0"
    unfolding xorshift_def Let_def by (rule xor_push_bit_eq_0 [rotated]) simp
  then have "s XOR push_bit 13 s = 0"
    by (rule xor_drop_bit_eq_0 [rotated]) simp
  then show "s = 0"
    by (rule xor_push_bit_eq_0 [rotated]) simp
qed (simp add: xorshift_def)

lemma xorshift_xor: "xorshift (s XOR t) = xorshift s XOR xorshift t"
  by (simp add: xorshift_def Let_def push_bit_xor drop_bit_xor ac_simps)

lemma inj_xorshift: "inj xorshift"
proof (rule injI)
  fix s t
  assume "xorshift s = xorshift t"
  then have "xorshift (s XOR t) = 0"
    by (simp add: xorshift_xor)
  then show "s = t"
    using xor_eq_0D [of s t] by simp
qed

text \<open>
  Any number of draws, in any mix, from a generator made by \<open>new\<close> leaves a non-zero state.
\<close>

datatype draw = DrawU16 | DrawU32 | DrawU64 | DrawF32 | DrawNormal box_muller int int

fun rng_after :: "pseudo_random \<Rightarrow> draw \<Rightarrow> pseudo_random" where
  "rng_after r DrawU16 = snd (next_u16 r)"
| "rng_after r DrawU32 = snd (next_u32 r)"
| "rng_after r DrawU64 = snd (next_u64 r)"
| "rng_after r DrawF32 = snd (next_f32 r)"
| "rng_after r (DrawNormal bm m s) = snd (next_normal bm m s r)"

lemmas draw_defs = next_u16_def next_u32_def next_u64_def next_f32_def next_normal_def

interpretation rng: stable_steps rng_after "\<lambda>r::pseudo_random. rng_state r \<noteq> 0"
proof unfold_locales
  fix r :: pseudo_random and e
  assume "rng_state r \<noteq> 0"
  then show "rng_state (rng_after r e) \<noteq> 0"
    by (cases e) (simp_all add: draw_defs Let_def)
qed

section \<open>Rounding\<close>

lemma bit_length_bounds:
  "n < 2 ^ bit_length n" "0 < n \<Longrightarrow> 2 ^ (bit_length n - 1) \<le> n"
proof (induction n rule: bit_length.induct)
  case (1 n)
  {
    case 1
    then show ?case
      using "1.IH"(1) by (cases "n = 0") (auto simp: bit_length.simps [of n])
  next
    case 2
    show ?case
    proof (cases "n = 1")
      case True
      then show ?thesis by (simp add: bit_length.simps)
    next
      case False
      with 2 have "0 < n div 2" by auto
      moreover have "0 < bit_length (n div 2)"
        using calculation by (subst bit_length.simps) simp
      ultimately have "(2::nat) ^ bit_length (n div 2) = 2 * 2 ^ (bit_length (n div 2) - 1)"
        and "2 ^ (bit_length (n div 2) - 1) \<le> n div 2"
        using "1.IH"(2) 2 by (auto simp flip: power_Suc)
      then show ?thesis
        using 2 by (simp add: bit_length.simps [of n])
    qed
  }
qed

lemma round_shift_le: "0 < s \<Longrightarrow> round_shift n s * 2 ^ s \<le> n + 2 ^ (s - 1)"
proof -
  assume s: "0 < s"
  define q r where "q = n div 2 ^ s" and "r = n mod 2 ^ s"
  have n: "n = q * 2 ^ s + r"
    by (simp add: q_def r_def div_mult_mod_eq)
  have p: "(2::nat) ^ s = 2 * 2 ^ (s - 1)"
    using s by (cases s) simp_all
  have "round_shift n s = q \<or> (round_shift n s = q + 1 \<and> 2 ^ (s - 1) \<le> r)"
    using s by (auto simp: round_shift_def Let_def q_def r_def)
  then show ?thesis
  proof
    assume "round_shift n s = q"
    then show ?thesis using n by simp
  next
    assume up: "round_shift n s = q + 1 \<and> 2 ^ (s - 1) \<le> r"
    then have "round_shift n s * 2 ^ s = q * 2 ^ s + 2 ^ s" by simp
    then show ?thesis using up n p by linarith
  qed
qed

lemma f32_round_small: "n < 2 ^ 24 \<Longrightarrow> f32_round n = n"
proof -
  assume n: "n < 2 ^ 24"
  have "bit_length n \<le> 24"
  proof (rule ccontr)
    assume "\<not> bit_length n \<le> 24"
    then have "(2::nat) ^ 24 \<le> 2 ^ (bit_length n - 1)"
      by (intro power_increasing) auto
    moreover have "0 < n"
      using \<open>\<not> bit_length n \<le> 24\<close> by (cases "n = 0") (simp_all add: bit_length.simps [of 0])
    ultimately show False
      using bit_length_bounds(2) [of n] n by simp
  qed
  then show ?thesis by (simp add: f32_round_def round_shift_def)
qed

text \<open>
  A 24-bit fraction times an integer, rounded to single precision, stays below the integer:
  the half-ulp rounding error is smaller than the gap the fraction leaves.
\<close>

lemma f32_round_fraction:
  assumes k: "k < 2 ^ 24" and m: "0 < m"
  shows "f32_round (k * m) div 2 ^ 24 < m"
proof (cases "k * m < 2 ^ 24")
  case True
  then show ?thesis using m by (simp add: f32_round_small)
next
  case False
  define n s where "n = k * m" and "s = bit_length n - 24"
  have n0: "0 < n" using False by (auto simp: n_def intro: Nat.gr0I)
  have "24 < bit_length n"
  proof (rule ccontr)
    assume "\<not> 24 < bit_length n"
    then have "(2::nat) ^ bit_length n \<le> 2 ^ 24" by (intro power_increasing) auto
    with bit_length_bounds(1) [of n] False show False by (simp add: n_def)
  qed
  then have s: "0 < s" and len: "bit_length n - 1 = 24 + (s - 1)"
    by (auto simp: s_def)
  have "2 ^ 24 * 2 ^ (s - 1) \<le> n"
    using bit_length_bounds(2) [OF n0] by (simp only: len power_add)
  also have "n < 2 ^ 24 * m"
    using k m by (simp add: n_def)
  finally have sm: "2 ^ (s - 1) < m" by simp
  have "n + m \<le> 2 ^ 24 * m"
    using mult_le_mono1 [of "Suc k" "2 ^ 24" m] k by (simp add: n_def)
  moreover have "f32_round n \<le> n + 2 ^ (s - 1)"
    using round_shift_le [OF s, of n] by (simp add: f32_round_def s_def Let_def)
  ultimately have "f32_round n < 2 ^ 24 * m"
    using sm by simp
  then show ?thesis
    by (simp add: n_def div_less_iff_less_mult mult.commute)
qed

lemma next_f32_bound: "fst (next_f32 r) < 2 ^ 24"
proof -
  have "unat (drop_bit 8 v) < 2 ^ 24" for v :: u32
  proof -
    have "unat v < 2 ^ 32"
      using unsigned_less [of v] by simp
    then show ?thesis
      by (simp add: unsigned_drop_bit_eq drop_bit_eq_div unat_div div_less_iff_less_mult)
  qed
  then show ?thesis
    by (simp add: next_f32_def split: prod.splits)
qed

text \<open>The replacement of a zero draw keeps the transform away from its only singular input.\<close>

lemma next_normal_not_NaN:
  assumes "box_muller_ok bm"
  shows "fst (next_normal bm m s r) \<noteq> NaN"
proof -
  obtain k1 r1 where 1: "next_f32 r = (k1, r1)" by fastforce
  obtain k2 r2 where 2: "next_f32 r1 = (k2, r2)" by fastforce
  define u1 where "u1 = (if k1 = 0 then 8796093 / 2 ^ 43 else rat_of_nat k1 / 2 ^ 24)"
  have "k1 < 2 ^ 24" and "k2 < 2 ^ 24"
    using next_f32_bound [of r] next_f32_bound [of r1] 1 2 by simp_all
  then have "rat_of_nat k1 < rat_of_nat (2 ^ 24)" and "rat_of_nat k2 < rat_of_nat (2 ^ 24)"
    unfolding of_nat_less_iff by blast+
  then have "0 < u1" and "u1 < 1" and "rat_of_nat k2 / 2 ^ 24 < 1"
    by (simp_all add: u1_def)
  then have "bm u1 (rat_of_nat k2 / 2 ^ 24) m s \<noteq> NaN"
    using assms by (simp add: box_muller_ok_def)
  moreover have "fst (next_normal bm m s r) = bm u1 (rat_of_nat k2 / 2 ^ 24) m s"
    by (simp add: next_normal_def 1 2 u1_def)
  ultimately show ?thesis by simp
qed

end
