(* ===== verification/Game_Config.thy ===== *)
theory Game_Config
  imports Snake_Model Pseudo_Random
begin

text \<open>
  The configuration part of \<^verbatim>\<open>common/src/game_state.rs\<close>: game types and modes, the boost, combo
  and inactivity settings that a match snapshots at creation, their validation, and the per-mode
  tables that construction and snapshot validation both read.
\<close>

section \<open>Constants\<close>

abbreviation (input) DEFAULT_BOOST_PACKET_CHARGE_MS :: u32 where
  "DEFAULT_BOOST_PACKET_CHARGE_MS \<equiv> 750"
abbreviation (input) DEFAULT_BOOST_PAD_RESPAWN_MS :: u32 where
  "DEFAULT_BOOST_PAD_RESPAWN_MS \<equiv> 8000"
abbreviation (input) BOOST_SPOT_LAYOUT_VERSION_TEAM :: u16 where
  "BOOST_SPOT_LAYOUT_VERSION_TEAM \<equiv> 3"
abbreviation (input) BOOST_SPOT_LAYOUT_VERSION_FIELD :: u16 where
  "BOOST_SPOT_LAYOUT_VERSION_FIELD \<equiv> 4"
abbreviation (input) BOOST_SPOT_LAYOUT_VERSION_NONE :: u16 where
  "BOOST_SPOT_LAYOUT_VERSION_NONE \<equiv> 0"
abbreviation (input) BOOST_RULES_VERSION :: u16 where "BOOST_RULES_VERSION \<equiv> 2"
abbreviation (input) DEFAULT_CUSTOM_GAME_TICK_MS :: u32 where "DEFAULT_CUSTOM_GAME_TICK_MS \<equiv> 100"
abbreviation (input) DEFAULT_PLAYER_IDLE_TIMEOUT_MS :: u32 where
  "DEFAULT_PLAYER_IDLE_TIMEOUT_MS \<equiv> 60000"
abbreviation (input) DEFAULT_PLAYER_IDLE_WARNING_MS :: u32 where
  "DEFAULT_PLAYER_IDLE_WARNING_MS \<equiv> 10000"
abbreviation (input) DEFAULT_FOOD_TARGET :: nat where "DEFAULT_FOOD_TARGET \<equiv> 10"
abbreviation (input) DEFAULT_QUICKMATCH_TEAM_SCORE_LIMIT :: u32 where
  "DEFAULT_QUICKMATCH_TEAM_SCORE_LIMIT \<equiv> 25"
abbreviation (input) DEFAULT_COMPETITIVE_TEAM_SCORE_LIMIT :: u32 where
  "DEFAULT_COMPETITIVE_TEAM_SCORE_LIMIT \<equiv> 50"
abbreviation (input) DEFAULT_SNAKE_LENGTH :: nat where "DEFAULT_SNAKE_LENGTH \<equiv> 4"
abbreviation (input) DEFAULT_COMBO_WINDOW_MS :: u32 where "DEFAULT_COMBO_WINDOW_MS \<equiv> 1000"
abbreviation (input) DEFAULT_COMBO_MAX_FOOD_VALUE :: u32 where "DEFAULT_COMBO_MAX_FOOD_VALUE \<equiv> 3"
abbreviation (input) COMBO_RULES_VERSION :: u16 where "COMBO_RULES_VERSION \<equiv> 1"
abbreviation (input) MAX_COMBO_WINDOW_MS :: u32 where "MAX_COMBO_WINDOW_MS \<equiv> 60000"

section \<open>Boost configuration\<close>

record team_zone_config =
  end_zone_depth :: u16
  goal_width :: u16

record boost_config =
  bc_speed_milli :: u16
  bc_capacity_ms :: u32
  bc_packet_charge_ms :: u32
  bc_pad_respawn_ms :: u32
  bc_spot_layout_version :: u16
  bc_rules_version :: u16
  bc_unlimited :: bool

definition boost_config_default :: boost_config where
  "boost_config_default =
     \<lparr>bc_speed_milli = DEFAULT_BOOST_SPEED_MILLI, bc_capacity_ms = DEFAULT_BOOST_CAPACITY_MS,
      bc_packet_charge_ms = DEFAULT_BOOST_PACKET_CHARGE_MS,
      bc_pad_respawn_ms = DEFAULT_BOOST_PAD_RESPAWN_MS,
      bc_spot_layout_version = BOOST_SPOT_LAYOUT_VERSION_TEAM,
      bc_rules_version = BOOST_RULES_VERSION, bc_unlimited = False\<rparr>"

definition boost_config_field :: boost_config where
  "boost_config_field =
     boost_config_default\<lparr>bc_spot_layout_version := BOOST_SPOT_LAYOUT_VERSION_FIELD\<rparr>"

definition boost_config_unlimited :: boost_config where
  "boost_config_unlimited =
     boost_config_default\<lparr>bc_spot_layout_version := BOOST_SPOT_LAYOUT_VERSION_NONE,
       bc_unlimited := True\<rparr>"

definition boost_config_validate :: "boost_config \<Rightarrow> unit result" where
  "boost_config_validate c =
     (if \<not> (NORMAL_SNAKE_SPEED_MILLI \<le> bc_speed_milli c \<and> bc_speed_milli c \<le> MAX_BOOST_SPEED_MILLI)
      then Inl (Err ''Boost speed_milli must be in range'')
      else if bc_capacity_ms c = 0 \<or> \<not> is_multiple_of (bc_capacity_ms c) (BOOST_TICK_INTERVAL_MS * 4)
      then Inl (Err ''Boost capacity_ms must be positive and divisible so 25% is a whole quantum'')
      else if bc_packet_charge_ms c \<noteq> bc_capacity_ms c div 4
      then Inl (Err ''Boost packet_charge_ms must equal exactly 25% of capacity'')
      else if bc_pad_respawn_ms c = 0 \<or> \<not> is_multiple_of (bc_pad_respawn_ms c) BOOST_TICK_INTERVAL_MS
      then Inl (Err ''Boost pad_respawn_ms must be positive and divisible'')
      else if bc_spot_layout_version c \<notin>
          {BOOST_SPOT_LAYOUT_VERSION_TEAM, BOOST_SPOT_LAYOUT_VERSION_FIELD, BOOST_SPOT_LAYOUT_VERSION_NONE}
      then Inl (Err ''unsupported Boost spot layout version'')
      else if bc_unlimited c \<noteq> (bc_spot_layout_version c = BOOST_SPOT_LAYOUT_VERSION_NONE)
      then Inl (Err ''unlimited Boost requires the padless spot layout and vice versa'')
      else if bc_rules_version c \<noteq> BOOST_RULES_VERSION
      then Inl (Err ''unsupported Boost rules version'')
      else Inr ())"

section \<open>Combo configuration\<close>

record combo_config =
  cc_window_ms :: u32
  cc_max_food_value :: u32
  cc_rules_version :: u16

definition combo_config_default :: combo_config where
  "combo_config_default =
     \<lparr>cc_window_ms = DEFAULT_COMBO_WINDOW_MS, cc_max_food_value = DEFAULT_COMBO_MAX_FOOD_VALUE,
      cc_rules_version = COMBO_RULES_VERSION\<rparr>"

definition combo_config_validate :: "combo_config \<Rightarrow> unit result" where
  "combo_config_validate c =
     (if cc_window_ms c = 0 \<or> cc_window_ms c > MAX_COMBO_WINDOW_MS
      then Inl (Err ''Combo window_ms must be in range'')
      else if \<not> (1 \<le> cc_max_food_value c \<and> cc_max_food_value c \<le> DEFAULT_COMBO_MAX_FOOD_VALUE)
      then Inl (Err ''Combo max_food_value must be in range'')
      else if cc_rules_version c \<noteq> COMBO_RULES_VERSION
      then Inl (Err ''unsupported Combo rules version'')
      else Inr ())"

definition food_value_for_chain :: "combo_config \<Rightarrow> u32 \<Rightarrow> u32" where
  "food_value_for_chain c n =
     min (max (sat_sub n 1) 1) (max (cc_max_food_value c) 1)"

section \<open>Game properties and types\<close>

record game_properties =
  gp_available_food_target :: nat
  gp_tick_duration_ms :: u32
  gp_time_limit_ms :: "u32 option"
  gp_score_limit :: "u32 option"
  gp_boost :: "boost_config option"
  gp_combo :: combo_config
  gp_player_idle_timeout_ms :: u32
  gp_player_idle_warning_ms :: u32

datatype game_mode = ModeSolo | ModeDuel | ModeFreeForAll u8

record custom_game_settings =
  cg_arena_width :: u16
  cg_arena_height :: u16
  cg_tick_duration_ms :: u32
  cg_food_spawn_rate :: f32_value
  cg_max_players :: u8
  cg_game_mode :: game_mode
  cg_is_private :: bool
  cg_allow_spectators :: bool
  cg_snake_start_length :: u8

definition custom_game_settings_default :: custom_game_settings where
  "custom_game_settings_default =
     \<lparr>cg_arena_width = 40, cg_arena_height = 40, cg_tick_duration_ms = DEFAULT_CUSTOM_GAME_TICK_MS,
      cg_food_spawn_rate = Finite 3, cg_max_players = 4, cg_game_mode = ModeFreeForAll 4,
      cg_is_private = True, cg_allow_spectators = True, cg_snake_start_length = 4\<rparr>"

datatype queue_mode = Quickmatch | Competitive

definition team_score_limit :: "queue_mode \<Rightarrow> u32" where
  "team_score_limit q =
     (case q of
        Quickmatch \<Rightarrow> DEFAULT_QUICKMATCH_TEAM_SCORE_LIMIT
      | Competitive \<Rightarrow> DEFAULT_COMPETITIVE_TEAM_SCORE_LIMIT)"

datatype game_type =
    Solo
  | TeamMatch (per_team: u8)
  | FreeForAll (max_players: u8)
  | Custom (settings: custom_game_settings)

definition is_team_match :: "game_type \<Rightarrow> bool" where
  "is_team_match t = (case t of TeamMatch _ \<Rightarrow> True | _ \<Rightarrow> False)"

definition boost_config_for :: "game_type \<Rightarrow> u16 \<Rightarrow> u16 \<Rightarrow> boost_config option" where
  "boost_config_for t width height =
     (case t of
        TeamMatch n \<Rightarrow>
          if (n = 1 \<or> n = 2) \<and> width = 60 \<and> height = 40 then Some boost_config_default else None
      | FreeForAll _ \<Rightarrow> if width = 40 \<and> height = 40 then Some boost_config_field else None
      | Solo \<Rightarrow> Some boost_config_unlimited
      | Custom _ \<Rightarrow> None)"

definition food_target_for :: "game_type \<Rightarrow> nat" where
  "food_target_for t =
     (case t of
        TeamMatch n \<Rightarrow> if n = 2 then DEFAULT_FOOD_TARGET * 2 else DEFAULT_FOOD_TARGET
      | FreeForAll _ \<Rightarrow> DEFAULT_FOOD_TARGET * 2
      | _ \<Rightarrow> DEFAULT_FOOD_TARGET)"

datatype game_status =
    Stopped
  | Started (server_id: u64)
  | Complete (winning_snake_id: "u32 option")

definition is_started :: "game_status \<Rightarrow> bool" where
  "is_started st = (case st of Started _ \<Rightarrow> True | _ \<Rightarrow> False)"

section \<open>Lemmas\<close>

lemma boost_config_default_valid: "boost_config_validate boost_config_default = Inr ()"
  and boost_config_field_valid: "boost_config_validate boost_config_field = Inr ()"
  and boost_config_unlimited_valid: "boost_config_validate boost_config_unlimited = Inr ()"
  by code_simp+

lemma boost_config_for_valid:
  "boost_config_for t w h = Some c \<Longrightarrow> boost_config_validate c = Inr ()"
  by (auto simp: boost_config_for_def boost_config_default_valid boost_config_field_valid
      boost_config_unlimited_valid split: game_type.splits if_splits)

lemma boost_config_validate_ok_iff:
  "boost_config_validate c = Inr () \<longleftrightarrow>
     1000 \<le> bc_speed_milli c \<and> bc_speed_milli c \<le> 2000 \<and>
     bc_capacity_ms c \<noteq> 0 \<and> is_multiple_of (bc_capacity_ms c) 200 \<and>
     bc_packet_charge_ms c = bc_capacity_ms c div 4 \<and>
     bc_pad_respawn_ms c \<noteq> 0 \<and> is_multiple_of (bc_pad_respawn_ms c) 50 \<and>
     bc_spot_layout_version c \<in> {3, 4, 0} \<and>
     (bc_unlimited c \<longleftrightarrow> bc_spot_layout_version c = 0) \<and>
     bc_rules_version c = 2"
  unfolding boost_config_validate_def guard_ok_iff by simp

lemma is_multiple_of_trans: "is_multiple_of a b \<Longrightarrow> is_multiple_of b c \<Longrightarrow> is_multiple_of a c"
  using dvd_trans by (auto simp: is_multiple_of_unat)

lemma boost_config_quantum:
  assumes "boost_config_validate c = Inr ()"
  shows "is_multiple_of (bc_capacity_ms c) 50" and "is_multiple_of (bc_packet_charge_ms c) 50"
    and "0 < bc_packet_charge_ms c" and "bc_packet_charge_ms c \<le> bc_capacity_ms c"
proof -
  have "is_multiple_of (bc_capacity_ms c) 200" and pos: "bc_capacity_ms c \<noteq> 0"
    and pkt: "bc_packet_charge_ms c = bc_capacity_ms c div 4"
    using assms by (simp_all add: boost_config_validate_ok_iff)
  then obtain k where k: "unat (bc_capacity_ms c) = 200 * k"
    by (auto simp: is_multiple_of_unat)
  have pkt': "unat (bc_packet_charge_ms c) = 50 * k"
    using k by (simp add: pkt unat_div)
  have "0 < k"
    using pos k by (metis mult_0_right neq0_conv unat_eq_zero)
  show "is_multiple_of (bc_capacity_ms c) 50"
    using k by (simp add: is_multiple_of_unat)
  show "is_multiple_of (bc_packet_charge_ms c) 50"
    using pkt' by (simp add: is_multiple_of_unat)
  show "0 < bc_packet_charge_ms c" and "bc_packet_charge_ms c \<le> bc_capacity_ms c"
    using k pkt' \<open>0 < k\<close> by (simp_all add: word_less_nat_alt word_le_nat_alt)
qed

text \<open>The value of a pickup: one point for the first two of a chain, then one more each, capped.\<close>

lemma unat_min: "unat (min a b) = min (unat a) (unat b)" for a b :: "'a::len word"
  by (simp add: min_def word_le_nat_alt)

lemma unat_max: "unat (max a b) = max (unat a) (unat b)" for a b :: "'a::len word"
  by (simp add: max_def word_le_nat_alt)

lemma food_value_for_chain_unat:
  "unat (food_value_for_chain c n) = min (max (unat n - 1) 1) (max (unat (cc_max_food_value c)) 1)"
  unfolding food_value_for_chain_def unat_min unat_max unat_sat_sub by simp

end
