(* ===== verification/Arena_Model.thy ===== *)
theory Arena_Model
  imports Game_Config
begin

text \<open>
  The arena of \<^verbatim>\<open>common/src/game_state.rs\<close>: boost pads and the two canonical pad layouts, the end
  zones, goals and walls of the team map, and food sampling.

  Coordinates are 16-bit; every addition and subtraction of the source is followed by
  \<open>wrap_i16\<close>. The value of a Box-Muller draw is the parameter \<open>box_muller\<close> of the random
  generator, passed through the sampling functions.
\<close>

section \<open>Boost pads\<close>

record boost_pad =
  bp_id :: u8
  bp_position :: position
  bp_charge_ms :: u32
  bp_size_cells :: u8
  bp_respawn_at_tick :: "u32 option"

definition pad_contains :: "boost_pad \<Rightarrow> position \<Rightarrow> bool" where
  "pad_contains pad p =
     (let size = uint (bp_size_cells pad) in
      0 < size \<and>
      px (bp_position pad) \<le> px p \<and> px p < px (bp_position pad) + size \<and>
      py (bp_position pad) \<le> py p \<and> py p < py (bp_position pad) + size)"

definition footprint_cells :: "boost_pad \<Rightarrow> position list" where
  "footprint_cells pad =
     (let n = unat (bp_size_cells pad) in
      concat (map (\<lambda>y_offset.
        concat (map (\<lambda>x_offset.
          let x = px (bp_position pad) + int x_offset;
              y = py (bp_position pad) + int y_offset
          in if in_i16 x \<and> in_i16 y then [\<lparr>px = x, py = y\<rparr>] else []) [0..<n])) [0..<n]))"

section \<open>The arena\<close>

record arena =
  ar_width :: u16
  ar_height :: u16
  ar_snakes :: "snake list"
  ar_food :: "position list"
  ar_boost_pads :: "boost_pad list"
  ar_team_zone_config :: "team_zone_config option"

definition add_snake :: "snake \<Rightarrow> arena \<Rightarrow> (arena \<times> u32) result" where
  "add_snake s a =
     (if int (length (ar_snakes a)) \<ge> 4294967295
      then Inl (Err ''Arena is full, cannot add more snakes'')
      else Inr (a\<lparr>ar_snakes := ar_snakes a @ [s]\<rparr>, of_nat (length (ar_snakes a))))"

definition is_boost_pad_position :: "arena \<Rightarrow> position \<Rightarrow> bool" where
  "is_boost_pad_position a p = list_ex (\<lambda>pad. pad_contains pad p) (ar_boost_pads a)"

definition main_field_bounds :: "arena \<Rightarrow> (i16 \<times> i16) option" where
  "main_field_bounds a =
     map_option (\<lambda>c. (i16_of_u16 (end_zone_depth c),
        wrap_i16 (wrap_i16 (i16_of_u16 (ar_width a) - i16_of_u16 (end_zone_depth c)) - 1)))
       (ar_team_zone_config a)"

definition boost_field_bounds :: "arena \<Rightarrow> u16 \<Rightarrow> (i16 \<times> i16) option" where
  "boost_field_bounds a version =
     (if version = BOOST_SPOT_LAYOUT_VERSION_TEAM then
        (case main_field_bounds a of
           None \<Rightarrow> None
         | Some (left, right) \<Rightarrow>
             if ar_width a = 60 \<and> ar_height a = 40 \<and> (left, right) = (10, 49)
             then Some (left, right) else None)
      else if version = BOOST_SPOT_LAYOUT_VERSION_FIELD then
        (if ar_team_zone_config a = None \<and> ar_width a = 40 \<and> ar_height a = 40
         then Some (0, wrap_i16 (i16_of_u16 (ar_width a) - 1)) else None)
      else None)"

text \<open>
  The pads of a field with the given bounds. The bounds come from \<open>boost_field_bounds\<close>, which
  only admits fields 40 cells wide in an arena 40 cells high, so no intermediate value of the
  16-bit arithmetic leaves its range and the integer operations below are exact.
\<close>

definition pad_table :: "boost_config \<Rightarrow> i16 \<Rightarrow> i16 \<Rightarrow> i16 \<Rightarrow> (position \<times> u32 \<times> u8) list" where
  "pad_table config left right height =
     (let field_width = right - left + 1;
          arena_bottom = height - 1;
          outer_size = 2;
          outer_x_inset = div_i16 field_width 10;
          outer_y_inset = div_i16 height 10;
          outer_left = left + outer_x_inset;
          outer_right = right - outer_x_inset - (outer_size - 1);
          outer_top = outer_y_inset;
          outer_bottom = arena_bottom - outer_y_inset - (outer_size - 1);
          center_left = div_i16 (left + right) 2;
          center_right = center_left + 1;
          center_top = div_i16 arena_bottom 2;
          center_bottom = center_top + 1;
          octagon_radius = div_i16 (field_width * 7) 40;
          octagon_bevel = div_i16 (field_width * 3) 40;
          inner_left = center_left - octagon_radius;
          inner_right = center_right + octagon_radius;
          inner_top = center_top - octagon_radius;
          inner_bottom = center_bottom + octagon_radius;
          inner_left_bevel = center_left - octagon_bevel;
          inner_right_bevel = center_right + octagon_bevel;
          inner_top_bevel = center_top - octagon_bevel;
          inner_bottom_bevel = center_bottom + octagon_bevel
      in [(\<lparr>px = outer_left, py = outer_top\<rparr>, bc_capacity_ms config, 2),
          (\<lparr>px = outer_left, py = outer_bottom\<rparr>, bc_capacity_ms config, 2),
          (\<lparr>px = outer_right, py = outer_top\<rparr>, bc_capacity_ms config, 2),
          (\<lparr>px = outer_right, py = outer_bottom\<rparr>, bc_capacity_ms config, 2),
          (\<lparr>px = inner_left_bevel, py = inner_top\<rparr>, bc_packet_charge_ms config, 1),
          (\<lparr>px = inner_right_bevel, py = inner_top\<rparr>, bc_packet_charge_ms config, 1),
          (\<lparr>px = inner_right, py = inner_top_bevel\<rparr>, bc_packet_charge_ms config, 1),
          (\<lparr>px = inner_right, py = inner_bottom_bevel\<rparr>, bc_packet_charge_ms config, 1),
          (\<lparr>px = inner_right_bevel, py = inner_bottom\<rparr>, bc_packet_charge_ms config, 1),
          (\<lparr>px = inner_left_bevel, py = inner_bottom\<rparr>, bc_packet_charge_ms config, 1),
          (\<lparr>px = inner_left, py = inner_bottom_bevel\<rparr>, bc_packet_charge_ms config, 1),
          (\<lparr>px = inner_left, py = inner_top_bevel\<rparr>, bc_packet_charge_ms config, 1)])"

definition boost_pad_layout :: "arena \<Rightarrow> boost_config \<Rightarrow> boost_pad list" where
  "boost_pad_layout a config =
     (if bc_unlimited config then []
      else case boost_field_bounds a (bc_spot_layout_version config) of
        None \<Rightarrow> []
      | Some (left, right) \<Rightarrow>
          map (\<lambda>(i, p, charge, size).
                 \<lparr>bp_id = of_nat i, bp_position = p, bp_charge_ms = charge, bp_size_cells = size,
                  bp_respawn_at_tick = None\<rparr>)
            (enumerate 0 (pad_table config left right (i16_of_u16 (ar_height a)))))"

section \<open>End zones, goals and walls\<close>

definition team_zone_bounds :: "arena \<Rightarrow> team_id \<Rightarrow> (i16 \<times> i16 \<times> i16 \<times> i16) option" where
  "team_zone_bounds a team =
     map_option (\<lambda>c.
        let depth = i16_of_u16 (end_zone_depth c); y_end = wrap_i16 (i16_of_u16 (ar_height a) - 1) in
        if team = 0 then (0, wrap_i16 (depth - 1), 0, y_end)
        else if team = 1 then
          (wrap_i16 (i16_of_u16 (ar_width a) - depth), wrap_i16 (i16_of_u16 (ar_width a) - 1), 0, y_end)
        else (0, wrap_i16 (depth - 1), 0, y_end))
       (ar_team_zone_config a)"

definition goal_bounds :: "arena \<Rightarrow> team_id \<Rightarrow> (i16 \<times> i16 \<times> i16) option" where
  "goal_bounds a team =
     map_option (\<lambda>c.
        let goal_center = div_i16 (i16_of_u16 (ar_height a)) 2;
            half_width = div_i16 (i16_of_u16 (goal_width c)) 2;
            y_start = wrap_i16 (goal_center - half_width);
            y_end = wrap_i16 (goal_center + half_width);
            depth = i16_of_u16 (end_zone_depth c);
            x_pos = (if team = 0 then wrap_i16 (depth - 1)
                     else if team = 1 then wrap_i16 (i16_of_u16 (ar_width a) - depth)
                     else wrap_i16 (depth - 1))
        in (x_pos, y_start, y_end))
       (ar_team_zone_config a)"

definition is_wall_position :: "arena \<Rightarrow> position \<Rightarrow> bool" where
  "is_wall_position a p =
     (case ar_team_zone_config a of
        None \<Rightarrow> False
      | Some c \<Rightarrow>
          let at_team_a_boundary = (px p = wrap_i16 (i16_of_u16 (end_zone_depth c) - 1));
              at_team_b_boundary =
                (px p = wrap_i16 (i16_of_u16 (ar_width a) - i16_of_u16 (end_zone_depth c)))
          in if at_team_a_boundary \<or> at_team_b_boundary then
               (case goal_bounds a (if at_team_a_boundary then 0 else 1) of
                  None \<Rightarrow> False
                | Some (_, y_start, y_end) \<Rightarrow> py p < y_start \<or> py p > y_end)
             else False)"

definition is_in_team_base :: "arena \<Rightarrow> position \<Rightarrow> team_id \<Rightarrow> bool" where
  "is_in_team_base a p team =
     (case team_zone_bounds a team of
        None \<Rightarrow> False
      | Some (x_start, x_end, y_start, y_end) \<Rightarrow>
          px p \<ge> x_start \<and> px p \<le> x_end \<and> py p \<ge> y_start \<and> py p \<le> y_end)"

definition is_in_enemy_base :: "arena \<Rightarrow> position \<Rightarrow> team_id \<Rightarrow> bool" where
  "is_in_enemy_base a p team =
     is_in_team_base a p (if team = 0 then 1 else if team = 1 then 0 else 1)"

section \<open>Food sampling\<close>

datatype food_axis_distribution = Uniform | CenterBiased

definition food_axis_distributions :: "game_type \<Rightarrow> food_axis_distribution \<times> food_axis_distribution" where
  "food_axis_distributions t = (if is_team_match t then (CenterBiased, Uniform) else (Uniform, Uniform))"

text \<open>
  \<open>axis_len\<close> (\<open>range\<close> in the source) is an integer of at most 17 bits, so its cast to f32 is exact; the product with
  \<open>k / 2 ^ 24\<close> rounds once. The float-to-integer cast saturates.
\<close>

definition uniform_offset :: "nat \<Rightarrow> int \<Rightarrow> i16" where
  "uniform_offset k axis_len =
     clamp_int (- 32768) 32767 ((sgn axis_len * int (f32_round (k * nat \<bar>axis_len\<bar>))) div 2 ^ 24)"

definition sample_food_axis ::
  "box_muller \<Rightarrow> i16 \<Rightarrow> i16 \<Rightarrow> food_axis_distribution \<Rightarrow> pseudo_random \<Rightarrow> (i16 \<times> pseudo_random) result"
where
  "sample_food_axis bm lo hi distribution r =
     (let axis_len = hi - lo + 1 in
      case distribution of
        Uniform \<Rightarrow> let (k, r) = next_f32 r in Inr (wrap_i16 (lo + uniform_offset k axis_len), r)
      | CenterBiased \<Rightarrow>
          let (v, r) = next_normal bm (lo + hi) axis_len r in
          try_then (f32_round_clamp_i16 lo hi v) (\<lambda>x. Inr (x, r)))"

definition sample_food_position ::
  "box_muller \<Rightarrow> game_type \<Rightarrow> arena \<Rightarrow> pseudo_random \<Rightarrow> (position \<times> pseudo_random) result" where
  "sample_food_position bm t a r =
     (let (x_min, x_max) = (case main_field_bounds a of
            Some b \<Rightarrow> b
          | None \<Rightarrow> (0, wrap_i16 (i16_of_u16 (ar_width a) - 1)));
          y_max = wrap_i16 (i16_of_u16 (ar_height a) - 1);
          (x_distribution, y_distribution) = food_axis_distributions t
      in try_then (sample_food_axis bm x_min x_max x_distribution r) (\<lambda>(x, r).
         try_then (sample_food_axis bm 0 y_max y_distribution r) (\<lambda>(y, r).
         Inr (\<lparr>px = x, py = y\<rparr>, r))))"

section \<open>Sampling stays inside the field\<close>

lemma uniform_offset_bounds:
  assumes "k < 2 ^ 24" and "0 < axis_len"
  shows "0 \<le> uniform_offset k axis_len" and "uniform_offset k axis_len < axis_len"
proof -
  have eq: "(sgn axis_len * int (f32_round (k * nat \<bar>axis_len\<bar>))) div 2 ^ 24
      = int (f32_round (k * nat axis_len) div 2 ^ 24)"
    using assms by (simp add: zdiv_int)
  have "int (f32_round (k * nat axis_len) div 2 ^ 24) < axis_len"
    using f32_round_fraction [of k "nat axis_len"] assms by linarith
  then show "0 \<le> uniform_offset k axis_len" and "uniform_offset k axis_len < axis_len"
    unfolding uniform_offset_def eq clamp_int_def using assms by auto
qed

lemma round_clamp_ok:
  "lo \<le> hi \<Longrightarrow> v \<noteq> NaN \<Longrightarrow> \<exists>x. f32_round_clamp_i16 lo hi v = Inr x \<and> lo \<le> x \<and> x \<le> hi"
  by (cases v) (auto simp: f32_round_clamp_i16_def clamp_int_def)

lemma sample_food_axis_ok:
  assumes "lo \<le> hi" and "in_i16 lo" and "in_i16 hi" and "box_muller_ok bm"
  shows "\<exists>x r'. sample_food_axis bm lo hi d r = Inr (x, r') \<and> lo \<le> x \<and> x \<le> hi"
proof (cases d)
  case Uniform
  obtain k r' where d: "next_f32 r = (k, r')" by fastforce
  have "k < 2 ^ 24"
    using next_f32_bound [of r] d by simp
  then have "0 \<le> uniform_offset k (hi - lo + 1)" and "uniform_offset k (hi - lo + 1) < hi - lo + 1"
    using uniform_offset_bounds [of k "hi - lo + 1"] assms(1) by simp_all
  then show ?thesis
    using assms(2,3) by (simp add: sample_food_axis_def Uniform d in_i16_def)
next
  case CenterBiased
  obtain v r' where d: "next_normal bm (lo + hi) (hi - lo + 1) r = (v, r')" by fastforce
  then have "v \<noteq> NaN"
    using next_normal_not_NaN [OF assms(4)] by (metis fst_conv)
  then show ?thesis
    using round_clamp_ok [OF assms(1)] by (fastforce simp: sample_food_axis_def CenterBiased d)
qed

text \<open>The shapes of arena that the code is written for: sides below \<open>2 ^ 15\<close>, room between the zones.\<close>

definition arena_dims_ok :: "arena \<Rightarrow> bool" where
  "arena_dims_ok a \<longleftrightarrow>
     0 < uint (ar_width a) \<and> uint (ar_width a) < 32768 \<and>
     0 < uint (ar_height a) \<and> uint (ar_height a) < 32768 \<and>
     (case ar_team_zone_config a of
        None \<Rightarrow> True
      | Some c \<Rightarrow> 0 < uint (end_zone_depth c) \<and> 2 * uint (end_zone_depth c) < uint (ar_width a) \<and>
          uint (goal_width c) \<le> uint (ar_height a))"

definition in_arena :: "arena \<Rightarrow> position \<Rightarrow> bool" where
  "in_arena a p \<longleftrightarrow> 0 \<le> px p \<and> px p < uint (ar_width a) \<and> 0 \<le> py p \<and> py p < uint (ar_height a)"

lemma main_field_bounds_eq:
  assumes "arena_dims_ok a" and "ar_team_zone_config a = Some c"
  shows "main_field_bounds a = Some (uint (end_zone_depth c), uint (ar_width a) - uint (end_zone_depth c) - 1)"
  using assms by (simp add: main_field_bounds_def arena_dims_ok_def i16_of_u16_small in_i16_def)

lemma team_zone_bounds_eq:
  assumes "arena_dims_ok a" and "ar_team_zone_config a = Some c"
  shows "team_zone_bounds a team = Some
    (if team = 1 then (uint (ar_width a) - uint (end_zone_depth c), uint (ar_width a) - 1, 0, uint (ar_height a) - 1)
     else (0, uint (end_zone_depth c) - 1, 0, uint (ar_height a) - 1))"
  using assms by (simp add: team_zone_bounds_def Let_def arena_dims_ok_def i16_of_u16_small in_i16_def)

lemma is_in_team_base_eq:
  assumes "arena_dims_ok a" and "ar_team_zone_config a = Some c" and "in_arena a p"
  shows "is_in_team_base a p team \<longleftrightarrow>
    (if team = 1 then uint (ar_width a) - uint (end_zone_depth c) \<le> px p else px p < uint (end_zone_depth c))"
  using assms(3) by (auto simp: is_in_team_base_def team_zone_bounds_eq [OF assms(1,2)] in_arena_def)

lemma is_in_team_base_no_zone: "ar_team_zone_config a = None \<Longrightarrow> \<not> is_in_team_base a p team"
  by (simp add: is_in_team_base_def team_zone_bounds_def)

lemma sample_food_position_ok:
  assumes "arena_dims_ok a" and "box_muller_ok bm"
  shows "\<exists>p r'. sample_food_position bm t a r = Inr (p, r') \<and> in_arena a p \<and>
    \<not> is_in_team_base a p 0 \<and> \<not> is_in_team_base a p 1"
proof -
  define x_min where "x_min = fst (case main_field_bounds a of Some b \<Rightarrow> b
      | None \<Rightarrow> (0, wrap_i16 (i16_of_u16 (ar_width a) - 1)))"
  define x_max where "x_max = snd (case main_field_bounds a of Some b \<Rightarrow> b
      | None \<Rightarrow> (0, wrap_i16 (i16_of_u16 (ar_width a) - 1)))"
  define y_max where "y_max = wrap_i16 (i16_of_u16 (ar_height a) - 1)"
  obtain dx dy where d: "food_axis_distributions t = (dx, dy)" by fastforce
  have y: "y_max = uint (ar_height a) - 1"
    using assms(1) by (simp add: y_max_def arena_dims_ok_def i16_of_u16_small in_i16_def)
  have x: "0 \<le> x_min \<and> x_min \<le> x_max \<and> x_max < uint (ar_width a)"
    and base: "x_min \<le> px p \<and> px p \<le> x_max \<and> in_arena a p \<Longrightarrow>
      \<not> is_in_team_base a p 0 \<and> \<not> is_in_team_base a p 1" for p
    using assms(1) main_field_bounds_eq [OF assms(1)]
    by (cases "ar_team_zone_config a";
        auto simp: x_min_def x_max_def arena_dims_ok_def i16_of_u16_small in_i16_def
          main_field_bounds_def is_in_team_base_no_zone is_in_team_base_eq [OF assms(1)])+
  have "in_i16 x_min" "in_i16 x_max" "in_i16 y_max" "0 \<le> y_max"
    using x y assms(1) by (simp_all add: in_i16_def arena_dims_ok_def)
  then obtain u r1 where u: "sample_food_axis bm x_min x_max dx r = Inr (u, r1)" "x_min \<le> u" "u \<le> x_max"
    using sample_food_axis_ok x assms(2) by blast
  obtain v r2 where v: "sample_food_axis bm 0 y_max dy r1 = Inr (v, r2)" "0 \<le> v" "v \<le> y_max"
    using sample_food_axis_ok [of 0 y_max bm dy r1] \<open>in_i16 y_max\<close> \<open>0 \<le> y_max\<close> assms(2)
    by (auto simp: in_i16_def)
  have "sample_food_position bm t a r = Inr (\<lparr>px = u, py = v\<rparr>, r2)"
    using u v d unfolding sample_food_position_def Let_def x_min_def x_max_def y_max_def
    by (simp add: case_prod_beta)
  moreover have "in_arena a \<lparr>px = u, py = v\<rparr>"
    using u v x y by (simp add: in_arena_def)
  ultimately show ?thesis
    using base [of "\<lparr>px = u, py = v\<rparr>"] u by auto
qed

section \<open>Walls and goals\<close>

lemma div_i16_2: "0 \<le> z \<Longrightarrow> z < 32768 \<Longrightarrow> div_i16 z 2 = z div 2"
proof -
  assume "0 \<le> z" "z < 32768"
  then have "in_i16 (z div 2)"
    unfolding in_i16_def by arith
  then show ?thesis
    using \<open>0 \<le> z\<close> by (cases "z = 0") (simp_all add: div_i16_def)
qed

lemma goal_bounds_eq:
  assumes "arena_dims_ok a" and "ar_team_zone_config a = Some c"
  shows "goal_bounds a team = Some
    (if team = 1 then uint (ar_width a) - uint (end_zone_depth c) else uint (end_zone_depth c) - 1,
     uint (ar_height a) div 2 - uint (goal_width c) div 2,
     uint (ar_height a) div 2 + uint (goal_width c) div 2)"
proof -
  have "uint (goal_width c) div 2 \<le> uint (ar_height a) div 2"
    using assms by (simp add: arena_dims_ok_def zdiv_mono1)
  moreover have "uint (ar_height a) div 2 + uint (goal_width c) div 2 < 32768"
    using assms by (simp add: arena_dims_ok_def) arith
  moreover have "0 \<le> uint (goal_width c) div 2"
    by simp
  ultimately have "in_i16 (uint (ar_height a) div 2 - uint (goal_width c) div 2)"
    and "in_i16 (uint (ar_height a) div 2 + uint (goal_width c) div 2)"
    unfolding in_i16_def by linarith+
  then show ?thesis
    using assms
    by (simp add: goal_bounds_def Let_def arena_dims_ok_def i16_of_u16_small div_i16_2)
      (simp add: in_i16_def)
qed

lemma is_wall_position_eq:
  assumes "arena_dims_ok a" and "ar_team_zone_config a = Some c"
  shows "is_wall_position a p \<longleftrightarrow>
    (px p = uint (end_zone_depth c) - 1 \<or> px p = uint (ar_width a) - uint (end_zone_depth c)) \<and>
    \<not> (uint (ar_height a) div 2 - uint (goal_width c) div 2 \<le> py p \<and>
       py p \<le> uint (ar_height a) div 2 + uint (goal_width c) div 2)"
proof -
  have "wrap_i16 (i16_of_u16 (end_zone_depth c) - 1) = uint (end_zone_depth c) - 1"
    and "wrap_i16 (i16_of_u16 (ar_width a) - i16_of_u16 (end_zone_depth c))
      = uint (ar_width a) - uint (end_zone_depth c)"
    using assms by (simp_all add: arena_dims_ok_def i16_of_u16_small in_i16_def)
  then show ?thesis
    using assms by (auto simp: is_wall_position_def Let_def goal_bounds_eq)
qed

text \<open>
  The three vertical bands of a team arena: a cell lies in the home of team 0, in the home of
  team 1 or on the main field, and in one of them only; walls stand in the homes.
\<close>

lemma arena_bands:
  assumes "arena_dims_ok a" and "ar_team_zone_config a = Some c" and "main_field_bounds a = Some (l, h)"
    and "in_arena a p"
  shows "is_in_team_base a p 0 \<longleftrightarrow> px p < l"
    and "is_in_team_base a p 1 \<longleftrightarrow> h < px p"
    and "l \<le> h"
    and "is_wall_position a p \<Longrightarrow> \<not> (l \<le> px p \<and> px p \<le> h)"
  using assms main_field_bounds_eq [OF assms(1,2)]
  by (auto simp: is_in_team_base_eq is_wall_position_eq arena_dims_ok_def)

section \<open>Pads\<close>

lemma mem_footprint_cells:
  "p \<in> set (footprint_cells pad) \<longleftrightarrow> in_i16 (px p) \<and> in_i16 (py p) \<and>
     (\<exists>i < unat (bp_size_cells pad). \<exists>j < unat (bp_size_cells pad).
        px p = px (bp_position pad) + int i \<and> py p = py (bp_position pad) + int j)"
  by (cases p) (fastforce simp: footprint_cells_def Let_def split: if_splits)

lemma offset_in_span:
  "(\<exists>i < n. x = b + int i) \<longleftrightarrow> b \<le> x \<and> x < b + int n"
  by (auto intro!: exI [of _ "nat (x - b)"])

lemma in_footprint_iff:
  assumes "in_i16 (px p)" and "in_i16 (py p)"
  shows "p \<in> set (footprint_cells pad) \<longleftrightarrow> pad_contains pad p"
proof -
  have "p \<in> set (footprint_cells pad) \<longleftrightarrow>
      (\<exists>i < unat (bp_size_cells pad). px p = px (bp_position pad) + int i) \<and>
      (\<exists>j < unat (bp_size_cells pad). py p = py (bp_position pad) + int j)"
    using assms by (auto simp: mem_footprint_cells)
  then show ?thesis
    unfolding offset_in_span pad_contains_def Let_def uint_nat by linarith
qed

text \<open>The pad table on each of the two fields that admit one.\<close>

lemma boost_field_bounds_cases:
  assumes "boost_field_bounds a v = Some (l, h)"
  shows "ar_height a = 40 \<and> (l, h) = (10, 49) \<and> ar_width a = 60 \<or>
    ar_height a = 40 \<and> (l, h) = (0, 39) \<and> ar_width a = 40"
  using assms
  by (auto simp: boost_field_bounds_def i16_of_u16_small in_i16_def split: if_splits option.splits)

definition canonical_pads :: "boost_config \<Rightarrow> i16 \<Rightarrow> (position \<times> u32 \<times> u8) list" where
  "canonical_pads c l =
     map (\<lambda>(x, y). (\<lparr>px = l + x, py = y\<rparr>, bc_capacity_ms c, 2)) [(4, 4), (4, 34), (34, 4), (34, 34)] @
     map (\<lambda>(x, y). (\<lparr>px = l + x, py = y\<rparr>, bc_packet_charge_ms c, 1))
       [(16, 12), (23, 12), (27, 16), (27, 23), (23, 27), (16, 27), (12, 23), (12, 16)]"

lemma pad_table_canonical:
  "pad_table c 10 49 40 = canonical_pads c 10" "pad_table c 0 39 40 = canonical_pads c 0"
  by code_simp+

text \<open>Cells of the canonical layout, relative to the left edge of the field.\<close>

definition layout_pads :: "boost_config \<Rightarrow> i16 \<Rightarrow> boost_pad list" where
  "layout_pads c l =
     map (\<lambda>(i, p, charge, size).
            \<lparr>bp_id = of_nat i, bp_position = p, bp_charge_ms = charge, bp_size_cells = size,
             bp_respawn_at_tick = None\<rparr>) (enumerate 0 (canonical_pads c l))"

lemma boost_pad_layout_cases:
  "boost_pad_layout a c = [] \<or>
   (\<exists>l. boost_field_bounds a (bc_spot_layout_version c) = Some (l, l + 39) \<and> l \<in> {0, 10} \<and>
        boost_pad_layout a c = layout_pads c l)"
proof (cases "boost_field_bounds a (bc_spot_layout_version c)")
  case (Some b)
  then obtain l h where b: "boost_field_bounds a (bc_spot_layout_version c) = Some (l, h)"
    by (cases b) simp
  have "i16_of_u16 (ar_height a) = 40 \<and> (l = 10 \<and> h = 49 \<or> l = 0 \<and> h = 39)"
    using boost_field_bounds_cases [OF b] by (auto simp: i16_of_u16_small)
  then show ?thesis
    using b by (auto simp: boost_pad_layout_def layout_pads_def pad_table_canonical)
qed (simp add: boost_pad_layout_def)

definition layout_cells :: "boost_config \<Rightarrow> i16 \<Rightarrow> position list" where
  "layout_cells c l = concat (map footprint_cells (layout_pads c l))"

lemma layout_cells_facts:
  "l \<in> {0, 10} \<Longrightarrow> distinct (map bp_id (layout_pads c l)) \<and> distinct (layout_cells c l) \<and>
     length (layout_pads c l) = 12 \<and> length (layout_cells c l) = 24 \<and>
     list_all (\<lambda>p. l \<le> px p \<and> px p \<le> l + 39 \<and> 0 \<le> py p \<and> py p \<le> 39) (layout_cells c l)"
proof -
  have "distinct (map bp_id (layout_pads c l)) \<and> distinct (layout_cells c l) \<and>
     length (layout_pads c l) = 12 \<and> length (layout_cells c l) = 24 \<and>
     list_all (\<lambda>p. l \<le> px p \<and> px p \<le> l + 39 \<and> 0 \<le> py p \<and> py p \<le> 39) (layout_cells c l)"
    if "l = 0" unfolding that by code_simp
  moreover have "distinct (map bp_id (layout_pads c l)) \<and> distinct (layout_cells c l) \<and>
     length (layout_pads c l) = 12 \<and> length (layout_cells c l) = 24 \<and>
     list_all (\<lambda>p. l \<le> px p \<and> px p \<le> l + 39 \<and> 0 \<le> py p \<and> py p \<le> 39) (layout_cells c l)"
    if "l = 10" unfolding that by code_simp
  moreover assume "l \<in> {0, 10}"
  ultimately show ?thesis by blast
qed

lemma pad_layout_facts:
  assumes "boost_field_bounds a (bc_spot_layout_version c) = Some (l, h)" and "\<not> bc_unlimited c"
  shows "length (boost_pad_layout a c) = 12 \<and> distinct (map bp_id (boost_pad_layout a c)) \<and>
    distinct (concat (map footprint_cells (boost_pad_layout a c))) \<and>
    (\<forall>p \<in> set (concat (map footprint_cells (boost_pad_layout a c))).
       l \<le> px p \<and> px p \<le> h \<and> 0 \<le> py p \<and> py p < uint (ar_height a))"
proof -
  have lh: "ar_height a = 40" "l \<in> {0, 10}" "h = l + 39"
    using boost_field_bounds_cases [OF assms(1)] by auto
  then have layout: "boost_pad_layout a c = layout_pads c l"
    using assms by (auto simp: boost_pad_layout_def layout_pads_def pad_table_canonical i16_of_u16_small)
  show ?thesis
    using layout_cells_facts [OF lh(2), of c] lh(1,3) unfolding layout layout_cells_def list_all_iff by fastforce
qed

end
