(* ===== verification/Command_Queue.thy ===== *)
theory Command_Queue
  imports Game_Config "HOL-Library.Multiset" "HOL-Library.Product_Lexorder"
begin

text \<open>
  Commands and the command queue of \<^verbatim>\<open>common/src/game_state.rs\<close>.

  A \<open>CommandId\<close> is ordered lexicographically by tick, user and sequence number, and a message by
  the identifier the server gave it, or else the client's. Rust's \<open>BinaryHeap<Reverse<_>>\<close> is
  modelled by a list kept sorted by identifier; the lemmas about the queue use it only through the
  contract of the locale \<open>min_heap\<close>. (A heap may break ties between equal identifiers in
  another order; the results below describe the popped messages up to such ties.)

  The queue holds speculative messages, which only a client has numbered, and authoritative ones.
  What it promises is stated on the multiset \<open>pending\<close> of messages that will still be executed:
  an authoritative message supersedes the speculative copy with its client identifier.
\<close>

section \<open>Identifiers and messages\<close>

datatype command_id =
  CommandId (cid_tick: u32) (cid_user_id: u32) (cid_sequence_number: u32)

text \<open>The tuple that \<open>Ord\<close> compares lexicographically.\<close>

definition command_id_key :: "command_id \<Rightarrow> u32 \<times> u32 \<times> u32" where
  "command_id_key i = (cid_tick i, cid_user_id i, cid_sequence_number i)"

instantiation command_id :: linorder
begin

definition less_eq_command_id :: "command_id \<Rightarrow> command_id \<Rightarrow> bool" where
  "less_eq_command_id a b \<longleftrightarrow> command_id_key a \<le> command_id_key b"

definition less_command_id :: "command_id \<Rightarrow> command_id \<Rightarrow> bool" where
  "less_command_id a b \<longleftrightarrow> command_id_key a < command_id_key b"

instance
  by standard
    (auto simp: less_eq_command_id_def less_command_id_def command_id_key_def command_id.expand)

end

datatype game_command =
    Turn u32 direction
  | ActivateBoost u32
  | UpdateStatus game_status
  | DeactivateBoost u32
  | PlayerActivity u32

record game_command_message =
  command_id_client :: command_id
  command_id_server :: "command_id option"
  command :: game_command

definition message_id :: "game_command_message \<Rightarrow> command_id" where
  "message_id m = (case command_id_server m of Some i \<Rightarrow> i | None \<Rightarrow> command_id_client m)"

definition message_tick :: "game_command_message \<Rightarrow> u32" where
  "message_tick m =
     (case command_id_server m of None \<Rightarrow> cid_tick (command_id_client m) | Some i \<Rightarrow> cid_tick i)"

text \<open>The snake a player command is for; \<open>UpdateStatus\<close> is a system command.\<close>

definition command_snake :: "game_command \<Rightarrow> u32 option" where
  "command_snake c =
     (case c of
        Turn s _ \<Rightarrow> Some s
      | ActivateBoost s \<Rightarrow> Some s
      | DeactivateBoost s \<Rightarrow> Some s
      | PlayerActivity s \<Rightarrow> Some s
      | UpdateStatus _ \<Rightarrow> None)"

section \<open>The heap\<close>

type_synonym message_heap = "game_command_message list"

definition heap_push :: "game_command_message \<Rightarrow> message_heap \<Rightarrow> message_heap" where
  "heap_push m h = insort_key message_id m h"

definition heap_pop :: "message_heap \<Rightarrow> (game_command_message \<times> message_heap) option" where
  "heap_pop h = (case h of [] \<Rightarrow> None | m # h \<Rightarrow> Some (m, h))"

definition heap_peek :: "message_heap \<Rightarrow> game_command_message option" where
  "heap_peek h = (case h of [] \<Rightarrow> None | m # _ \<Rightarrow> Some m)"

definition heap_from :: "game_command_message list \<Rightarrow> message_heap" where
  "heap_from ms = sort_key message_id ms"

definition heap_wf :: "message_heap \<Rightarrow> bool" where
  "heap_wf h \<longleftrightarrow> sorted (map message_id h)"

section \<open>The queue\<close>

record command_queue =
  cq_queue :: message_heap
  active_ids :: "command_id set"
  tombstone_ids :: "command_id set"

definition command_queue_new :: command_queue where
  "command_queue_new = \<lparr>cq_queue = [], active_ids = {}, tombstone_ids = {}\<rparr>"

definition has_commands_for_tick :: "command_queue \<Rightarrow> u32 \<Rightarrow> bool" where
  "has_commands_for_tick q t =
     (case heap_peek (cq_queue q) of Some m \<Rightarrow> message_tick m \<le> t | None \<Rightarrow> False)"

definition push :: "game_command_message \<Rightarrow> command_queue \<Rightarrow> command_queue" where
  "push m q =
     (let q = q\<lparr>cq_queue := heap_push m (cq_queue q)\<rparr> in
      if command_id_server m = None then
        q\<lparr>active_ids := insert (command_id_client m) (active_ids q)\<rparr>
      else if command_id_client m \<in> active_ids q then
        q\<lparr>tombstone_ids := insert (command_id_client m) (tombstone_ids q)\<rparr>
      else q)"

function pop :: "u32 \<Rightarrow> command_queue \<Rightarrow> command_queue \<times> game_command_message option" where
  "pop max_tick q =
     (if (case heap_peek (cq_queue q) of Some m \<Rightarrow> message_tick m > max_tick | None \<Rightarrow> False)
      then (q, None)
      else case heap_pop (cq_queue q) of
        None \<Rightarrow> (q, None)
      | Some (m, h) \<Rightarrow>
          let q = q\<lparr>cq_queue := h\<rparr> in
          if command_id_server m = None then
            (let tombstoned = command_id_client m \<in> tombstone_ids q;
                 q = q\<lparr>active_ids := active_ids q - {command_id_client m},
                       tombstone_ids := tombstone_ids q - {command_id_client m}\<rparr>
             in if tombstoned then pop max_tick q else (q, Some m))
          else (q, Some m))"
  by pat_completeness auto
termination
  by (relation "measure (\<lambda>(_, q). length (cq_queue q))") (auto simp: heap_pop_def split: list.splits)

declare pop.simps [simp del]

definition rebuild_indexes :: "command_queue \<Rightarrow> command_queue" where
  "rebuild_indexes q =
     (let active = command_id_client ` set (filter (\<lambda>m. command_id_server m = None) (cq_queue q));
          authoritative_client_ids =
            command_id_client ` set (filter (\<lambda>m. command_id_server m \<noteq> None) (cq_queue q))
      in q\<lparr>active_ids := active, tombstone_ids := active \<inter> authoritative_client_ids\<rparr>)"

definition discard_player_commands_for_snake :: "u32 \<Rightarrow> command_queue \<Rightarrow> command_queue" where
  "discard_player_commands_for_snake s q =
     rebuild_indexes (q\<lparr>cq_queue :=
       heap_from (filter (\<lambda>m. command_snake (command m) \<noteq> Some s) (cq_queue q))\<rparr>)"

definition discard_speculative_command :: "command_id \<Rightarrow> command_queue \<Rightarrow> command_queue" where
  "discard_speculative_command c q =
     rebuild_indexes (q\<lparr>cq_queue :=
       heap_from (filter (\<lambda>m. command_id_server m \<noteq> None \<or> command_id_client m \<noteq> c) (cq_queue q))\<rparr>)"

definition authoritative_commands :: "command_queue \<Rightarrow> game_command_message list" where
  "authoritative_commands q =
     sort_key message_id
       (filter (\<lambda>m. command_id_server m \<noteq> None \<and> command_snake (command m) \<noteq> None) (cq_queue q))"

section \<open>The heap contract\<close>

locale min_heap =
  fixes key :: "'m \<Rightarrow> 'k::linorder"
    and wf :: "'h \<Rightarrow> bool"
    and elems :: "'h \<Rightarrow> 'm multiset"
    and add :: "'m \<Rightarrow> 'h \<Rightarrow> 'h"
    and pull :: "'h \<Rightarrow> ('m \<times> 'h) option"
    and of_elems :: "'m list \<Rightarrow> 'h"
  assumes add_wf: "wf h \<Longrightarrow> wf (add m h)"
    and add_elems: "elems (add m h) = add_mset m (elems h)"
    and of_elems_wf: "wf (of_elems ms)"
    and of_elems_elems: "elems (of_elems ms) = mset ms"
    and pull_None: "pull h = None \<longleftrightarrow> elems h = {#}"
    and pull_wf: "wf h \<Longrightarrow> pull h = Some (m, h') \<Longrightarrow> wf h'"
    and pull_elems: "pull h = Some (m, h') \<Longrightarrow> elems h = add_mset m (elems h')"
    and pull_least: "wf h \<Longrightarrow> pull h = Some (m, h') \<Longrightarrow> m' \<in># elems h \<Longrightarrow> key m \<le> key m'"
begin

lemma pull_some: "elems h \<noteq> {#} \<Longrightarrow> \<exists>m h'. pull h = Some (m, h')"
  using pull_None by (metis option.exhaust surj_pair)

lemma pull_size: "pull h = Some (m, h') \<Longrightarrow> size (elems h') < size (elems h)"
  using pull_elems by fastforce

lemma pull_rest: "wf h \<Longrightarrow> pull h = Some (m, h') \<Longrightarrow> pull h' = Some (m', h'') \<Longrightarrow> key m \<le> key m'"
  using pull_elems pull_least by (metis union_single_eq_member add_mset_commute)

end

interpretation heap: min_heap message_id heap_wf mset heap_push heap_pop heap_from
  by unfold_locales
    (auto simp: heap_wf_def heap_push_def heap_pop_def heap_from_def sorted_insort_key split: list.splits)

section \<open>What the queue promises\<close>

abbreviation speculative :: "game_command_message \<Rightarrow> bool" where
  "speculative m \<equiv> command_id_server m = None"

definition superseded :: "command_queue \<Rightarrow> game_command_message \<Rightarrow> bool" where
  "superseded q m \<longleftrightarrow> speculative m \<and> command_id_client m \<in> tombstone_ids q"

definition pending :: "command_queue \<Rightarrow> game_command_message multiset" where
  "pending q = filter_mset (\<lambda>m. \<not> superseded q m) (mset (cq_queue q))"

definition speculative_ids :: "command_queue \<Rightarrow> command_id multiset" where
  "speculative_ids q = image_mset command_id_client (filter_mset speculative (mset (cq_queue q)))"

text \<open>
  The index sets describe the heap: \<open>active_ids\<close> are the client identifiers of the speculative
  messages, each of which is queued once, and a tombstone marks one of them.
\<close>

definition queue_wf :: "command_queue \<Rightarrow> bool" where
  "queue_wf q \<longleftrightarrow> heap_wf (cq_queue q) \<and> active_ids q = set_mset (speculative_ids q) \<and>
     tombstone_ids q \<subseteq> active_ids q \<and> (\<forall>c. count (speculative_ids q) c \<le> 1)"

definition supersede :: "command_id \<Rightarrow> game_command_message multiset \<Rightarrow> game_command_message multiset" where
  "supersede c M = filter_mset (\<lambda>m. \<not> (speculative m \<and> command_id_client m = c)) M"

lemma queue_wf_new: "queue_wf command_queue_new"
  by (simp add: queue_wf_def command_queue_new_def heap_wf_def speculative_ids_def)

lemma pending_new: "pending command_queue_new = {#}"
  by (simp add: pending_def command_queue_new_def)

lemma message_tick_mono: "message_id m \<le> message_id m' \<Longrightarrow> message_tick m \<le> message_tick m'"
  by (auto simp: message_id_def message_tick_def less_eq_command_id_def command_id_key_def split: option.splits)

lemma heap_peek_pop: "heap_peek h = map_option fst (heap_pop h)"
  by (simp add: heap_peek_def heap_pop_def split: list.splits)

lemma push_fields:
  "cq_queue (push m q) = heap_push m (cq_queue q)"
  "active_ids (push m q) =
     (if speculative m then insert (command_id_client m) (active_ids q) else active_ids q)"
  "tombstone_ids (push m q) =
     (if \<not> speculative m \<and> command_id_client m \<in> active_ids q
      then insert (command_id_client m) (tombstone_ids q) else tombstone_ids q)"
  by (simp_all add: push_def Let_def)

text \<open>One authoritative push removes the speculative copy and adds the message.\<close>

lemma push_wf:
  assumes "queue_wf q" and "speculative m \<Longrightarrow> command_id_client m \<notin> active_ids q"
  shows "queue_wf (push m q)"
proof (cases "speculative m")
  case True
  have eq: "speculative_ids (push m q) = add_mset (command_id_client m) (speculative_ids q)"
    using True by (simp add: push_fields speculative_ids_def heap.add_elems)
  have "count (speculative_ids q) (command_id_client m) = 0"
    using assms True by (simp add: queue_wf_def not_in_iff)
  then show ?thesis
    using assms(1) True unfolding queue_wf_def eq by (auto simp: push_fields heap.add_wf)
next
  case False
  then have "speculative_ids (push m q) = speculative_ids q"
    by (simp add: push_fields speculative_ids_def heap.add_elems)
  then show ?thesis
    using assms(1) False unfolding queue_wf_def by (auto simp: push_fields heap.add_wf)
qed

lemma speculative_idsI:
  "m \<in># mset (cq_queue q) \<Longrightarrow> speculative m \<Longrightarrow> command_id_client m \<in># speculative_ids q"
  by (simp add: speculative_ids_def)

lemma push_pending:
  assumes "queue_wf q" and "speculative m \<Longrightarrow> command_id_client m \<notin> active_ids q"
  shows "pending (push m q) = add_mset m
    (if speculative m then pending q else supersede (command_id_client m) (pending q))"
proof (cases "speculative m")
  case True
  then have "command_id_client m \<notin> tombstone_ids q"
    using assms by (auto simp: queue_wf_def)
  then show ?thesis
    using True by (simp add: pending_def push_fields heap.add_elems superseded_def)
next
  case False
  show ?thesis
  proof (cases "command_id_client m \<in> active_ids q")
    case True
    then show ?thesis
      using False unfolding pending_def supersede_def push_fields superseded_def Let_def
      by (auto simp: heap.add_elems filter_filter_mset intro!: filter_mset_cong)
  next
    case inactive: False
    have "\<not> (speculative m' \<and> command_id_client m' = command_id_client m)"
      if "m' \<in># mset (cq_queue q)" for m'
      using that inactive assms(1) speculative_idsI unfolding queue_wf_def by metis
    then have "supersede (command_id_client m) (pending q) = pending q"
      unfolding supersede_def pending_def by (simp add: filter_filter_mset) (rule filter_mset_cong, auto)
    then show ?thesis
      using False inactive by (simp add: pending_def push_fields heap.add_elems superseded_def)
  qed
qed

text \<open>The queue after its head \<open>m\<close> was taken off, with heap \<open>h\<close> left.\<close>

definition without_head :: "game_command_message \<Rightarrow> message_heap \<Rightarrow> command_queue \<Rightarrow> command_queue" where
  "without_head m h q =
     (if speculative m
      then q\<lparr>cq_queue := h, active_ids := active_ids q - {command_id_client m},
             tombstone_ids := tombstone_ids q - {command_id_client m}\<rparr>
      else q\<lparr>cq_queue := h\<rparr>)"

lemma pop_unfold:
  "pop t q =
     (case heap_pop (cq_queue q) of
        None \<Rightarrow> (q, None)
      | Some (m, h) \<Rightarrow>
          if t < message_tick m then (q, None)
          else if superseded q m then pop t (without_head m h q)
          else (without_head m h q, Some m))"
  unfolding pop.simps [of t q]
  by (simp add: heap_peek_pop without_head_def superseded_def Let_def
      del: not_None_eq split: option.split)

lemma without_head_fields:
  "cq_queue (without_head m h q) = h"
  "active_ids (without_head m h q) =
     (if speculative m then active_ids q - {command_id_client m} else active_ids q)"
  "tombstone_ids (without_head m h q) =
     (if speculative m then tombstone_ids q - {command_id_client m} else tombstone_ids q)"
  by (simp_all add: without_head_def)

lemma without_head_refines:
  assumes "queue_wf q" and "heap_pop (cq_queue q) = Some (m, h)"
  shows "queue_wf (without_head m h q)"
    and "pending q = (if superseded q m then pending (without_head m h q)
                      else add_mset m (pending (without_head m h q)))"
proof -
  let ?q = "without_head m h q"
  have elems: "mset (cq_queue q) = add_mset m (mset h)" and "heap_wf h"
    using assms heap.pull_elems heap.pull_wf by (auto simp: queue_wf_def)
  have ids: "speculative_ids q =
      (if speculative m then add_mset (command_id_client m) (speculative_ids ?q) else speculative_ids ?q)"
    by (simp add: speculative_ids_def elems without_head_fields)
  moreover have once: "count (speculative_ids q) c \<le> 1" for c
    using assms(1) by (simp add: queue_wf_def)
  ultimately have fresh: "speculative m \<Longrightarrow> command_id_client m \<notin># speculative_ids ?q"
    using once [of "command_id_client m"] by (auto simp: not_in_iff)
  have "count (speculative_ids ?q) c \<le> 1" for c
    using once [of c] ids by (auto split: if_splits)
  moreover have "active_ids ?q = set_mset (speculative_ids ?q)"
  proof (cases "speculative m")
    case True
    then have "active_ids q = insert (command_id_client m) (set_mset (speculative_ids ?q))"
      using assms(1) ids by (simp add: queue_wf_def)
    then show ?thesis
      using fresh [OF True] True by (auto simp: without_head_fields(2))
  next
    case False
    then show ?thesis
      using assms(1) ids by (simp add: queue_wf_def without_head_fields(2) del: not_None_eq)
  qed
  moreover have "tombstone_ids ?q \<subseteq> active_ids ?q"
    using assms(1) by (auto simp: queue_wf_def without_head_fields)
  ultimately show "queue_wf ?q"
    using \<open>heap_wf h\<close> unfolding queue_wf_def without_head_fields(1) by blast
  have "superseded q m' \<longleftrightarrow> superseded ?q m'" if "m' \<in># mset h" for m'
    using that fresh speculative_idsI [of m' ?q]
    by (auto simp: superseded_def without_head_fields split: if_splits)
  then have "filter_mset (\<lambda>m. \<not> superseded q m) (mset h) = pending ?q"
    unfolding pending_def without_head_fields(1) by (intro filter_mset_cong) simp_all
  then show "pending q = (if superseded q m then pending ?q else add_mset m (pending ?q))"
    by (simp add: pending_def elems)
qed

definition pop_result_ok ::
  "u32 \<Rightarrow> command_queue \<Rightarrow> command_queue \<times> game_command_message option \<Rightarrow> bool" where
  "pop_result_ok t q res \<longleftrightarrow> queue_wf (fst res) \<and> (case snd res of
      None \<Rightarrow> pending (fst res) = pending q \<and> (\<forall>m \<in># pending q. t < message_tick m)
    | Some m \<Rightarrow> pending q = add_mset m (pending (fst res)) \<and> message_tick m \<le> t \<and>
        (\<forall>m' \<in># pending q. message_id m \<le> message_id m'))"

lemma pop_result_ok: "queue_wf q \<Longrightarrow> pop_result_ok t q (pop t q)"
proof (induction t q rule: pop.induct)
  case (1 t q)
  show ?case
  proof (cases "heap_pop (cq_queue q)")
    case None
    then have "pending q = {#}"
      using heap.pull_None by (simp add: pending_def)
    then show ?thesis
      using None "1.prems" by (simp add: pop_unfold [of t q] pop_result_ok_def)
  next
    case (Some mh)
    obtain m h where mh: "heap_pop (cq_queue q) = Some (m, h)"
      using Some by (cases mh) simp
    have least: "message_id m \<le> message_id m'" if "m' \<in># pending q" for m'
      using that heap.pull_least [OF _ mh] "1.prems" by (simp add: queue_wf_def pending_def)
    note refines = without_head_refines [OF "1.prems" mh]
    show ?thesis
    proof (cases "t < message_tick m")
      case True
      then have "\<forall>m' \<in># pending q. t < message_tick m'"
        using least message_tick_mono less_le_trans by blast
      then show ?thesis
        using mh True "1.prems" by (simp add: pop_unfold [of t q] pop_result_ok_def)
    next
      case due: False
      show ?thesis
      proof (cases "superseded q m")
        case True
        have "pop_result_ok t (without_head m h q) (pop t (without_head m h q))"
          using "1.IH" [of "(m, h)" m h] mh due True refines(1)
          by (simp add: heap_peek_pop superseded_def without_head_def)
        moreover have "pending q = pending (without_head m h q)"
          using True refines(2) by simp
        ultimately have "pop_result_ok t q (pop t (without_head m h q))"
          by (simp only: pop_result_ok_def)
        then show ?thesis
          using mh due True by (simp add: pop_unfold [of t q])
      next
        case False
        then show ?thesis
          using mh due refines least by (simp add: pop_unfold [of t q] pop_result_ok_def)
      qed
    qed
  qed
qed

lemmas pop_ok = pop_result_ok [unfolded pop_result_ok_def]

lemma pop_None_iff: "pop t q = (q', r) \<Longrightarrow> queue_wf q \<Longrightarrow> r = None \<longleftrightarrow> (\<forall>m \<in># pending q. t < message_tick m)"
  using pop_ok [of q t] by (cases r) (auto simp: not_less)

lemma pop_shrinks: "queue_wf q \<Longrightarrow> pop t q = (q', Some m) \<Longrightarrow> size (pending q') < size (pending q)"
  using pop_ok [of q t] by simp

subsection \<open>Draining the queue\<close>

text \<open>
  The loop that every tick runs, \<open>while let Some(m) = queue.pop(tick)\<close>, and the messages it
  executes. A queue is shorter after a pop that returned a message, so the loop ends.
\<close>

lemma pop_length: "pop t q = (q', Some m) \<Longrightarrow> length (cq_queue q') < length (cq_queue q)"
proof (induction t q rule: pop.induct)
  case (1 t q)
  obtain m' h where mh: "heap_pop (cq_queue q) = Some (m', h)"
    using "1.prems" by (auto simp: pop_unfold [of t q] split: option.splits)
  have less: "length (cq_queue (without_head m' h q)) < length (cq_queue q)"
    using heap.pull_size [OF mh] by (simp add: without_head_fields)
  show ?case
  proof (cases "superseded q m' \<and> \<not> t < message_tick m'")
    case True
    then have "length (cq_queue q') < length (cq_queue (without_head m' h q))"
      using "1.IH" [of "(m', h)" m' h] mh "1.prems"
      by (simp add: pop_unfold [of t q] heap_peek_pop superseded_def without_head_def)
    then show ?thesis using less by simp
  next
    case False
    then show ?thesis
      using "1.prems" mh less by (auto simp: pop_unfold [of t q] split: if_splits)
  qed
qed

function drain :: "u32 \<Rightarrow> command_queue \<Rightarrow> game_command_message list \<times> command_queue" where
  "drain t q =
     (case pop t q of
        (q, None) \<Rightarrow> ([], q)
      | (q, Some m) \<Rightarrow> let (ms, q) = drain t q in (m # ms, q))"
  by pat_completeness auto
termination
  by (relation "measure (\<lambda>(_, q). length (cq_queue q))") (auto dest: pop_length [OF sym])

declare drain.simps [simp del]

lemma filter_mset_all: "(\<forall>m \<in># M. P m) \<Longrightarrow> filter_mset P M = M"
  by (induction M) auto

lemma filter_mset_none: "(\<forall>m \<in># M. \<not> P m) \<Longrightarrow> filter_mset P M = {#}"
  by (induction M) auto

lemma drain_spec:
  assumes "queue_wf q"
  shows "queue_wf (snd (drain t q)) \<and>
    mset (fst (drain t q)) = filter_mset (\<lambda>m. message_tick m \<le> t) (pending q) \<and>
    pending (snd (drain t q)) = filter_mset (\<lambda>m. t < message_tick m) (pending q) \<and>
    sorted (map message_id (fst (drain t q)))"
  using assms
proof (induction t q rule: drain.induct)
  case (1 t q)
  obtain q' r where pop: "pop t q = (q', r)" by fastforce
  note ok = pop_ok [OF "1.prems", of t, unfolded pop fst_conv snd_conv]
  show ?case
  proof (cases r)
    case None
    then show ?thesis
      using ok pop by (simp add: drain.simps [of t q] filter_mset_all filter_mset_none not_le)
  next
    case (Some m)
    obtain ms q'' where d: "drain t q' = (ms, q'')" by fastforce
    have IH: "queue_wf q''" "mset ms = filter_mset (\<lambda>m. message_tick m \<le> t) (pending q')"
      "pending q'' = filter_mset (\<lambda>m. t < message_tick m) (pending q')" "sorted (map message_id ms)"
      using "1.IH" [OF pop [symmetric]] ok Some d by simp_all
    moreover have "set ms = set_mset (filter_mset (\<lambda>m. message_tick m \<le> t) (pending q'))"
      unfolding IH(2) [symmetric] by simp
    then have "\<forall>m' \<in> set ms. message_id m \<le> message_id m'"
      using ok Some by simp
    ultimately show ?thesis
      using ok Some pop d by (simp add: drain.simps [of t q] not_less)
  qed
qed

subsection \<open>Discarding commands\<close>

lemma rebuild_retained_wf:
  assumes "queue_wf q"
  shows "queue_wf (rebuild_indexes (q\<lparr>cq_queue := heap_from (filter P (cq_queue q))\<rparr>))"
proof -
  let ?q = "rebuild_indexes (q\<lparr>cq_queue := heap_from (filter P (cq_queue q))\<rparr>)"
  have heap: "cq_queue ?q = heap_from (filter P (cq_queue q))"
    by (simp add: rebuild_indexes_def)
  have "speculative_ids ?q \<subseteq># speculative_ids q"
    unfolding speculative_ids_def heap heap.of_elems_elems mset_filter
    by (intro image_mset_subseteq_mono multiset_filter_mono multiset_filter_subset)
  then have "count (speculative_ids ?q) c \<le> 1" for c
    using assms le_trans [OF mset_subset_eq_count] by (fastforce simp: queue_wf_def)
  moreover have "active_ids ?q = set_mset (speculative_ids ?q)" and "tombstone_ids ?q \<subseteq> active_ids ?q"
    by (auto simp: rebuild_indexes_def Let_def speculative_ids_def heap_from_def)
  ultimately show ?thesis
    by (simp add: queue_wf_def heap heap.of_elems_wf)
qed

lemma discard_wf:
  "queue_wf q \<Longrightarrow> queue_wf (discard_player_commands_for_snake s q)"
  "queue_wf q \<Longrightarrow> queue_wf (discard_speculative_command c q)"
  unfolding discard_player_commands_for_snake_def discard_speculative_command_def
  by (rule rebuild_retained_wf, assumption)+

lemma discard_player_commands_gone:
  "m \<in># pending (discard_player_commands_for_snake s q) \<Longrightarrow> command_snake (command m) \<noteq> Some s"
  by (auto simp: pending_def discard_player_commands_for_snake_def rebuild_indexes_def heap_from_def)

lemma discard_speculative_gone:
  "m \<in># pending (discard_speculative_command c q) \<Longrightarrow> \<not> (speculative m \<and> command_id_client m = c)"
  by (auto simp: pending_def discard_speculative_command_def rebuild_indexes_def heap_from_def)

end
