(* ===== verification/Sorted_Vec.thy ===== *)
theory Sorted_Vec
  imports Prelude
begin

text \<open>
  Sorted vectors, as \<^verbatim>\<open>common/src/game_state.rs\<close> keeps the users kicked for inactivity: Rust's
  \<open>binary_search\<close> (a branchless bisection) and insertion at the index of a failed search, with
  their agreement with membership and sorted insertion.
\<close>

section \<open>Definitions\<close>

function search_base :: "'a::linorder list \<Rightarrow> 'a \<Rightarrow> nat \<Rightarrow> nat \<Rightarrow> nat" where
  "search_base xs k base width =
     (if width \<le> 1 then base
      else let half = width div 2; mid = base + half
           in search_base xs k (if xs ! mid > k then base else mid) (width - half))"
  by pat_completeness auto
termination
  by (relation "measure (\<lambda>(_, _, _, width). width)") auto

declare search_base.simps [simp del]

text \<open>The result is \<open>Inr\<close> of the index found or \<open>Inl\<close> of the insertion point.\<close>

definition binary_search :: "'a::linorder list \<Rightarrow> 'a \<Rightarrow> nat + nat" where
  "binary_search xs k =
     (if xs = [] then Inl 0
      else let base = search_base xs k 0 (length xs)
           in if xs ! base = k then Inr base
              else Inl (base + (if xs ! base < k then 1 else 0)))"

definition vec_insert :: "nat \<Rightarrow> 'a \<Rightarrow> 'a list \<Rightarrow> 'a list" where
  "vec_insert i x xs = take i xs @ x # drop i xs"

definition insert_sorted :: "'a::linorder \<Rightarrow> 'a list \<Rightarrow> 'a list" where
  "insert_sorted k xs = (case binary_search xs k of Inr _ \<Rightarrow> xs | Inl i \<Rightarrow> vec_insert i k xs)"

section \<open>Correctness\<close>

lemma search_base_inv:
  assumes "sorted xs" and "0 < width" and "base + width \<le> length xs"
    and "base = 0 \<or> xs ! base \<le> k" and "base + width = length xs \<or> k < xs ! (base + width)"
  shows "let b = search_base xs k base width in
    b < length xs \<and> (b = 0 \<or> xs ! b \<le> k) \<and> (Suc b = length xs \<or> k < xs ! Suc b)"
  using assms
proof (induction xs k base width rule: search_base.induct)
  case (1 xs k base width)
  show ?case
  proof (cases "width \<le> 1")
    case True
    then have "width = 1" using "1.prems" by simp
    moreover have "search_base xs k base width = base"
      using True by (simp add: search_base.simps [of xs k base width])
    ultimately show ?thesis
      using "1.prems" by auto
  next
    case False
    let ?half = "width div 2"
    have half: "?half < width" "0 < ?half" "base + ?half \<le> base + (width - ?half)"
      using False by auto
    show ?thesis
    proof (cases "xs ! (base + ?half) > k")
      case True
      have "base + (width - ?half) = length xs \<or> k < xs ! (base + (width - ?half))"
        using True half sorted_nth_mono [OF "1.prems"(1), of "base + ?half" "base + (width - ?half)"]
          "1.prems"(3) less_le_trans [of k] by fastforce
      moreover have "search_base xs k base width = search_base xs k base (width - ?half)"
        using True False by (simp add: search_base.simps [of xs k base width] Let_def)
      ultimately show ?thesis
        using "1.IH" [OF False refl refl] "1.prems" half True by simp
    next
      case above: False
      moreover have "search_base xs k base width = search_base xs k (base + ?half) (width - ?half)"
        using above False by (simp add: search_base.simps [of xs k base width] Let_def)
      ultimately show ?thesis
        using "1.IH" [OF False refl refl] "1.prems" half by simp
    qed
  qed
qed

lemma search_base_split:
  fixes xs :: "'a::linorder list" and k :: 'a
  assumes "sorted xs" and "xs \<noteq> []"
  defines "b \<equiv> search_base xs k 0 (length xs)"
  shows "b < length xs" and "j < b \<Longrightarrow> xs ! j \<le> k" and "b < j \<Longrightarrow> j < length xs \<Longrightarrow> k < xs ! j"
proof -
  have inv: "b < length xs \<and> (b = 0 \<or> xs ! b \<le> k) \<and> (Suc b = length xs \<or> k < xs ! Suc b)"
    using search_base_inv [of xs "length xs" 0 k] assms(1,2) by (simp add: b_def Let_def)
  then show "b < length xs" by simp
  show "j < b \<Longrightarrow> xs ! j \<le> k"
    using inv sorted_nth_mono [OF assms(1), of j b] by fastforce
  show "b < j \<Longrightarrow> j < length xs \<Longrightarrow> k < xs ! j"
    using inv sorted_nth_mono [OF assms(1), of "Suc b" j] by (metis Suc_leI less_le_trans not_less_eq)
qed

text \<open>On a strictly sorted vector the search finds exactly the members.\<close>

lemma binary_search_found:
  assumes "sorted_wrt (<) xs"
  shows "(\<exists>i. binary_search xs k = Inr i) \<longleftrightarrow> k \<in> set xs"
proof (cases "xs = []")
  case False
  have s: "sorted xs"
    using assms by (simp add: strict_sorted_iff)
  let ?b = "search_base xs k 0 (length xs)"
  have "xs ! ?b = k" if k: "k \<in> set xs"
  proof -
    obtain j where j: "j < length xs" "xs ! j = k"
      using k by (auto simp: in_set_conv_nth)
    have "\<not> ?b < j"
      using search_base_split(3) [OF s False, of k j] j by auto
    moreover have "\<not> j < ?b"
      using search_base_inv [of xs "length xs" 0 k] s False j
        sorted_wrt_nth_less [OF assms, of j ?b] by (auto simp: Let_def)
    ultimately show ?thesis using j by (metis linorder_neqE_nat)
  qed
  moreover have "?b < length xs"
    using search_base_split(1) [OF s False] .
  then have "xs ! ?b \<in> set xs"
    by (rule nth_mem)
  ultimately have "xs ! ?b = k \<longleftrightarrow> k \<in> set xs"
    by metis
  then show ?thesis
    using False by (simp add: binary_search_def Let_def)
qed (simp add: binary_search_def)

lemma insert_sorted_set:
  assumes "sorted_wrt (<) xs"
  shows "set (insert_sorted k xs) = insert k (set xs)"
proof (cases "binary_search xs k")
  case (Inl i)
  then show ?thesis
    by (simp add: insert_sorted_def vec_insert_def) (metis append_take_drop_id set_append)
next
  case (Inr i)
  then show ?thesis
    using binary_search_found [OF assms, of k] by (auto simp: insert_sorted_def)
qed

lemma insert_sorted_sorted:
  assumes "sorted_wrt (<) xs"
  shows "sorted_wrt (<) (insert_sorted k xs)"
proof (cases "binary_search xs k")
  case (Inl i)
  have k: "k \<notin> set xs"
    using binary_search_found [OF assms, of k] Inl by simp
  have "\<forall>x \<in> set (take i xs). x < k" and "\<forall>x \<in> set (drop i xs). k < x"
  proof -
    have s: "sorted xs"
      using assms by (simp add: strict_sorted_iff)
    have lt: "xs ! j < k" if "j < i" "j < length xs" for j
    proof -
      have "xs \<noteq> []" using that by auto
      then have "xs ! j \<le> k"
        using that Inl search_base_split(2) [OF s, of j k]
        by (cases "j < search_base xs k 0 (length xs)")
          (auto simp: binary_search_def Let_def less_Suc_eq split: if_splits)
      moreover have "xs ! j \<noteq> k" using k that by auto
      ultimately show ?thesis by simp
    qed
    have gt: "k < xs ! j" if "i \<le> j" "j < length xs" for j
    proof -
      have "xs \<noteq> []" using that by auto
      then show ?thesis
        using that Inl search_base_split(3) [OF s, of k j]
        by (cases "search_base xs k 0 (length xs) < j")
          (auto simp: binary_search_def Let_def not_less le_less split: if_splits)
    qed
    show "\<forall>x \<in> set (take i xs). x < k" using lt by (auto simp: in_set_conv_nth)
    show "\<forall>x \<in> set (drop i xs). k < x" using gt by (auto simp: in_set_conv_nth)
  qed
  then show ?thesis
    using assms Inl sorted_wrt_append [of "(<)" "take i xs" "drop i xs"]
    by (auto simp: insert_sorted_def vec_insert_def sorted_wrt_append)
next
  case (Inr i)
  then show ?thesis using assms by (simp add: insert_sorted_def)
qed

end
