(* ===== verification/Game_State.thy ===== *)
theory Game_State
  imports Arena_Model Command_Queue Sorted_Vec
begin

text \<open>
  The authoritative state of a match, \<open>GameState\<close> of \<^verbatim>\<open>common/src/game_state.rs\<close>, its events, and the
  accessors and small updates that the other parts share: clocks, combo context, cosmetic
  settings, spectators, the pre-match readiness gate, and command admission.
\<close>

section \<open>Data\<close>

datatype death_cause =
    Unknown
  | Wall
  | OutOfBounds
  | EnemyBase
  | SelfCollision
  | SnakeBody u32
  | HeadToHead u32
  | Banked

record snake_crash =
  cr_tick :: u32
  cr_snake_id :: u32
  cr_position :: position
  cr_cause :: death_cause

record team_goal =
  tg_tick :: u32
  tg_team_id :: team_id
  tg_snake_id :: u32
  tg_position :: position
  tg_points :: u32

abbreviation (input) RECENT_CRASH_RETENTION_MS :: u32 where "RECENT_CRASH_RETENTION_MS \<equiv> 1000"
abbreviation (input) RECENT_GOAL_RETENTION_MS :: u32 where "RECENT_GOAL_RETENTION_MS \<equiv> 1800"

record match_readiness =
  deadline_ms :: i64
  ready_user_ids :: "u32 set"

record game_state =
  gs_tick :: u32
  gs_status :: game_status
  gs_arena :: arena
  gs_recent_crashes :: "snake_crash list"
  gs_recent_goals :: "team_goal list"
  gs_last_death_causes :: "(u32, death_cause) hash_map"
  gs_game_type :: game_type
  gs_queue_mode :: queue_mode
  gs_is_stress_test :: bool
  gs_properties :: game_properties
  gs_command_queue :: command_queue
  gs_players :: "(u32, player) hash_map"
  gs_rng :: "pseudo_random option"
  gs_game_code :: "string option"
  gs_host_user_id :: "u32 option"
  gs_start_ms :: i64
  gs_event_sequence :: u64
  gs_usernames :: "(u32, string) hash_map"
  gs_skins :: "(u32, string) hash_map"
  gs_team_bases :: "(team_id, string) hash_map"
  gs_spectators :: "u32 set"
  gs_scores :: "(u32, u32) hash_map"
  gs_food_pickups :: "(u32, u32) hash_map"
  gs_team_scores :: "(team_id, u32) hash_map option"
  gs_player_xp :: "(u32, u32) hash_map"
  gs_player_action_counts :: "(u32, u32) hash_map"
  gs_player_last_activity_ticks :: "(u32, u32) hash_map"
  gs_idle_kicked_user_ids :: "u32 list"
  gs_completed_by_inactivity :: bool
  gs_readiness :: "match_readiness option"
  gs_simulation_epoch_ms :: "i64 option"

record client_command_identity_v2 =
  ci_game_id :: u32
  ci_user_id :: u32
  ci_client_game_session_id :: string
  ci_sequence :: u64

datatype game_event =
    SnakeTurned u32 direction
  | SnakeDied u32 death_cause
  | PlayerIdleKicked (kicked_user: u32) (kicked_snake: u32)
  | FoodSpawned position
  | FoodEaten (fe_snake: u32) (fe_position: position) (fe_points: u32) (fe_chain: u32)
      (fe_remaining_before: u32) (fe_boost_active: bool)
  | BoostPacketCollected (bp_pad: u8) (bp_snake: u32) (bp_charge_after: u32) (bp_respawn: u32)
  | Snapshot game_state
  | CommandScheduled game_command_message
  | CommandScheduledV2 client_command_identity_v2 game_command_message bool
  | CommandRejected client_command_identity_v2 string "command_id option" "u64 option"
  | StatusUpdated game_status
  | PlayerReady u32
  | MatchStartScheduled i64
  | ScoreUpdated u32 u32
  | TeamScoreUpdated team_id u32
  | SnakeRespawned u32 position direction
  | XPAwarded "(u32, u32) hash_map"
  | TickHash u64 i64

section \<open>Access to the snakes\<close>

definition snake_at :: "game_state \<Rightarrow> u32 \<Rightarrow> snake option" where
  "snake_at g i = get_at (ar_snakes (gs_arena g)) (unat i)"

definition update_snake :: "u32 \<Rightarrow> (snake \<Rightarrow> snake) \<Rightarrow> game_state \<Rightarrow> game_state" where
  "update_snake i f g =
     g\<lparr>gs_arena := (gs_arena g)\<lparr>ar_snakes := upd_at (unat i) f (ar_snakes (gs_arena g))\<rparr>\<rparr>"

definition map_snakes :: "(snake \<Rightarrow> snake) \<Rightarrow> game_state \<Rightarrow> game_state" where
  "map_snakes f g = g\<lparr>gs_arena := (gs_arena g)\<lparr>ar_snakes := map f (ar_snakes (gs_arena g))\<rparr>\<rparr>"

definition iter_snakes :: "game_state \<Rightarrow> (u32 \<times> snake) list" where
  "iter_snakes g = map (\<lambda>(i, s). (of_nat i, s)) (enumerate 0 (ar_snakes (gs_arena g)))"

section \<open>Clocks and accessors\<close>

definition elapsed_match_ms :: "game_state \<Rightarrow> u64" where
  "elapsed_match_ms g = sat_mul (ucast (gs_tick g)) (ucast (gp_tick_duration_ms (gs_properties g)))"

definition player_action_count :: "game_state \<Rightarrow> u32 \<Rightarrow> u32" where
  "player_action_count g user_id = hm_get_or (gs_player_action_counts g) user_id 0"

definition is_player_idle_kicked :: "game_state \<Rightarrow> u32 \<Rightarrow> bool" where
  "is_player_idle_kicked g user_id =
     (case binary_search (gs_idle_kicked_user_ids g) user_id of Inr _ \<Rightarrow> True | Inl _ \<Rightarrow> False)"

definition unlimited_boost_capacity_ms :: "game_state \<Rightarrow> u32 option" where
  "unlimited_boost_capacity_ms g =
     (case gp_boost (gs_properties g) of
        Some c \<Rightarrow> if bc_unlimited c then Some (bc_capacity_ms c) else None
      | None \<Rightarrow> None)"

definition normal_movement_interval_ms :: "game_state \<Rightarrow> u32" where
  "normal_movement_interval_ms g =
     (case gs_game_type g of
        Custom cs \<Rightarrow> max (cg_tick_duration_ms cs) 1
      | _ \<Rightarrow> DEFAULT_TICK_INTERVAL_MS)"

definition wall_clock_interval_due :: "game_state \<Rightarrow> u32 \<Rightarrow> bool" where
  "wall_clock_interval_due g interval_ms =
     (let tick_ms = ucast (max (gp_tick_duration_ms (gs_properties g)) 1) :: u64;
          interval = ucast (max interval_ms 1) :: u64;
          elapsed_before = ucast (gs_tick g) * tick_ms;
          elapsed_after = ucast (sat_add (gs_tick g) 1) * tick_ms
      in elapsed_before div interval \<noteq> elapsed_after div interval)"

definition food_refill_due :: "game_state \<Rightarrow> bool" where
  "food_refill_due g \<longleftrightarrow>
     gp_boost (gs_properties g) = None \<or> wall_clock_interval_due g DEFAULT_TICK_INTERVAL_MS"

definition is_complete :: "game_state \<Rightarrow> bool" where
  "is_complete g = (case gs_status g of Complete _ \<Rightarrow> True | _ \<Rightarrow> False)"

definition has_food :: "game_state \<Rightarrow> position \<Rightarrow> bool" where
  "has_food g p \<longleftrightarrow> p \<in> set (ar_food (gs_arena g))"

definition remove_food :: "position \<Rightarrow> game_state \<Rightarrow> game_state \<times> bool" where
  "remove_food p g =
     (let before = length (ar_food (gs_arena g));
          g = g\<lparr>gs_arena := (gs_arena g)\<lparr>ar_food := filter (\<lambda>q. q \<noteq> p) (ar_food (gs_arena g))\<rparr>\<rparr>
      in (g, length (ar_food (gs_arena g)) \<noteq> before))"

text \<open>The points, chain depth, meter before the pickup and boost flag of the next pickup.\<close>

definition combo_pickup_context :: "game_state \<Rightarrow> snake \<Rightarrow> u32 \<times> u32 \<times> u32 \<times> bool" where
  "combo_pickup_context g s =
     (let before = remaining_ms (sn_combo s);
          chain = (if before = 0 then 1 else max (sat_add (chain_count (sn_combo s)) 1) 1);
          points = food_value_for_chain (gp_combo (gs_properties g)) chain
      in (points, chain, before, boost_on (sn_boost s)))"

definition combo_event_fields_are_bounded :: "game_state \<Rightarrow> u32 \<Rightarrow> u32 \<Rightarrow> u32 \<Rightarrow> bool" where
  "combo_event_fields_are_bounded g points chain before \<longleftrightarrow>
     chain > 0 \<and> before \<le> cc_window_ms (gp_combo (gs_properties g)) \<and>
     (chain = 1 \<and> before = 0 \<or> chain > 1 \<and> before > 0) \<and>
     points = food_value_for_chain (gp_combo (gs_properties g)) chain"

definition starting_snake_length :: "game_state \<Rightarrow> nat" where
  "starting_snake_length g =
     (case gs_game_type g of
        Custom cs \<Rightarrow> unat (cg_snake_start_length cs)
      | _ \<Rightarrow> DEFAULT_SNAKE_LENGTH)"

definition carried_food :: "game_state \<Rightarrow> snake \<Rightarrow> u32" where
  "carried_food g s =
     (let extra_segments = snake_length s - starting_snake_length g
      in sat_add (if extra_segments < 2 ^ 32 then of_nat extra_segments else - 1) (sn_food s))"

section \<open>Activity and admission of commands\<close>

text \<open>The user a message acts for: the server's attribution, or else the client's.\<close>

definition issuing_user_id :: "game_command_message \<Rightarrow> u32" where
  "issuing_user_id m =
     (case command_id_server m of
        Some i \<Rightarrow> cid_user_id i
      | None \<Rightarrow> cid_user_id (command_id_client m))"

definition record_player_activity_for_command ::
  "game_command_message \<Rightarrow> u32 \<Rightarrow> game_state \<Rightarrow> game_state" where
  "record_player_activity_for_command m activity_tick g =
     (let user_id = issuing_user_id m in
      if is_player_idle_kicked g user_id then g
      else case command_snake (command m) of
        None \<Rightarrow> g
      | Some snake_id \<Rightarrow>
          if (case hm_get (gs_players g) user_id of
                Some player \<Rightarrow> pl_snake_id player = snake_id | None \<Rightarrow> False)
          then g\<lparr>gs_player_last_activity_ticks :=
                   hm_insert (gs_player_last_activity_ticks g) user_id activity_tick\<rparr>
          else g)"

definition owner_of_snake :: "game_state \<Rightarrow> u32 \<Rightarrow> u32 option" where
  "owner_of_snake g snake_id =
     (let users = map fst (filter (\<lambda>(_, player). pl_snake_id player = snake_id) (gs_players g))
      in if users = [] then None else Some (Min (set users)))"

definition record_player_action_for_snake :: "u32 \<Rightarrow> game_state \<Rightarrow> game_state" where
  "record_player_action_for_snake snake_id g =
     (case owner_of_snake g snake_id of
        None \<Rightarrow> g
      | Some user_id \<Rightarrow>
          g\<lparr>gs_player_action_counts := hm_insert (gs_player_action_counts g) user_id
              (sat_add (hm_get_or (gs_player_action_counts g) user_id 0) 1)\<rparr>)"

definition schedule_command :: "game_command_message \<Rightarrow> game_state \<Rightarrow> game_state" where
  "schedule_command m g =
     (if command_snake (command m) \<noteq> None \<and>
         (\<not> hm_contains (gs_players g) (issuing_user_id m) \<or> is_player_idle_kicked g (issuing_user_id m))
      then g
      else
        let g = record_player_activity_for_command m (gs_tick g) g
        in g\<lparr>gs_command_queue := push m (gs_command_queue g)\<rparr>)"

definition has_scheduled_commands :: "game_state \<Rightarrow> u32 \<Rightarrow> bool" where
  "has_scheduled_commands g t = has_commands_for_tick (gs_command_queue g) t"

section \<open>Cosmetics and spectators\<close>

definition set_player_skin :: "u32 \<Rightarrow> string option \<Rightarrow> game_state \<Rightarrow> game_state" where
  "set_player_skin user_id skin_ref g =
     g\<lparr>gs_skins := (case skin_ref of
         Some r \<Rightarrow> hm_insert (gs_skins g) user_id r
       | None \<Rightarrow> hm_remove (gs_skins g) user_id)\<rparr>"

definition set_team_base :: "team_id \<Rightarrow> string option \<Rightarrow> game_state \<Rightarrow> game_state" where
  "set_team_base team base_ref g =
     g\<lparr>gs_team_bases := (case base_ref of
         Some r \<Rightarrow> hm_insert (gs_team_bases g) team r
       | None \<Rightarrow> hm_remove (gs_team_bases g) team)\<rparr>"

definition team_base :: "game_state \<Rightarrow> team_id \<Rightarrow> string option" where
  "team_base g team = hm_get (gs_team_bases g) team"

definition add_spectator :: "u32 \<Rightarrow> string option \<Rightarrow> game_state \<Rightarrow> game_state" where
  "add_spectator user_id username g =
     (let g = (case username of
            Some name \<Rightarrow> g\<lparr>gs_usernames := hm_insert (gs_usernames g) user_id name\<rparr>
          | None \<Rightarrow> g)
      in g\<lparr>gs_spectators := insert user_id (gs_spectators g)\<rparr>)"

section \<open>The readiness gate\<close>

definition arm_readiness_gate :: "i64 \<Rightarrow> game_state \<Rightarrow> game_state" where
  "arm_readiness_gate deadline g =
     g\<lparr>gs_readiness := Some \<lparr>deadline_ms = deadline, ready_user_ids = {}\<rparr>, gs_simulation_epoch_ms := None\<rparr>"

definition simulation_start_ms :: "game_state \<Rightarrow> i64 option" where
  "simulation_start_ms g =
     (if gs_readiness g \<noteq> None then None
      else Some (case gs_simulation_epoch_ms g of Some e \<Rightarrow> e | None \<Rightarrow> gs_start_ms g))"

definition is_awaiting_readiness :: "game_state \<Rightarrow> bool" where
  "is_awaiting_readiness g \<longleftrightarrow> gs_readiness g \<noteq> None"

definition is_user_ready :: "game_state \<Rightarrow> u32 \<Rightarrow> bool" where
  "is_user_ready g user_id =
     (case gs_readiness g of Some r \<Rightarrow> user_id \<in> ready_user_ids r | None \<Rightarrow> False)"

definition players_pending_ready :: "game_state \<Rightarrow> u32 list" where
  "players_pending_ready g =
     (case gs_readiness g of
        None \<Rightarrow> []
      | Some r \<Rightarrow> sort (filter (\<lambda>u. u \<notin> ready_user_ids r) (hm_keys (gs_players g))))"

definition readiness_gate_resolves_at :: "game_state \<Rightarrow> i64 \<Rightarrow> bool" where
  "readiness_gate_resolves_at g now_ms =
     (case gs_readiness g of
        None \<Rightarrow> False
      | Some r \<Rightarrow> now_ms \<ge> deadline_ms r \<or> players_pending_ready g = [])"

definition accepts_ready_from :: "game_state \<Rightarrow> u32 \<Rightarrow> bool" where
  "accepts_ready_from g user_id \<longleftrightarrow>
     (case gs_readiness g of Some r \<Rightarrow> user_id \<notin> ready_user_ids r | None \<Rightarrow> False) \<and>
     hm_contains (gs_players g) user_id"

end
