(* ===== verification/Snake_Geometry.thy ===== *)
theory Snake_Geometry
  imports Snake_Model
begin

text \<open>
  The compressed body against its specification. A body is a list of corner points; the
  abstraction \<open>body_cells\<close> is the list of grid cells it stands for, head first. Under the
  well-formedness invariant \<open>wf_body\<close> the three routines that work on the corners agree with
  the obvious ones on cells: \<open>step_forward\<close> pushes one cell at the head and drops one at the
  tail unless the snake grows, \<open>contains_point\<close> is membership and \<open>snake_length\<close> is the number
  of cells.
\<close>

section \<open>Cells\<close>

fun dx :: "direction \<Rightarrow> int" where
  "dx Left = - 1" | "dx Right = 1" | "dx Up = 0" | "dx Down = 0"

fun dy :: "direction \<Rightarrow> int" where
  "dy Left = 0" | "dy Right = 0" | "dy Up = - 1" | "dy Down = 1"

definition shift :: "direction \<Rightarrow> int \<Rightarrow> position \<Rightarrow> position" where
  "shift d n p = \<lparr>px = px p + n * dx d, py = py p + n * dy d\<rparr>"

definition aligned :: "position \<Rightarrow> position \<Rightarrow> bool" where
  "aligned p q \<longleftrightarrow> p \<noteq> q \<and> (px p = px q \<or> py p = py q)"

definition pos_in_i16 :: "position \<Rightarrow> bool" where
  "pos_in_i16 p \<longleftrightarrow> in_i16 (px p) \<and> in_i16 (py p)"

text \<open>The cells from \<open>p\<close> up to, but without, \<open>q\<close>.\<close>

definition seg_cells :: "position \<Rightarrow> position \<Rightarrow> position list" where
  "seg_cells p q =
     map (\<lambda>k. \<lparr>px = px p + sgn (px q - px p) * int k, py = py p + sgn (py q - py p) * int k\<rparr>)
       [0..<nat (\<bar>px q - px p\<bar> + \<bar>py q - py p\<bar>)]"

fun body_cells :: "position list \<Rightarrow> position list" where
  "body_cells [] = []"
| "body_cells [p] = [p]"
| "body_cells (p # q # ps) = seg_cells p q @ body_cells (q # ps)"

fun all_aligned :: "position list \<Rightarrow> bool" where
  "all_aligned (p # q # ps) = (aligned p q \<and> all_aligned (q # ps))"
| "all_aligned _ = True"

definition wf_body :: "position list \<Rightarrow> bool" where
  "wf_body body \<longleftrightarrow> 2 \<le> length body \<and> all_aligned body"

section \<open>Directions and segments\<close>

lemma position_eq_iff: "p = q \<longleftrightarrow> px p = px q \<and> py p = py q" for p q :: position
  by auto

lemma px_shift [simp]: "px (shift d n p) = px p + n * dx d"
  and py_shift [simp]: "py (shift d n p) = py p + n * dy d"
  by (simp_all add: shift_def)

lemma shift_0 [simp]: "shift d 0 p = p"
  by (simp add: position_eq_iff)

lemma shift_shift [simp]: "shift d m (shift d n p) = shift d (m + n) p"
  by (simp add: position_eq_iff algebra_simps)

lemma shift_inj [simp]: "shift d m p = shift d n p \<longleftrightarrow> m = n"
  by (cases d) (auto simp: position_eq_iff)

lemma aligned_shift [simp]: "n \<noteq> 0 \<Longrightarrow> aligned (shift d n p) p"
  by (cases d) (auto simp: aligned_def position_eq_iff)

lemma aligned_shift' [simp]: "n \<noteq> 0 \<Longrightarrow> aligned p (shift d n p)"
  by (cases d) (auto simp: aligned_def position_eq_iff)

lemma alignedE:
  assumes "aligned p q"
  obtains d n where "0 < n" and "p = shift d n q"
proof -
  consider "px q < px p" "py p = py q" | "px p < px q" "py p = py q"
    | "px p = px q" "py q < py p" | "px p = px q" "py p < py q"
    using assms unfolding aligned_def position_eq_iff by linarith
  then show thesis
  proof cases
    case 1
    then show ?thesis by (intro that [of "px p - px q" Right]) (simp_all add: position_eq_iff)
  next
    case 2
    then show ?thesis by (intro that [of "px q - px p" Left]) (simp_all add: position_eq_iff)
  next
    case 3
    then show ?thesis by (intro that [of "py p - py q" Down]) (simp_all add: position_eq_iff)
  next
    case 4
    then show ?thesis by (intro that [of "py q - py p" Up]) (simp_all add: position_eq_iff)
  qed
qed

lemma seg_cells_shift:
  "0 \<le> n \<Longrightarrow> seg_cells (shift d n q) q = map (\<lambda>k. shift d (n - int k) q) [0..<nat n]"
  by (cases d) (auto simp: seg_cells_def position_eq_iff sgn_if)

lemma length_seg_cells: "length (seg_cells p q) = nat (\<bar>px q - px p\<bar> + \<bar>py q - py p\<bar>)"
  by (simp add: seg_cells_def)

text \<open>A segment grows by one cell at its front and, reversed, shrinks by one at its back.\<close>

lemma seg_cells_push:
  assumes "0 \<le> n"
  shows "seg_cells (shift d (n + 1) q) q = shift d (n + 1) q # seg_cells (shift d n q) q"
proof -
  have "[0..<nat (n + 1)] = 0 # map Suc [0..<nat n]"
    using assms by (simp add: map_Suc_upt nat_add_distrib upt_conv_Cons)
  then show ?thesis
    using assms by (simp add: seg_cells_shift comp_def algebra_simps)
qed

lemma seg_cells_pop:
  assumes "0 < n"
  shows "seg_cells (shift d n q) q = seg_cells (shift d n q) (shift d 1 q) @ [shift d 1 q]"
proof -
  have n: "nat n = Suc (nat (n - 1))"
    using assms by simp
  have "seg_cells (shift d n q) (shift d 1 q) = seg_cells (shift d (n - 1) (shift d 1 q)) (shift d 1 q)"
    by simp
  also have "\<dots> = map (\<lambda>k. shift d (n - int k) q) [0..<nat (n - 1)]"
    using assms by (simp add: seg_cells_shift del: shift_shift) (simp add: algebra_simps)
  finally show ?thesis
    using assms by (simp add: seg_cells_shift n)
qed

lemma mem_seg_cells:
  assumes "0 < n"
  shows "c \<in> set (seg_cells (shift d n q) q) \<or> c = q \<longleftrightarrow> is_between c (shift d n q) q"
proof
  assume "c \<in> set (seg_cells (shift d n q) q) \<or> c = q"
  then obtain m where "0 \<le> m" "m \<le> n" "c = shift d m q"
  proof
    assume "c \<in> set (seg_cells (shift d n q) q)"
    then obtain k where "k < nat n" "c = shift d (n - int k) q"
      using assms by (auto simp: seg_cells_shift)
    then show ?thesis by (intro that [of "n - int k"]) auto
  qed (use assms that [of 0] in auto)
  then show "is_between c (shift d n q) q"
    by (cases d) (auto simp: is_between_def)
next
  assume btw: "is_between c (shift d n q) q"
  then obtain m where m: "0 \<le> m" "m \<le> n" "c = shift d m q"
  proof (cases d)
    case Up
    then show ?thesis
      using btw assms by (intro that [of "py q - py c"]) (auto simp: is_between_def position_eq_iff)
  next
    case Down
    then show ?thesis
      using btw assms by (intro that [of "py c - py q"]) (auto simp: is_between_def position_eq_iff)
  next
    case Left
    then show ?thesis
      using btw assms by (intro that [of "px q - px c"]) (auto simp: is_between_def position_eq_iff)
  next
    case Right
    then show ?thesis
      using btw assms by (intro that [of "px c - px q"]) (auto simp: is_between_def position_eq_iff)
  qed
  have "c \<in> set (seg_cells (shift d n q) q)" if "0 < m"
  proof -
    have "c \<in> (\<lambda>k. shift d (n - int k) q) ` set [0..<nat n]"
      using m that by (intro image_eqI [where x = "nat (n - m)"]) auto
    then show ?thesis
      using assms by (simp add: seg_cells_shift)
  qed
  then show "c \<in> set (seg_cells (shift d n q) q) \<or> c = q"
    using m by (cases "m = 0") auto
qed

lemma aligned_mem_seg_cells:
  "aligned p q \<Longrightarrow> c \<in> set (seg_cells p q) \<or> c = q \<longleftrightarrow> is_between c p q"
  by (elim alignedE) (simp add: mem_seg_cells)

section \<open>Moving the head\<close>

lemma next_head_shift: "pos_in_i16 (shift d 1 p) \<Longrightarrow> next_head d p = shift d 1 p"
  by (cases d) (simp_all add: position_eq_iff pos_in_i16_def)

lemma body_cells_Cons: "ps \<noteq> [] \<Longrightarrow> body_cells (p # ps) = seg_cells p (hd ps) @ body_cells ps"
  by (cases ps) simp_all

lemma travel_direction_shift:
  "sn_body s = shift d n q # q # ps \<Longrightarrow> 0 < n \<Longrightarrow> travel_direction s = d"
  by (cases d) (simp_all add: travel_direction_def)

text \<open>The collinearity test of \<open>step_forward\<close> recognises exactly the direction of travel.\<close>

definition push_head :: "direction \<Rightarrow> position list \<Rightarrow> position list" where
  "push_head d body =
     (let p1 = body ! 0; p2 = body ! 1; p0 = next_head d p1
      in if (px p0 = px p1 \<and> px p1 = px p2) \<or> (py p0 = py p1 \<and> py p1 = py p2)
         then body[0 := p0] else p0 # body)"

lemma step_forward_alt:
  "sn_alive s \<Longrightarrow> 2 \<le> length (sn_body s) \<Longrightarrow>
   step_forward s =
     (if sn_food s > 0
      then s\<lparr>sn_body := push_head (sn_direction s) (sn_body s), sn_food := sn_food s - 1\<rparr>
      else s\<lparr>sn_body := retract_tail (push_head (sn_direction s) (sn_body s))\<rparr>)"
  by (simp add: step_forward_def push_head_def Let_def)

lemma push_head_cells:
  assumes body: "body = shift t n q # q # ps" and n: "0 < n"
    and noopp: "\<not> is_opposite t d"
    and range: "pos_in_i16 (shift d 1 (hd body))"
  shows "body_cells (push_head d body) = shift d 1 (hd body) # body_cells body"
    and "all_aligned body \<Longrightarrow> all_aligned (push_head d body)"
    and "push_head d body =
           (if d = t then shift d (n + 1) q # q # ps else shift d 1 (hd body) # body)"
proof -
  have nh: "next_head d (hd body) = shift d 1 (hd body)"
    using range by (rule next_head_shift)
  show push: "push_head d body =
           (if d = t then shift d (n + 1) q # q # ps else shift d 1 (hd body) # body)"
  proof (cases "d = t")
    case True
    then show ?thesis
      using nh n unfolding body push_head_def
      by (cases t) (auto simp: position_eq_iff Let_def)
  next
    case False
    then show ?thesis
      using nh n noopp unfolding body push_head_def
      by (cases t; cases d) (auto simp: position_eq_iff Let_def)
  qed
  have one: "seg_cells (shift d 1 p) p = [shift d 1 p]" for p
    using seg_cells_push [of 0 d p] by (simp add: seg_cells_shift)
  show "body_cells (push_head d body) = shift d 1 (hd body) # body_cells body"
  proof (cases "d = t")
    case True
    then show ?thesis
      using push n seg_cells_push [of n t q] by (simp add: body add.commute)
  next
    case False
    then show ?thesis
      using push by (simp add: body one del: shift_shift)
  qed
  show "all_aligned body \<Longrightarrow> all_aligned (push_head d body)"
    using push n by (auto simp: body simp del: shift_shift)
qed

section \<open>Moving the tail\<close>

lemma tail_towards_shift: "0 < n \<Longrightarrow> tail_towards (shift d n q) q = shift d 1 q"
  by (cases d) (auto simp: tail_towards_def position_eq_iff)

lemma snoc2E:
  assumes "2 \<le> length xs"
  obtains ys b t where "xs = ys @ [b, t]"
proof (cases xs rule: rev_cases)
  case (snoc zs t)
  with assms that show ?thesis by (cases zs rule: rev_cases) auto
qed (use assms in simp)

lemma seg_cells_aligned: "aligned p q \<Longrightarrow> \<exists>cs. seg_cells p q = p # cs"
  using seg_cells_push [of "_ - 1" _ q] by (elim alignedE) fastforce

lemma body_cells_snoc2:
  assumes "aligned b t"
  shows "body_cells (ps @ [b, t]) = body_cells (ps @ [b]) @ tl (seg_cells b t @ [t])"
proof (induction ps rule: body_cells.induct)
  case 1
  show ?case using seg_cells_aligned [OF assms] by auto
next
  case (2 p)
  show ?case using seg_cells_aligned [OF assms] by auto
qed simp

lemma all_aligned_append2: "all_aligned (ps @ [b, t]) \<longleftrightarrow> all_aligned (ps @ [b]) \<and> aligned b t"
  by (induction ps rule: body_cells.induct) auto

lemma retract_tail_cells:
  assumes "2 \<le> length body" and "all_aligned body"
  shows "body_cells (retract_tail body) = butlast (body_cells body)"
    and "all_aligned (retract_tail body)"
proof -
  obtain ps b t where body: "body = ps @ [b, t]"
    using assms(1) by (rule snoc2E)
  have al: "aligned b t" and rest: "all_aligned (ps @ [b])"
    using assms(2) by (simp_all add: body all_aligned_append2)
  obtain d n where n: "0 < n" and b: "b = shift d n t"
    using al by (rule alignedE)
  have idx: "body ! (length body - 1) = t" "body ! (length body - 1 - 1) = b"
    by (simp_all add: body nth_append)
  have "retract_tail body =
      (if shift d 1 t = b then butlast body else body[length body - 1 := shift d 1 t])"
    using n by (simp only: retract_tail_def Let_def idx) (simp add: b tail_towards_shift)
  moreover have "shift d 1 t = b \<longleftrightarrow> n = 1" "butlast body = ps @ [b]"
    "body[length body - 1 := shift d 1 t] = ps @ [b, shift d 1 t]"
    by (auto simp: b body butlast_append list_update_append)
  ultimately have retract: "retract_tail body =
      (if n = 1 then ps @ [b] else ps @ [b, shift d 1 t])"
    by simp
  have cells: "butlast (body_cells body) = body_cells (ps @ [b]) @ tl (seg_cells b t)" if "n \<noteq> 1"
  proof -
    have "seg_cells b t \<noteq> []" using n by (simp add: b seg_cells_shift)
    then show ?thesis
      by (simp add: body body_cells_snoc2 [OF al] butlast_append)
  qed
  show "body_cells (retract_tail body) = butlast (body_cells body)"
  proof (cases "n = 1")
    case True
    then have "seg_cells b t = [b]"
      using seg_cells_push [of 0 d t] by (simp add: b seg_cells_shift)
    then have "butlast (body_cells body) = body_cells (ps @ [b])"
      by (simp add: body body_cells_snoc2 [OF al] butlast_append)
    then show ?thesis
      using True by (simp add: retract)
  next
    case False
    then have al': "aligned b (shift d 1 t)"
      using aligned_shift [of "n - 1" d "shift d 1 t"] by (simp add: b)
    have "tl (seg_cells b (shift d 1 t) @ [shift d 1 t]) = tl (seg_cells b t)"
      using seg_cells_pop [OF n, of d t] by (simp add: b)
    then show ?thesis
      using False cells by (simp add: retract body_cells_snoc2 [OF al'])
  qed
  show "all_aligned (retract_tail body)"
    using rest n aligned_shift [of "n - 1" d "shift d 1 t"]
    by (auto simp: retract all_aligned_append2 b)
qed

section \<open>The routines agree with the cells\<close>

lemma wf_bodyE:
  assumes "wf_body body"
  obtains t n q ps where "0 < n" and "body = shift t n q # q # ps" and "all_aligned (q # ps)"
proof -
  obtain p q ps where "body = p # q # ps" "aligned p q" "all_aligned (q # ps)"
    using assms unfolding wf_body_def by (cases body rule: all_aligned.cases) auto
  then show thesis
    by (elim alignedE) (auto intro: that)
qed

lemma wf_body_length: "wf_body body \<Longrightarrow> 2 \<le> length body"
  by (simp add: wf_body_def)

lemma length_body_cells_wf: "wf_body body \<Longrightarrow> 2 \<le> length (body_cells body)"
proof (elim wf_bodyE)
  fix t n q ps
  assume "0 < n" "body = shift t n q # q # ps"
  moreover have "1 \<le> length (body_cells (q # ps))"
    by (induction ps arbitrary: q) (auto simp: Suc_le_eq)
  ultimately show ?thesis
    by (simp add: length_seg_cells) (cases t; simp)
qed

lemma length_retract_tail:
  assumes "wf_body body"
  shows "2 \<le> length (retract_tail body) \<longleftrightarrow> 3 \<le> length (body_cells body)"
proof -
  have "length (body_cells (retract_tail body)) = length (body_cells body) - 1"
    and "all_aligned (retract_tail body)"
    using assms by (simp_all add: wf_body_def retract_tail_cells)
  moreover have "2 \<le> length b \<longleftrightarrow> 2 \<le> length (body_cells b)" if "all_aligned b" "b \<noteq> []" for b
    using that length_body_cells_wf [of b] by (cases b rule: body_cells.cases) (auto simp: wf_body_def)
  moreover have "retract_tail body \<noteq> []"
    using assms by (auto simp: retract_tail_def Let_def wf_body_def butlast_conv_take)
  ultimately show ?thesis
    by auto
qed

lemma retract_tail_cases:
  "body \<noteq> [] \<Longrightarrow> retract_tail body = butlast body \<or> (\<exists>t. retract_tail body = butlast body @ [t])"
  by (cases body rule: rev_cases) (auto simp: retract_tail_def Let_def)

lemma retract_tail_front:
  assumes m: "0 < m" and len: "2 \<le> length (retract_tail (shift d m r # r # qs))"
  obtains k q rs where "0 < k" and "shift d k q = shift d m r"
    and "retract_tail (shift d m r # r # qs) = shift d k q # q # rs"
proof (cases qs rule: rev_cases)
  case Nil
  have "retract_tail [shift d m r, r] =
      (if shift d 1 r = shift d m r then [shift d m r] else [shift d m r, shift d 1 r])"
    using m by (simp add: retract_tail_def tail_towards_shift)
  then have "m \<noteq> 1" "retract_tail [shift d m r, r] = [shift d m r, shift d 1 r]"
    using len Nil by (auto split: if_splits)
  then show thesis
    using m Nil that [of "m - 1" "shift d 1 r" "[]"] by simp
next
  case (snoc ys y)
  then obtain rs where "retract_tail (shift d m r # r # qs) = shift d m r # r # rs"
    using retract_tail_cases [of "shift d m r # r # qs"] by auto
  then show thesis
    using m that by blast
qed

text \<open>The refinement of one movement step, with the invariant and the direction it leaves behind.\<close>

lemma step_forward_refines:
  assumes alive: "sn_alive s" and wf: "wf_body (sn_body s)"
    and noopp: "\<not> is_opposite (travel_direction s) (sn_direction s)"
    and range: "pos_in_i16 (shift (sn_direction s) 1 (hd (sn_body s)))"
  shows "body_cells (sn_body (step_forward s)) =
      shift (sn_direction s) 1 (hd (sn_body s)) #
        (if sn_food s > 0 then body_cells (sn_body s) else butlast (body_cells (sn_body s)))"
    and "wf_body (sn_body (step_forward s))"
    and "hd (sn_body (step_forward s)) = shift (sn_direction s) 1 (hd (sn_body s))"
    and "travel_direction (step_forward s) = sn_direction s"
proof -
  let ?d = "sn_direction s"
  obtain t n q ps where n: "0 < n" and body: "sn_body s = shift t n q # q # ps"
    and al: "all_aligned (q # ps)"
    using wf by (rule wf_bodyE)
  have t: "travel_direction s = t"
    using body n by (rule travel_direction_shift)
  note push = push_head_cells [OF body n, of ?d]
  have cells: "body_cells (push_head ?d (sn_body s)) = shift ?d 1 (hd (sn_body s)) # body_cells (sn_body s)"
    using noopp range by (simp add: t push(1))
  have wfp: "wf_body (push_head ?d (sn_body s))"
    using noopp range wf push(2,3) by (auto simp: t wf_body_def body)
  have tl: "2 \<le> length (retract_tail (push_head ?d (sn_body s)))"
    using length_retract_tail [OF wfp] length_body_cells_wf [OF wf] by (simp add: cells)
  have front: "\<exists>k r rs. 0 < k \<and> sn_body (step_forward s) = shift ?d k r # r # rs
      \<and> shift ?d k r = shift ?d 1 (hd (sn_body s))"
  proof -
    obtain m r qs where m: "0 < m" and pushed: "push_head ?d (sn_body s) = shift ?d m r # r # qs"
      and hd_pushed: "shift ?d m r = shift ?d 1 (hd (sn_body s))"
    proof (cases "?d = t")
      case True
      then show ?thesis
        using push(3) noopp range n by (intro that [of "n + 1" q ps]) (simp_all add: t body add.commute)
    next
      case False
      then show ?thesis
        using push(3) noopp range by (intro that [of 1 "hd (sn_body s)" "q # ps"]) (simp_all add: t body)
    qed
    show ?thesis
    proof (cases "sn_food s > 0")
      case True
      then show ?thesis
        using m pushed hd_pushed alive wf by (auto simp: step_forward_alt wf_body_def)
    next
      case False
      obtain k r' rs where "0 < k" "shift ?d k r' = shift ?d m r"
        and "retract_tail (shift ?d m r # r # qs) = shift ?d k r' # r' # rs"
        using m tl unfolding pushed by (rule retract_tail_front)
      then show ?thesis
        using False pushed hd_pushed alive wf by (auto simp: step_forward_alt wf_body_def)
    qed
  qed
  then show "hd (sn_body (step_forward s)) = shift ?d 1 (hd (sn_body s))"
    and "travel_direction (step_forward s) = ?d"
    using travel_direction_shift by fastforce+
  have ne: "body_cells (sn_body s) \<noteq> []"
    using length_body_cells_wf [OF wf] by auto
  show "body_cells (sn_body (step_forward s)) =
      shift ?d 1 (hd (sn_body s)) #
        (if sn_food s > 0 then body_cells (sn_body s) else butlast (body_cells (sn_body s)))"
    using alive wf wfp cells ne by (simp add: step_forward_alt wf_body_def retract_tail_cells)
  show "wf_body (sn_body (step_forward s))"
    using alive wf wfp tl by (auto simp: step_forward_alt wf_body_def retract_tail_cells)
qed

section \<open>Collision tests and length\<close>

lemma body_cells_mem:
  "wf_body body \<Longrightarrow> c \<in> set (body_cells body) \<longleftrightarrow> (\<exists>(p, q)\<in>set (zip body (drop 1 body)). is_between c p q)"
proof (induction body rule: body_cells.induct)
  case (3 p q ps)
  have al: "aligned p q" using "3.prems" by (simp add: wf_body_def)
  show ?case
  proof (cases ps)
    case Nil
    then show ?thesis
      using aligned_mem_seg_cells [OF al, of c] by auto
  next
    case (Cons r rs)
    then have wf: "wf_body (q # ps)" using "3.prems" by (simp add: wf_body_def)
    then have "q \<in> set (body_cells (q # ps))"
      using seg_cells_aligned [of q r] Cons by (auto simp: wf_body_def)
    then have "c \<in> set (body_cells (p # q # ps)) \<longleftrightarrow> is_between c p q \<or> c \<in> set (body_cells (q # ps))"
      using aligned_mem_seg_cells [OF al, of c] by auto
    then show ?thesis
      using "3.IH" [OF wf] by (simp add: Cons)
  qed
qed (simp_all add: wf_body_def)

lemma bex_enumerate_snd: "(\<exists>p\<in>set (enumerate n xs). Q (snd p)) \<longleftrightarrow> (\<exists>x\<in>set xs. Q x)"
  by (induction xs arbitrary: n) auto

lemma contains_point_cells:
  "wf_body (sn_body s) \<Longrightarrow> contains_point s c False \<longleftrightarrow> c \<in> set (body_cells (sn_body s))"
  using bex_enumerate_snd [of _ _ "\<lambda>(p, q). is_between c p q"]
  by (simp add: contains_point_def iter_body_def body_cells_mem list_ex_iff case_prod_unfold)

text \<open>The test that skips the head looks at the cells behind it.\<close>

lemma seg_cells_head:
  assumes "aligned p q" and "c \<in> set (tl (seg_cells p q))"
  shows "c \<noteq> p"
proof -
  have "sgn (px q - px p) \<noteq> 0 \<or> sgn (py q - py p) \<noteq> 0"
    using assms(1) by (auto simp: aligned_def sgn_0_0 position_eq_iff)
  moreover have "tl [0..<m] = [1..<m]" for m
    by (simp add: tl_upt)
  ultimately show ?thesis
    using assms(2) by (auto simp: seg_cells_def map_tl [symmetric] position_eq_iff)
qed

lemma list_ex_enumerate_pos:
  "0 < n \<Longrightarrow> list_ex (\<lambda>(idx, (a, b)). if k \<and> idx = 0 \<and> a = c then False else Q a b) (enumerate n xs)
   \<longleftrightarrow> (\<exists>x\<in>set xs. Q (fst x) (snd x))"
  by (induction xs arbitrary: n) auto

lemma contains_point_skip_head:
  assumes "wf_body (sn_body s)"
  shows "contains_point s c True \<longleftrightarrow> c \<in> set (tl (body_cells (sn_body s)))"
proof -
  obtain p q ps where body: "sn_body s = p # q # ps" and al: "aligned p q" "all_aligned (q # ps)"
    using assms by (cases "sn_body s" rule: body_cells.cases) (auto simp: wf_body_def)
  obtain cs where cs: "seg_cells p q = p # cs"
    using seg_cells_aligned [OF al(1)] by blast
  have p: "p \<notin> set cs"
    using seg_cells_head [OF al(1), of p] by (auto simp: cs)
  have seg: "is_between c p q \<longleftrightarrow> c = p \<or> c \<in> set cs \<or> c = q"
    using aligned_mem_seg_cells [OF al(1), of c] by (auto simp: cs)
  have q: "q \<in> set (body_cells (q # ps))"
    by (cases ps) (use al(2) seg_cells_aligned [of q "hd ps"] in auto)
  have rest: "(\<exists>x\<in>set (zip (q # ps) ps). is_between c (fst x) (snd x)) \<longleftrightarrow> ps \<noteq> [] \<and> c \<in> set (body_cells (q # ps))"
    using al(2) body_cells_mem [of "q # ps" c] by (cases ps) (auto simp: wf_body_def case_prod_beta)
  have "contains_point s c True \<longleftrightarrow>
      c \<noteq> p \<and> is_between c p q \<or> (\<exists>x\<in>set (zip (q # ps) ps). is_between c (fst x) (snd x))"
    using list_ex_enumerate_pos [of "Suc 0" True c "is_between c" "zip (q # ps) ps"]
    by (auto simp: contains_point_def iter_body_def body)
  also have "\<dots> \<longleftrightarrow> c \<in> set cs \<or> c \<in> set (body_cells (q # ps))"
    unfolding seg rest using p q al(1) by (cases ps) (auto simp: aligned_def)
  finally show ?thesis
    by (simp add: body cs)
qed

definition body_in_field :: "position list \<Rightarrow> bool" where
  "body_in_field body \<longleftrightarrow> (\<forall>p\<in>set body. 0 \<le> px p \<and> px p \<le> 32767 \<and> 0 \<le> py p \<and> py p \<le> 32767)"

lemma segment_distance_cells:
  assumes "aligned p q"
    and "0 \<le> px p" "px p \<le> 32767" "0 \<le> py p" "py p \<le> 32767"
    and "0 \<le> px q" "px q \<le> 32767" "0 \<le> py q" "py q \<le> 32767"
  shows "segment_distance (p, q) = length (seg_cells p q)"
proof -
  have "in_i16 (px q - px p)" "in_i16 (py q - py p)" "in_i16 \<bar>px q - px p\<bar>" "in_i16 \<bar>py q - py p\<bar>"
    using assms by (auto simp: in_i16_def)
  moreover have "in_i16 (\<bar>px q - px p\<bar> + \<bar>py q - py p\<bar>)"
    using assms by (auto simp: in_i16_def aligned_def)
  moreover have "\<bar>px q - px p\<bar> + \<bar>py q - py p\<bar> < 2 ^ 64"
    using assms by auto
  ultimately show ?thesis
    by (simp add: segment_distance_def usize_of_i16_def length_seg_cells)
qed

lemma snake_length_cells:
  assumes "wf_body (sn_body s)" and "body_in_field (sn_body s)"
  shows "snake_length s = length (body_cells (sn_body s))"
proof -
  have "sum_list (map segment_distance (zip body (drop 1 body))) + 1 = length (body_cells body)"
    if "all_aligned body" "body_in_field body" "body \<noteq> []" for body
    using that
    by (induction body rule: body_cells.induct) (auto simp: segment_distance_cells body_in_field_def)
  moreover have "sn_body s \<noteq> []"
    using assms(1) by (auto simp: wf_body_def)
  ultimately show ?thesis
    using assms by (simp add: snake_length_def iter_body_def wf_body_def)
qed

end
