(* ===== verification/Fingerprint.thy ===== *)
theory Fingerprint
  imports Game_State Snake_Geometry
begin

text \<open>
  The digest of the sync-critical state, \<^verbatim>\<open>common/src/fingerprint.rs\<close>: FNV-1a over a canonical
  byte string. The hasher is its 64-bit state; \<open>sync_hash\<close> feeds it the bytes that the source
  writes, in the order it writes them. The byte string itself is shown to be a faithful code of the
  sync-critical fields, so two states hash different strings exactly when they differ in one of
  those fields.
\<close>

section \<open>The hasher\<close>

type_synonym sync_hasher = u64

abbreviation (input) FNV_OFFSET :: u64 where "FNV_OFFSET \<equiv> 0xcbf29ce484222325"
abbreviation (input) FNV_PRIME :: u64 where "FNV_PRIME \<equiv> 0x100000001b3"

definition sync_hasher_new :: sync_hasher where
  "sync_hasher_new = FNV_OFFSET"

definition write_u8 :: "u8 \<Rightarrow> sync_hasher \<Rightarrow> sync_hasher" where
  "write_u8 v h = (h XOR ucast v) * FNV_PRIME"

definition write_bytes :: "u8 list \<Rightarrow> sync_hasher \<Rightarrow> sync_hasher" where
  "write_bytes bs h = foldl (\<lambda>h b. write_u8 b h) h bs"

text \<open>\<open>to_le_bytes\<close>: the bytes of a word, least significant first.\<close>

fun le_bytes :: "nat \<Rightarrow> 'a::len word \<Rightarrow> u8 list" where
  "le_bytes 0 v = []"
| "le_bytes (Suc n) v = ucast v # le_bytes n (drop_bit 8 v)"

definition bytes_u16 :: "u16 \<Rightarrow> u8 list" where "bytes_u16 v = le_bytes 2 v"
definition bytes_u32 :: "u32 \<Rightarrow> u8 list" where "bytes_u32 v = le_bytes 4 v"
definition bytes_u64 :: "u64 \<Rightarrow> u8 list" where "bytes_u64 v = le_bytes 8 v"
definition bytes_i16 :: "i16 \<Rightarrow> u8 list" where "bytes_i16 v = le_bytes 2 (word_of_int v :: u16)"
definition bytes_bool :: "bool \<Rightarrow> u8 list" where "bytes_bool b = [if b then 1 else 0]"

text \<open>An optional value is a presence byte and the value; a vector is its length and its elements.\<close>

definition bytes_option :: "('a \<Rightarrow> u8 list) \<Rightarrow> 'a option \<Rightarrow> u8 list" where
  "bytes_option f x = (case x of Some v \<Rightarrow> 1 # f v | None \<Rightarrow> [0])"

definition bytes_list :: "('a \<Rightarrow> u8 list) \<Rightarrow> 'a list \<Rightarrow> u8 list" where
  "bytes_list f xs = bytes_u32 (of_nat (length xs)) @ concat (map f xs)"

definition bytes_pair :: "u32 \<times> u32 \<Rightarrow> u8 list" where
  "bytes_pair = (\<lambda>(k, v). bytes_u32 k @ bytes_u32 v)"

section \<open>The canonical byte string\<close>

fun direction_tag :: "direction \<Rightarrow> u8" where
  "direction_tag Up = 0"
| "direction_tag Down = 1"
| "direction_tag Left = 2"
| "direction_tag Right = 3"

definition status_bytes :: "game_status \<Rightarrow> u8 list" where
  "status_bytes st =
     (case st of
        Stopped \<Rightarrow> [0]
      | Started _ \<Rightarrow> [1]
      | Complete w \<Rightarrow> 2 # bytes_option bytes_u32 w)"

definition zone_bytes :: "team_zone_config \<Rightarrow> u8 list" where
  "zone_bytes z = bytes_u16 (end_zone_depth z) @ bytes_u16 (goal_width z)"

definition position_bytes :: "position \<Rightarrow> u8 list" where
  "position_bytes p = bytes_i16 (px p) @ bytes_i16 (py p)"

definition snake_bytes :: "snake \<Rightarrow> u8 list" where
  "snake_bytes s =
     bytes_bool (sn_alive s) @ [direction_tag (sn_direction s)] @ bytes_u32 (sn_food s) @
     bytes_u16 (sn_speed s) @ bytes_u32 (sn_credit s) @ bytes_u32 (charge_ms (sn_boost s)) @
     bytes_bool (boost_on (sn_boost s)) @ bytes_bool (intent (sn_boost s)) @
     bytes_u32 (chain_count (sn_combo s)) @ bytes_u32 (remaining_ms (sn_combo s)) @
     bytes_option (\<lambda>team. [team]) (sn_team s) @ bytes_list position_bytes (sn_body s)"

definition pad_bytes :: "boost_pad \<Rightarrow> u8 list" where
  "pad_bytes pad =
     bp_id pad # position_bytes (bp_position pad) @ bytes_u32 (bp_charge_ms pad) @ [bp_size_cells pad] @
     bytes_option bytes_u32 (bp_respawn_at_tick pad)"

definition boost_bytes :: "boost_config \<Rightarrow> u8 list" where
  "boost_bytes c =
     bytes_u16 (bc_speed_milli c) @ bytes_u32 (bc_capacity_ms c) @ bytes_u32 (bc_packet_charge_ms c) @
     bytes_u32 (bc_pad_respawn_ms c) @ bytes_u16 (bc_spot_layout_version c) @ bytes_u16 (bc_rules_version c) @
     bytes_bool (bc_unlimited c)"

definition properties_bytes :: "game_properties \<Rightarrow> u8 list" where
  "properties_bytes p =
     bytes_u64 (of_nat (gp_available_food_target p)) @ bytes_u32 (gp_tick_duration_ms p) @
     bytes_option bytes_u32 (gp_time_limit_ms p) @ bytes_option bytes_u32 (gp_score_limit p) @
     bytes_option boost_bytes (gp_boost p) @
     bytes_u32 (cc_window_ms (gp_combo p)) @ bytes_u32 (cc_max_food_value (gp_combo p)) @
     bytes_u16 (cc_rules_version (gp_combo p)) @
     bytes_u32 (gp_player_idle_timeout_ms p) @ bytes_u32 (gp_player_idle_warning_ms p)"

text \<open>Only commands of players reach this point; a system command is \<open>unreachable!\<close> there.\<close>

fun command_bytes :: "game_command \<Rightarrow> u8 list" where
  "command_bytes (Turn i d) = 0 # bytes_u32 i @ [direction_tag d]"
| "command_bytes (ActivateBoost i) = 1 # bytes_u32 i"
| "command_bytes (DeactivateBoost i) = 2 # bytes_u32 i"
| "command_bytes (PlayerActivity i) = 3 # bytes_u32 i"
| "command_bytes (UpdateStatus _) = []"

definition scheduled_bytes :: "game_command_message \<Rightarrow> u8 list" where
  "scheduled_bytes m =
     (case command_id_server m of
        Some i \<Rightarrow> bytes_u32 (cid_tick i) @ bytes_u32 (cid_user_id i) @ bytes_u32 (cid_sequence_number i)
      | None \<Rightarrow> []) @
     command_bytes (command m)"

definition sync_bytes :: "game_state \<Rightarrow> u8 list" where
  "sync_bytes g =
     bytes_u32 (gs_tick g) @ status_bytes (gs_status g) @
     bytes_u16 (ar_width (gs_arena g)) @ bytes_u16 (ar_height (gs_arena g)) @
     bytes_option zone_bytes (ar_team_zone_config (gs_arena g)) @
     bytes_list snake_bytes (ar_snakes (gs_arena g)) @
     bytes_list pad_bytes (sort_key bp_id (ar_boost_pads (gs_arena g))) @
     bytes_list (\<lambda>(x, y). bytes_i16 x @ bytes_i16 y) (sort (map (\<lambda>p. (px p, py p)) (ar_food (gs_arena g)))) @
     bytes_list bytes_pair (sort (map (\<lambda>(u, p). (u, pl_snake_id p)) (gs_players g))) @
     bytes_list bytes_pair (sort (gs_scores g)) @
     bytes_list bytes_pair (sort (gs_food_pickups g)) @
     bytes_option (bytes_list (\<lambda>(team, n). team # bytes_u32 n)) (map_option sort (gs_team_scores g)) @
     bytes_list bytes_pair (sort (gs_player_xp g)) @
     bytes_list bytes_pair (sort (gs_player_action_counts g)) @
     bytes_list bytes_pair (sort (gs_player_last_activity_ticks g)) @
     bytes_list bytes_u32 (gs_idle_kicked_user_ids g) @
     bytes_bool (gs_completed_by_inactivity g) @
     properties_bytes (gs_properties g) @
     bytes_list scheduled_bytes (authoritative_commands (gs_command_queue g))"

definition sync_hash :: "game_state \<Rightarrow> u64" where
  "sync_hash g = write_bytes (sync_bytes g) sync_hasher_new"

section \<open>Prefix codes\<close>

text \<open>
  An encoding is a prefix code on the values it is meant for when the front of a byte string
  determines the value and the rest.
\<close>

locale prefix_code =
  fixes enc :: "'a \<Rightarrow> u8 list"
    and ok :: "'a \<Rightarrow> bool"
  assumes split_code: "ok x \<Longrightarrow> ok y \<Longrightarrow> enc x @ r = enc y @ s \<longleftrightarrow> x = y \<and> r = s"
begin

lemma inject: "ok x \<Longrightarrow> ok y \<Longrightarrow> enc x = enc y \<longleftrightarrow> x = y"
  using split_code [of x y "[]" "[]"] by simp

lemma option_code:
  assumes "pred_option ok a" and "pred_option ok b"
  shows "bytes_option enc a @ r = bytes_option enc b @ s \<longleftrightarrow> a = b \<and> r = s"
  using assms by (cases a; cases b) (auto simp: bytes_option_def split_code)

lemma concat_code:
  assumes "length xs = length ys" and "list_all ok xs" and "list_all ok ys"
  shows "concat (map enc xs) @ r = concat (map enc ys) @ s \<longleftrightarrow> xs = ys \<and> r = s"
  using assms by (induction xs ys rule: list_induct2) (auto simp: split_code)

end

lemma take_bit_Suc_byte:
  fixes v w :: "'a::len word"
  assumes "ucast v = (ucast w :: u8)" and "take_bit n (drop_bit 8 v) = take_bit n (drop_bit 8 w)"
  shows "take_bit (8 + n) v = take_bit (8 + n) w"
proof (rule bit_word_eqI)
  fix k
  assume "k < LENGTH('a)"
  show "bit (take_bit (8 + n) v) k = bit (take_bit (8 + n) w) k"
  proof (cases "k < 8")
    case True
    then have "bit v k = bit w k"
      using arg_cong [OF assms(1), of "\<lambda>u. bit u k"] \<open>k < LENGTH('a)\<close> by (simp add: bit_simps)
    then show ?thesis
      by (simp add: bit_simps)
  next
    case False
    then show ?thesis
      using arg_cong [OF assms(2), of "\<lambda>u. bit u (k - 8)"] by (auto simp: bit_simps)
  qed
qed

lemma le_bytes_take_bit:
  "le_bytes n v = le_bytes n w \<Longrightarrow> take_bit (8 * n) v = take_bit (8 * n) w"
  by (induction n arbitrary: v w) (auto intro: take_bit_Suc_byte)

lemma length_le_bytes [simp]: "length (le_bytes n v) = n"
  by (induction n arbitrary: v) simp_all

lemma le_bytes_inject:
  fixes v w :: "'a::len word"
  assumes "LENGTH('a) = 8 * n"
  shows "le_bytes n v = le_bytes n w \<longleftrightarrow> v = w"
  using le_bytes_take_bit [of n v w] assms by (auto simp: take_bit_word_eq_self)

interpretation u16: prefix_code bytes_u16 "\<lambda>_. True"
  by unfold_locales (simp add: bytes_u16_def le_bytes_inject)

interpretation u32: prefix_code bytes_u32 "\<lambda>_. True"
  by unfold_locales (simp add: bytes_u32_def le_bytes_inject)

interpretation u64: prefix_code bytes_u64 "\<lambda>_. True"
  by unfold_locales (simp add: bytes_u64_def le_bytes_inject)

lemma word_of_i16_eq: "in_i16 x \<Longrightarrow> in_i16 y \<Longrightarrow> (word_of_int x :: u16) = word_of_int y \<longleftrightarrow> x = y"
proof
  assume i16: "in_i16 x" "in_i16 y" and "(word_of_int x :: u16) = word_of_int y"
  then have "(65536 :: int) dvd x - y"
    by (simp add: word_of_int_eq_iff take_bit_eq_mod mod_eq_dvd_iff)
  moreover have "\<bar>x - y\<bar> < 65536"
    using i16 unfolding in_i16_def by linarith
  ultimately show "x = y"
    using dvd_imp_le_int [of "x - y" 65536] by fastforce
qed simp

interpretation i16: prefix_code bytes_i16 in_i16
  by unfold_locales (simp add: bytes_i16_def le_bytes_inject word_of_i16_eq)

interpretation flag: prefix_code bytes_bool "\<lambda>_. True"
  by unfold_locales (simp add: bytes_bool_def)

interpretation byte: prefix_code "\<lambda>b. [b]" "\<lambda>_. True"
  by unfold_locales simp

lemmas codes =
  u16.split_code [OF TrueI TrueI] u32.split_code [OF TrueI TrueI] u64.split_code [OF TrueI TrueI]
  i16.split_code flag.split_code [OF TrueI TrueI]

definition short :: "('a \<Rightarrow> bool) \<Rightarrow> 'a list \<Rightarrow> bool" where
  "short ok xs \<longleftrightarrow> length xs < 2 ^ 32 \<and> list_all ok xs"

context prefix_code
begin

lemma list_code:
  assumes "short ok xs" and "short ok ys"
  shows "bytes_list enc xs @ r = bytes_list enc ys @ s \<longleftrightarrow> xs = ys \<and> r = s"
proof (cases "length xs = length ys")
  case True
  then show ?thesis
    using assms by (simp add: bytes_list_def short_def codes concat_code)
next
  case False
  then have "(of_nat (length xs) :: u32) \<noteq> of_nat (length ys)"
    using assms by (simp add: short_def of_nat_inverse word_of_nat_eq_iff take_bit_nat_eq_self)
  then show ?thesis
    using False by (auto simp: bytes_list_def codes)
qed

end

interpretation pair: prefix_code bytes_pair "\<lambda>_. True"
  by unfold_locales (auto simp: bytes_pair_def codes split: prod.split)

interpretation cell: prefix_code "\<lambda>(x, y). bytes_i16 x @ bytes_i16 y" "\<lambda>(x, y). in_i16 x \<and> in_i16 y"
  by unfold_locales (auto simp: codes)

interpretation team_score: prefix_code "\<lambda>(team, n). team # bytes_u32 n" "\<lambda>_. True"
  by unfold_locales (auto simp: codes)

section \<open>What the byte string determines\<close>

text \<open>
  The range conditions of the machine types that the model keeps as \<open>int\<close> and \<open>nat\<close>: coordinates
  are i16, lengths fit the u32 they are written as.
\<close>

interpretation pos: prefix_code position_bytes pos_in_i16
  by unfold_locales (auto simp: position_bytes_def pos_in_i16_def codes)

interpretation zone: prefix_code zone_bytes "\<lambda>_. True"
  by unfold_locales (auto simp: zone_bytes_def codes)

interpretation boost: prefix_code boost_bytes "\<lambda>_. True"
  by unfold_locales (auto simp: boost_bytes_def codes)

lemma direction_tag_inject [simp]: "direction_tag d = direction_tag d' \<longleftrightarrow> d = d'"
  by (cases d; cases d') simp_all

lemmas options = u32.option_code byte.option_code zone.option_code boost.option_code

lemma pred_option_True [simp]: "pred_option (\<lambda>_. True) x"
  by (cases x) simp_all

definition snake_fits :: "snake \<Rightarrow> bool" where
  "snake_fits s \<longleftrightarrow> short pos_in_i16 (sn_body s)"

interpretation snake: prefix_code snake_bytes snake_fits
  by unfold_locales (auto simp: snake_bytes_def snake_fits_def codes options pos.list_code)

definition pad_fits :: "boost_pad \<Rightarrow> bool" where
  "pad_fits pad \<longleftrightarrow> pos_in_i16 (bp_position pad)"

interpretation pad: prefix_code pad_bytes pad_fits
  by unfold_locales (auto simp: pad_bytes_def pad_fits_def codes options pos.split_code)

definition properties_fit :: "game_properties \<Rightarrow> bool" where
  "properties_fit p \<longleftrightarrow> gp_available_food_target p < 2 ^ 64"

interpretation props: prefix_code properties_bytes properties_fit
  by unfold_locales
    (auto simp: properties_bytes_def properties_fit_def codes options word_of_nat_eq_iff take_bit_nat_eq_self)

text \<open>Everything the digest covers; a failover changes the server of a match, not this.\<close>

definition status_view :: "game_status \<Rightarrow> u32 option option option" where
  "status_view st =
     (case st of Stopped \<Rightarrow> None | Started _ \<Rightarrow> Some None | Complete w \<Rightarrow> Some (Some w))"

lemma status_code:
  "status_bytes a @ r = status_bytes b @ s \<longleftrightarrow> status_view a = status_view b \<and> r = s"
  by (cases a; cases b) (auto simp: status_bytes_def status_view_def options)

definition scheduled_view :: "game_command_message \<Rightarrow> command_id option \<times> game_command" where
  "scheduled_view m = (command_id_server m, command m)"

lemma scheduled_code:
  assumes "command_id_server m \<noteq> None" "command_snake (command m) \<noteq> None"
    and "command_id_server m' \<noteq> None" "command_snake (command m') \<noteq> None"
  shows "scheduled_bytes m @ r = scheduled_bytes m' @ s \<longleftrightarrow> scheduled_view m = scheduled_view m' \<and> r = s"
proof -
  have "command_bytes c @ r = command_bytes c' @ s \<longleftrightarrow> c = c' \<and> r = s"
    if "command_snake c \<noteq> None" "command_snake c' \<noteq> None" for c c' r s
    using that by (cases c; cases c') (auto simp: codes command_snake_def)
  then show ?thesis
    using assms by (auto simp: scheduled_bytes_def scheduled_view_def codes command_id.expand)
qed

definition scheduled_fits :: "game_command_message \<Rightarrow> bool" where
  "scheduled_fits m \<longleftrightarrow> command_id_server m \<noteq> None \<and> command_snake (command m) \<noteq> None"

lemma authoritative_commands_fit: "list_all scheduled_fits (authoritative_commands q)"
  by (simp add: authoritative_commands_def scheduled_fits_def list_all_iff)

lemma scheduled_list_code:
  assumes "short scheduled_fits xs" and "short scheduled_fits ys"
  shows "bytes_list scheduled_bytes xs = bytes_list scheduled_bytes ys \<longleftrightarrow>
    map scheduled_view xs = map scheduled_view ys"
proof (cases "length xs = length ys")
  case True
  then have "concat (map scheduled_bytes xs) @ [] = concat (map scheduled_bytes ys) @ [] \<longleftrightarrow>
      map scheduled_view xs = map scheduled_view ys"
    using assms unfolding short_def
    by (induction xs ys rule: list_induct2) (auto simp: scheduled_code scheduled_fits_def)
  then show ?thesis
    using True by (simp add: bytes_list_def)
next
  case False
  then have "(of_nat (length xs) :: u32) \<noteq> of_nat (length ys)"
    using assms by (simp add: short_def word_of_nat_eq_iff take_bit_nat_eq_self)
  then show ?thesis
    using False map_eq_imp_length_eq [of scheduled_view xs scheduled_view ys]
    by (auto simp: bytes_list_def codes)
qed

definition food_cells :: "game_state \<Rightarrow> (int \<times> int) list" where
  "food_cells g = map (\<lambda>p. (px p, py p)) (ar_food (gs_arena g))"

definition controlled :: "game_state \<Rightarrow> (u32 \<times> u32) list" where
  "controlled g = map (\<lambda>(u, p). (u, pl_snake_id p)) (gs_players g)"

definition sync_fits :: "game_state \<Rightarrow> bool" where
  "sync_fits g \<longleftrightarrow>
     short snake_fits (ar_snakes (gs_arena g)) \<and> short pad_fits (ar_boost_pads (gs_arena g)) \<and>
     short pos_in_i16 (ar_food (gs_arena g)) \<and> short (\<lambda>_. True) (gs_players g) \<and>
     short (\<lambda>_. True) (gs_scores g) \<and> short (\<lambda>_. True) (gs_food_pickups g) \<and>
     pred_option (short (\<lambda>_. True)) (gs_team_scores g) \<and> short (\<lambda>_. True) (gs_player_xp g) \<and>
     short (\<lambda>_. True) (gs_player_action_counts g) \<and>
     short (\<lambda>_. True) (gs_player_last_activity_ticks g) \<and>
     short (\<lambda>_. True) (gs_idle_kicked_user_ids g) \<and> properties_fit (gs_properties g) \<and>
     short (\<lambda>_. True) (authoritative_commands (gs_command_queue g))"

text \<open>
  The sync-critical fields are equal, field by field. Food and the maps are compared as
  multisets, since their order carries no meaning; the server of a started match is left out.
\<close>

definition in_sync :: "game_state \<Rightarrow> game_state \<Rightarrow> bool" where
  "in_sync g g' \<longleftrightarrow>
     gs_tick g = gs_tick g' \<and> status_view (gs_status g) = status_view (gs_status g') \<and>
     ar_width (gs_arena g) = ar_width (gs_arena g') \<and> ar_height (gs_arena g) = ar_height (gs_arena g') \<and>
     ar_team_zone_config (gs_arena g) = ar_team_zone_config (gs_arena g') \<and>
     ar_snakes (gs_arena g) = ar_snakes (gs_arena g') \<and>
     sort_key bp_id (ar_boost_pads (gs_arena g)) = sort_key bp_id (ar_boost_pads (gs_arena g')) \<and>
     mset (food_cells g) = mset (food_cells g') \<and> mset (controlled g) = mset (controlled g') \<and>
     mset (gs_scores g) = mset (gs_scores g') \<and> mset (gs_food_pickups g) = mset (gs_food_pickups g') \<and>
     map_option mset (gs_team_scores g) = map_option mset (gs_team_scores g') \<and>
     mset (gs_player_xp g) = mset (gs_player_xp g') \<and>
     mset (gs_player_action_counts g) = mset (gs_player_action_counts g') \<and>
     mset (gs_player_last_activity_ticks g) = mset (gs_player_last_activity_ticks g') \<and>
     gs_idle_kicked_user_ids g = gs_idle_kicked_user_ids g' \<and>
     gs_completed_by_inactivity g = gs_completed_by_inactivity g' \<and>
     gs_properties g = gs_properties g' \<and>
     map scheduled_view (authoritative_commands (gs_command_queue g)) =
       map scheduled_view (authoritative_commands (gs_command_queue g'))"

lemma sort_eq_iff_mset: "sort xs = sort ys \<longleftrightarrow> mset xs = mset ys"
  by (metis mset_sort properties_for_sort sorted_sort)

lemma short_sort [simp]: "short ok (sort_key f xs) = short ok xs"
  by (simp add: short_def list_all_iff)

lemma short_map: "short ok (map f xs) = short (ok \<circ> f) xs"
  by (simp add: short_def list_all_iff)

lemma map_sort_eq_iff: "map_option sort a = map_option sort b \<longleftrightarrow> map_option mset a = map_option mset b"
  by (cases a; cases b) (simp_all add: sort_eq_iff_mset)

interpretation team_scores: prefix_code "bytes_list (\<lambda>(team, n). team # bytes_u32 n)" "short (\<lambda>_. True)"
  by unfold_locales (rule team_score.list_code)

lemma sync_bytes_iff:
  assumes "sync_fits g" and "sync_fits g'"
  shows "sync_bytes g = sync_bytes g' \<longleftrightarrow> in_sync g g'"
proof -
  have sched: "short scheduled_fits (authoritative_commands (gs_command_queue h))" if "sync_fits h" for h
    using that authoritative_commands_fit by (simp add: sync_fits_def short_def)
  have fits: "short (\<lambda>(x, y). in_i16 x \<and> in_i16 y) (food_cells h)" "short (\<lambda>_. True) (controlled h)"
      "pred_option (short (\<lambda>_. True)) (map_option sort (gs_team_scores h))" if "sync_fits h" for h
    using that
    by (auto simp: sync_fits_def food_cells_def controlled_def short_map comp_def
        pos_in_i16_def [abs_def] option.pred_map)
  show ?thesis
    using assms fits [OF assms(1)] fits [OF assms(2)] sched [OF assms(1)] sched [OF assms(2)]
    unfolding sync_bytes_def food_cells_def [symmetric] controlled_def [symmetric] in_sync_def sync_fits_def
    by (simp add: codes status_code zone.option_code snake.list_code pad.list_code cell.list_code
        pair.list_code u32.list_code team_scores.option_code props.split_code scheduled_list_code
        sort_eq_iff_mset map_sort_eq_iff)
qed

text \<open>FNV-1a never forgets a difference in the state it has reached: the prime is odd.\<close>

lemma FNV_PRIME_inverse: "FNV_PRIME * 0xce965057aff6957b = (1 :: u64)"
  by simp

lemma mult_unit_inject:
  fixes a b c d :: "'a::comm_monoid_mult"
  assumes "c * d = 1" and "a * c = b * c"
  shows "a = b"
proof -
  have "a * (c * d) = b * (c * d)"
    using assms(2) by (simp only: mult.assoc [symmetric])
  then show ?thesis
    using assms(1) by simp
qed

lemma xor_inject: "a XOR c = b XOR c \<longleftrightarrow> a = (b :: 'a::len word)"
  by (auto simp: bit_eq_iff bit_simps)

lemma write_u8_inject: "write_u8 v h = write_u8 v h' \<longleftrightarrow> h = h'"
  unfolding write_u8_def by (auto dest!: mult_unit_inject [OF FNV_PRIME_inverse] simp only: xor_inject)

lemma write_bytes_inject: "write_bytes bs h = write_bytes bs h' \<longleftrightarrow> h = h'"
  by (induction bs arbitrary: h h') (simp_all add: write_bytes_def write_u8_inject)

lemma write_bytes_append: "write_bytes (as @ bs) h = write_bytes bs (write_bytes as h)"
  by (simp add: write_bytes_def)

lemma write_bytes_one: "write_bytes [b] h = write_u8 b h"
  by (simp add: write_bytes_def)

lemma write_u8_byte_inject: "write_u8 b h = write_u8 b' h \<longleftrightarrow> b = b'"
proof -
  have "h XOR c = h XOR d \<longleftrightarrow> c = d" for c d :: u64
    using xor_inject [of c h d] by (simp add: xor.commute)
  moreover have "(ucast b :: u64) = ucast b' \<longleftrightarrow> b = b'"
    by (simp add: word_uint_eq_iff uint_up_ucast is_up)
  moreover have "(h XOR ucast b) * FNV_PRIME = (h XOR ucast b') * FNV_PRIME \<longleftrightarrow> h XOR ucast b = h XOR ucast b'"
    by (rule iffI [OF mult_unit_inject [OF FNV_PRIME_inverse] arg_cong])
  ultimately show ?thesis
    unfolding write_u8_def by blast
qed

lemma one_byte_difference: "write_bytes (as @ [b] @ bs) h = write_bytes (as @ [b'] @ bs) h \<longleftrightarrow> b = b'"
  by (simp only: write_bytes_append write_bytes_inject write_bytes_one write_u8_byte_inject)

end
