(* ===== verification/Spawning.thy ===== *)
theory Spawning
  imports Game_State
begin

text \<open>
  Where snakes and food enter a match: starting positions, joining, respawning and the initial
  food of \<^verbatim>\<open>common/src/game_state.rs\<close>. The spacing of a team inside its gate is computed in double
  precision; \<open>f64_round\<close> rounds a non-negative rational below \<open>2 ^ 53\<close> to 53 significant bits.
\<close>

section \<open>Double precision\<close>

definition round_half_even :: "rat \<Rightarrow> int" where
  "round_half_even q =
     (let f = \<lfloor>q\<rfloor>; r = q - of_int f
      in if r > 1 / 2 \<or> r = 1 / 2 \<and> odd f then f + 1 else f)"

definition f64_round :: "rat \<Rightarrow> rat" where
  "f64_round q =
     (if q = 0 then 0
      else
        let (a, b) = quotient_of q;
            e = nat (53 - (int (bit_length (nat \<bar>a\<bar>)) - int (bit_length (nat b))));
            e = (if \<bar>q\<bar> * 2 ^ e \<ge> 2 ^ 53 then e - 1 else e)
        in of_int (round_half_even (q * 2 ^ e)) / 2 ^ e)"

section \<open>Starting positions\<close>

text \<open>One column of spawns: \<open>n\<close> rows spread over the usable height.\<close>

definition column_rows :: "i16 \<Rightarrow> nat \<Rightarrow> i16 list" where
  "column_rows height n =
     (let vertical_margin = 2;
          usable_height = wrap_i16 (wrap_i16 (height - 1) - 2 * vertical_margin)
      in map (\<lambda>i. if n = 1 then div_i16 height 2
                  else wrap_i16 (vertical_margin +
                    div_i16 (wrap_i16 (wrap_i16 (int i) * usable_height)) (wrap_i16 (int (n - 1)))))
           [0..<n])"

definition calculate_starting_positions :: "game_state \<Rightarrow> nat \<Rightarrow> (position \<times> direction) list" where
  "calculate_starting_positions g player_count =
     (let width = i16_of_u16 (ar_width (gs_arena g));
          height = i16_of_u16 (ar_height (gs_arena g));
          len = wrap_i16 (int (starting_snake_length g));
          (left_boundary, right_boundary) =
            (case main_field_bounds (gs_arena g) of
               Some (left, right) \<Rightarrow> (wrap_i16 (left + 2), wrap_i16 (right - 2))
             | None \<Rightarrow> (0, wrap_i16 (width - 1)));
          x_left = wrap_i16 (left_boundary + len);
          x_right = wrap_i16 (right_boundary - len)
      in if player_count = 0 then []
         else if player_count = 1 then [(\<lparr>px = x_right, py = div_i16 height 2\<rparr>, Left)]
         else if player_count = 2 then
           (if (case gs_game_type g of TeamMatch k \<Rightarrow> k = 1 | _ \<Rightarrow> False)
            then [(\<lparr>px = 5, py = div_i16 height 2\<rparr>, Right),
                  (\<lparr>px = wrap_i16 (width - 5), py = div_i16 height 2\<rparr>, Left)]
            else [(\<lparr>px = x_right, py = div_i16 height 2\<rparr>, Left),
                  (\<lparr>px = x_left, py = div_i16 height 2\<rparr>, Right)])
         else
           map (\<lambda>y. (\<lparr>px = x_left, py = y\<rparr>, Right)) (column_rows height ((player_count + 1) div 2)) @
           map (\<lambda>y. (\<lparr>px = x_right, py = y\<rparr>, Left)) (column_rows height (player_count div 2)))"

text \<open>The row of the \<open>i\<close>-th of several team mates; \<open>clamp\<close> panics on an empty interval.\<close>

definition gate_row :: "i16 \<Rightarrow> i16 \<Rightarrow> nat \<Rightarrow> nat \<Rightarrow> i16 result" where
  "gate_row gate_top gate_bottom n i =
     (if n = 1 then Inr (div_i16 (wrap_i16 (gate_top + gate_bottom)) 2)
      else
        let gate_span = max (wrap_i16 (gate_bottom - gate_top)) 0;
            spacing = f64_round (of_int gate_span / of_nat (n + 1));
            pos = f64_round (of_int gate_top + f64_round (spacing * of_nat (i + 1)))
        in if gate_top > gate_bottom then Inl (Panic ''min > max'')
           else Inr (clamp_int gate_top gate_bottom (round_away pos)))"

definition positions_for_side ::
  "arena \<Rightarrow> i16 \<Rightarrow> nat \<Rightarrow> team_id \<Rightarrow> bool \<Rightarrow> (position \<times> direction) list result" where
  "positions_for_side a depth n team is_left =
     (let width = i16_of_u16 (ar_width a);
          height = i16_of_u16 (ar_height a);
          boundary_x = (if is_left then wrap_i16 (depth - 1) else wrap_i16 (width - depth));
          head_x = (if is_left then max (wrap_i16 (boundary_x - 1)) 0
                    else min (wrap_i16 (boundary_x + 1)) (wrap_i16 (width - 1)));
          (_, y_start, y_end) =
            (case goal_bounds a team of
               Some b \<Rightarrow> b | None \<Rightarrow> (boundary_x, div_i16 height 2, div_i16 height 2));
          gate_top = max y_start 0;
          gate_bottom = min y_end (wrap_i16 (height - 1));
          d = (if is_left then Right else Left)
      in foldr (\<lambda>i acc. try_then (gate_row gate_top gate_bottom n i) (\<lambda>y.
           try_then acc (\<lambda>ps. Inr ((\<lparr>px = head_x, py = y\<rparr>, d) # ps)))) [0..<n] (Inr []))"

definition team_snake_indices :: "game_state \<Rightarrow> team_id \<Rightarrow> nat list" where
  "team_snake_indices g team =
     map fst (filter (\<lambda>(_, s). sn_team s = Some team) (enumerate 0 (ar_snakes (gs_arena g))))"

definition calculate_team_starting_positions :: "game_state \<Rightarrow> (position \<times> direction) list result" where
  "calculate_team_starting_positions g =
     (case (if is_team_match (gs_game_type g) then ar_team_zone_config (gs_arena g) else None) of
        None \<Rightarrow> Inr (calculate_starting_positions g (length (gs_players g)))
      | Some c \<Rightarrow>
          let depth = i16_of_u16 (end_zone_depth c);
              team0 = team_snake_indices g 0;
              team1 = team_snake_indices g 1
          in try_then (positions_for_side (gs_arena g) depth (length team0) 0 True) (\<lambda>team0_positions.
             try_then (positions_for_side (gs_arena g) depth (length team1) 1 False) (\<lambda>team1_positions.
             let assigned = zip team0 team0_positions @ zip team1 team1_positions;
                 fallback = calculate_starting_positions g (length (gs_players g))
             in Inr (map (\<lambda>idx. case map_of assigned idx of
                    Some pos \<Rightarrow> pos
                  | None \<Rightarrow> case get_at fallback idx of
                      Some pos \<Rightarrow> pos | None \<Rightarrow> (\<lparr>px = 0, py = 0\<rparr>, Right))
                  [0..<length (ar_snakes (gs_arena g))]))))"

definition starting_positions :: "game_state \<Rightarrow> nat \<Rightarrow> (position \<times> direction) list result" where
  "starting_positions g player_count =
     (if is_team_match (gs_game_type g) then calculate_team_starting_positions g
      else Inr (calculate_starting_positions g player_count))"

text \<open>
  The tail of a straight body of the given length; for length zero the subtraction wraps around
  and the cast to i16 gives minus one.
\<close>

definition tail_behind :: "nat \<Rightarrow> position \<Rightarrow> direction \<Rightarrow> position" where
  "tail_behind len h d =
     (let back = wrap_i16 (int len - 1) in
      case d of
        Left \<Rightarrow> \<lparr>px = wrap_i16 (px h + back), py = py h\<rparr>
      | Right \<Rightarrow> \<lparr>px = wrap_i16 (px h - back), py = py h\<rparr>
      | Up \<Rightarrow> \<lparr>px = px h, py = wrap_i16 (py h + back)\<rparr>
      | Down \<Rightarrow> \<lparr>px = px h, py = wrap_i16 (py h - back)\<rparr>)"

definition apply_starting_positions :: "nat \<Rightarrow> game_state \<Rightarrow> game_state result" where
  "apply_starting_positions player_count g =
     try_then (starting_positions g player_count) (\<lambda>positions.
     let len = starting_snake_length g;
         place = (\<lambda>(i, s). case get_at positions i of
             Some (h, d) \<Rightarrow> s\<lparr>sn_body := [h, tail_behind len h d], sn_direction := d\<rparr>
           | None \<Rightarrow> s)
     in Inr (g\<lparr>gs_arena := (gs_arena g)\<lparr>ar_snakes := map place (enumerate 0 (ar_snakes (gs_arena g)))\<rparr>\<rparr>))"

section \<open>Respawning\<close>

definition cell_occupied :: "game_state \<Rightarrow> position \<Rightarrow> bool" where
  "cell_occupied g p = list_ex (\<lambda>s. sn_alive s \<and> contains_point s p False) (ar_snakes (gs_arena g))"

definition respawn_event_for_snake :: "game_state \<Rightarrow> u32 \<Rightarrow> game_event option result" where
  "respawn_event_for_snake g snake_id =
     try_then (starting_positions g (length (gs_players g))) (\<lambda>positions.
     let candidates =
           (case get_at positions (unat snake_id) of Some p \<Rightarrow> [p] | None \<Rightarrow> []) @ positions
     in Inr (map_option (\<lambda>(p, d). SnakeRespawned snake_id p d)
          (find (\<lambda>(p, _). \<not> cell_occupied g p) candidates)))"

section \<open>Joining\<close>

text \<open>The state is returned with the result: a failed join may still have recorded a name.\<close>

definition add_player_with_team ::
  "u32 \<Rightarrow> string option \<Rightarrow> team_id option \<Rightarrow> game_state \<Rightarrow> game_state \<times> player result" where
  "add_player_with_team user_id username team_override g =
     (if hm_contains (gs_players g) user_id
      then (g, Inl (Err ''Player already exists''))
      else if gs_tick g \<noteq> 0
      then (g, Inl (Err ''Cannot add player after the game has started''))
      else
        let g = (case username of
              Some name \<Rightarrow> g\<lparr>gs_usernames := hm_insert (gs_usernames g) user_id name\<rparr> | None \<Rightarrow> g);
            team =
              (if is_team_match (gs_game_type g)
               then (case team_override of
                       Some t \<Rightarrow> Some t
                     | None \<Rightarrow> Some (of_nat (length (gs_players g) mod 2)))
               else None);
            s = \<lparr>sn_body = [\<lparr>px = 0, py = 0\<rparr>, \<lparr>px = 0, py = 0\<rparr>], sn_direction = Right, sn_alive = True,
                 sn_food = 0, sn_team = team, sn_speed = NORMAL_SNAKE_SPEED_MILLI, sn_credit = 0,
                 sn_boost = snake_boost_default\<lparr>charge_ms :=
                   (case unlimited_boost_capacity_ms g of Some c \<Rightarrow> c | None \<Rightarrow> 0)\<rparr>,
                 sn_combo = snake_combo_default\<rparr>
        in case add_snake s (gs_arena g) of
             Inl e \<Rightarrow> (g, Inl e)
           | Inr (a, snake_id) \<Rightarrow>
               let p = \<lparr>pl_user_id = user_id, pl_snake_id = snake_id\<rparr>;
                   g = g\<lparr>gs_arena := a, gs_players := hm_insert (gs_players g) user_id p,
                         gs_player_last_activity_ticks :=
                           hm_insert (gs_player_last_activity_ticks g) user_id (gs_tick g)\<rparr>
               in case apply_starting_positions (length (gs_players g)) g of
                    Inl e \<Rightarrow> (g, Inl e)
                  | Inr g \<Rightarrow> (g, Inr p))"

definition add_player :: "u32 \<Rightarrow> string option \<Rightarrow> game_state \<Rightarrow> game_state \<times> player result" where
  "add_player user_id username g = add_player_with_team user_id username None g"

section \<open>Initial food\<close>

definition food_position_free :: "game_state \<Rightarrow> position \<Rightarrow> bool" where
  "food_position_free g p \<longleftrightarrow>
     p \<notin> set (ar_food (gs_arena g)) \<and> \<not> is_boost_pad_position (gs_arena g) p \<and> \<not> cell_occupied g p"

text \<open>The loop of at most \<open>MAX_ATTEMPTS = 1000\<close> draws, by the attempts left.\<close>

fun spawn_food_attempts :: "box_muller \<Rightarrow> nat \<Rightarrow> game_state \<Rightarrow> game_state result" where
  "spawn_food_attempts bm 0 g = Inr g"
| "spawn_food_attempts bm (Suc n) g =
     (if \<not> length (ar_food (gs_arena g)) < gp_available_food_target (gs_properties g) then Inr g
      else case gs_rng g of
        None \<Rightarrow> spawn_food_attempts bm n g
      | Some r \<Rightarrow>
          try_then (sample_food_position bm (gs_game_type g) (gs_arena g) r) (\<lambda>(p, r).
          let g = g\<lparr>gs_rng := Some r\<rparr>;
              g = (if food_position_free g p
                   then g\<lparr>gs_arena := (gs_arena g)\<lparr>ar_food := ar_food (gs_arena g) @ [p]\<rparr>\<rparr> else g)
          in spawn_food_attempts bm n g))"

definition spawn_initial_food :: "box_muller \<Rightarrow> game_state \<Rightarrow> game_state result" where
  "spawn_initial_food bm g =
     (if gs_rng g = None then Inr g else spawn_food_attempts bm 1000 g)"

end
