(* ===== verification/Validate.thy ===== *)
theory Validate
  imports Game_State
begin

text \<open>
  Construction and admission of match states: \<open>GameState::new\<close>, \<open>new_with_boost_config\<close>,
  \<open>is_legacy_completed_snapshot\<close> and \<open>validate_boost_invariants\<close> of
  \<^verbatim>\<open>common/src/game_state.rs\<close>. The validator is translated check by check, in the order of the source;
  its loops over hash maps only decide which error is reported first. The second half gives the
  predicate that it decides.
\<close>

section \<open>The validator\<close>

definition validate_snake_combo :: "combo_config \<Rightarrow> snake \<Rightarrow> unit result" where
  "validate_snake_combo c s =
     (if remaining_ms (sn_combo s) > cc_window_ms c
      then Inl (Err ''Combo remaining_ms exceeds the configured window'')
      else if (remaining_ms (sn_combo s) = 0) \<noteq> (chain_count (sn_combo s) = 0)
      then Inl (Err ''Combo chain and timer must be active or inactive together'')
      else if \<not> sn_alive s \<and> sn_combo s \<noteq> snake_combo_default
      then Inl (Err ''dead snake must have an inactive Combo'')
      else Inr ())"

definition validate_food_pickup :: "game_state \<Rightarrow> u32 \<Rightarrow> unit result" where
  "validate_food_pickup g snake_id =
     (if unat snake_id \<ge> length (ar_snakes (gs_arena g))
      then Inl (Err ''food pickup count references missing snake'') else Inr ())"

definition attributed_snake_id :: "death_cause \<Rightarrow> u32 option" where
  "attributed_snake_id cause =
     (case cause of SnakeBody k \<Rightarrow> Some k | HeadToHead k \<Rightarrow> Some k | _ \<Rightarrow> None)"

definition validate_death_cause :: "game_state \<Rightarrow> u32 \<times> death_cause \<Rightarrow> unit result" where
  "validate_death_cause g = (\<lambda>(snake_id, cause).
     if unat snake_id \<ge> length (ar_snakes (gs_arena g))
     then Inl (Err ''last death cause references missing snake'')
     else if (case attributed_snake_id cause of
                Some k \<Rightarrow> unat k \<ge> length (ar_snakes (gs_arena g)) | None \<Rightarrow> False)
     then Inl (Err ''last death cause references missing attributed snake'')
     else Inr ())"

definition movement_threshold :: "game_state \<Rightarrow> u64" where
  "movement_threshold g = ucast NORMAL_SNAKE_SPEED_MILLI * ucast (normal_movement_interval_ms g)"

text \<open>The loop over the cells of one footprint, with the cells already covered.\<close>

fun check_pad_cells ::
  "game_state \<Rightarrow> i16 \<times> i16 \<Rightarrow> position set \<Rightarrow> position list \<Rightarrow> position set result" where
  "check_pad_cells g (l, r) seen [] = Inr seen"
| "check_pad_cells g (l, r) seen (cell # cells) =
     (if px cell < l \<or> px cell > r \<or> py cell < 0 \<or> py cell \<ge> i16_of_u16 (ar_height (gs_arena g))
         \<or> is_wall_position (gs_arena g) cell
      then Inl (Err ''Boost pad footprint must stay in the playable main field'')
      else if cell \<in> seen then Inl (Err ''Boost pad footprints must not overlap'')
      else if cell \<in> set (ar_food (gs_arena g))
      then Inl (Err ''food cannot overlap a Boost pad footprint'')
      else check_pad_cells g (l, r) (insert cell seen) cells)"

fun check_pads ::
  "game_state \<Rightarrow> boost_config \<Rightarrow> i16 \<times> i16 \<Rightarrow> u8 set \<Rightarrow> position set \<Rightarrow> boost_pad list \<Rightarrow> unit result" where
  "check_pads g config bounds ids seen [] = Inr ()"
| "check_pads g config bounds ids seen (pad # pads) =
     (if bp_id pad \<in> ids then Inl (Err ''Boost pad IDs must be unique'')
      else if \<not> (bp_size_cells pad = 1 \<or> bp_size_cells pad = 2) \<or> bp_charge_ms pad = 0
         \<or> bp_charge_ms pad > bc_capacity_ms config
         \<or> \<not> is_multiple_of (bp_charge_ms pad) BOOST_TICK_INTERVAL_MS
      then Inl (Err ''Boost pad footprint and charge must satisfy the configured layout'')
      else if length (footprint_cells pad) \<noteq> (unat (bp_size_cells pad))\<^sup>2
      then Inl (Err ''Boost pad footprint overflowed coordinates'')
      else try_then (check_pad_cells g bounds seen (footprint_cells pad)) (\<lambda>seen.
        if (case bp_respawn_at_tick pad of Some t \<Rightarrow> t \<le> gs_tick g | None \<Rightarrow> False)
        then Inl (Err ''Boost pad cooldown must point to a future absolute tick'')
        else check_pads g config bounds (insert (bp_id pad) ids) seen pads))"

definition validate_boost_snake :: "game_state \<Rightarrow> boost_config \<Rightarrow> snake \<Rightarrow> unit result" where
  "validate_boost_snake g config s =
     (if charge_ms (sn_boost s) > bc_capacity_ms config
         \<or> \<not> is_multiple_of (charge_ms (sn_boost s)) BOOST_TICK_INTERVAL_MS
      then Inl (Err ''snake Boost charge must be whole-quantum and within capacity'')
      else if boost_on (sn_boost s) \<and> (charge_ms (sn_boost s) = 0 \<or> sn_speed s \<noteq> bc_speed_milli config)
      then Inl (Err ''active Boost requires funded charge and configured speed'')
      else if \<not> boost_on (sn_boost s) \<and> sn_speed s \<noteq> NORMAL_SNAKE_SPEED_MILLI
      then Inl (Err ''inactive snake must have normal speed'')
      else if bc_unlimited config \<and> sn_alive s \<and> charge_ms (sn_boost s) \<noteq> bc_capacity_ms config
      then Inl (Err ''living snake in an unlimited Boost match must retain full charge'')
      else if \<not> sn_alive s \<and> (charge_ms (sn_boost s) \<noteq> 0 \<or> boost_on (sn_boost s) \<or> sn_credit s \<noteq> 0)
      then Inl (Err ''dead snake must have cleared Boost charge, activation and movement credit'')
      else if ucast (sn_credit s) \<ge> movement_threshold g
      then Inl (Err ''snake movement credit must remain below one movement threshold'')
      else Inr ())"

definition validate_plain_snake :: "game_state \<Rightarrow> snake \<Rightarrow> unit result" where
  "validate_plain_snake g s =
     (if sn_speed s \<noteq> NORMAL_SNAKE_SPEED_MILLI \<or> sn_boost s \<noteq> snake_boost_default
      then Inl (Err ''non-Boost snake must remain normal and uncharged'')
      else if ucast (sn_credit s) \<ge> movement_threshold g
      then Inl (Err ''snake movement credit must remain below one movement threshold'')
      else Inr ())"

definition pad_signature :: "boost_pad \<Rightarrow> u8 \<times> position \<times> u32 \<times> u8" where
  "pad_signature pad = (bp_id pad, bp_position pad, bp_charge_ms pad, bp_size_cells pad)"

text \<open>The arm of the validator for a match with a Boost configuration.\<close>

definition validate_boost_match :: "game_state \<Rightarrow> boost_config \<Rightarrow> unit result" where
  "validate_boost_match g config =
     (case boost_config_for (gs_game_type g) (ar_width (gs_arena g)) (ar_height (gs_arena g)) of
        None \<Rightarrow> Inl (Err ''Boost configuration is only valid for duel, 2v2, free-for-all and Solo'')
      | Some expected_config \<Rightarrow>
        try_then (boost_config_validate config) (\<lambda>_.
        if bc_spot_layout_version config \<noteq> bc_spot_layout_version expected_config
        then Inl (Err ''requires another Boost spot layout'')
        else if gp_tick_duration_ms (gs_properties g) \<noteq> BOOST_TICK_INTERVAL_MS
        then Inl (Err ''Boost match tick must be 50ms'')
        else if gp_time_limit_ms (gs_properties g) \<noteq> None
        then Inl (Err ''Boost matches are raced to a score and must not carry a time limit'')
        else if gp_score_limit (gs_properties g) \<noteq>
            (if is_team_match (gs_game_type g) then Some (team_score_limit (gs_queue_mode g)) else None)
        then Inl (Err ''Boost match score limit must be exactly the one of its queue'')
        else
          let expected = map pad_signature (boost_pad_layout (gs_arena g) config);
              actual = map pad_signature (ar_boost_pads (gs_arena g));
              expected_pad_count = (if bc_unlimited config then 0 else 12)
          in if length expected \<noteq> expected_pad_count \<or> actual \<noteq> expected
             then Inl (Err ''Boost layout requires the canonical value/footprint pads'')
             else try_then
               (case boost_field_bounds (gs_arena g) (bc_spot_layout_version config) of
                  Some bounds \<Rightarrow> Inr bounds
                | None \<Rightarrow>
                    if bc_unlimited config then Inr (0, wrap_i16 (i16_of_u16 (ar_width (gs_arena g)) - 1))
                    else Inl (Err ''Boost layout is not drawable on this arena'')) (\<lambda>bounds.
               try_then (check_pads g config bounds {} {} (ar_boost_pads (gs_arena g))) (\<lambda>_.
               check_all (validate_boost_snake g config) (ar_snakes (gs_arena g))))))"

definition validate_plain_match :: "game_state \<Rightarrow> unit result" where
  "validate_plain_match g =
     (if boost_config_for (gs_game_type g) (ar_width (gs_arena g)) (ar_height (gs_arena g)) \<noteq> None
      then Inl (Err ''requires Boost configuration'')
      else if ar_boost_pads (gs_arena g) \<noteq> []
      then Inl (Err ''non-Boost match cannot contain Boost pads'')
      else check_all (validate_plain_snake g) (ar_snakes (gs_arena g)))"

definition validate_idle_kicked :: "game_state \<Rightarrow> u32 \<Rightarrow> unit result" where
  "validate_idle_kicked g user_id =
     (case hm_get (gs_players g) user_id of
        None \<Rightarrow> Inl (Err ''idle-kicked user is not a player'')
      | Some player \<Rightarrow>
          case snake_at g (pl_snake_id player) of
            None \<Rightarrow> Inl (Err ''idle-kicked user has no snake'')
          | Some s \<Rightarrow>
              if sn_alive s then Inl (Err ''idle-kicked user must have a dead snake'') else Inr ())"

definition validate_activity_tick :: "game_state \<Rightarrow> u32 \<times> u32 \<Rightarrow> unit result" where
  "validate_activity_tick g = (\<lambda>(user_id, activity_tick).
     if \<not> hm_contains (gs_players g) user_id \<or> activity_tick > gs_tick g
     then Inl (Err ''player activity tick must reference a current player at or before the snapshot tick'')
     else Inr ())"

definition validate_inactivity :: "game_state \<Rightarrow> unit result" where
  "validate_inactivity g =
     (let timeout_ms = gp_player_idle_timeout_ms (gs_properties g);
          warning_ms = gp_player_idle_warning_ms (gs_properties g);
          kicked = gs_idle_kicked_user_ids g
      in if timeout_ms = 0 \<or> warning_ms = 0 \<or> warning_ms \<ge> timeout_ms
         then Inl (Err ''player inactivity warning must be positive and shorter than timeout'')
         else if list_ex (\<lambda>(a, b). a \<ge> b) (zip kicked (tl kicked))
         then Inl (Err ''idle-kicked player IDs must be sorted and unique'')
         else try_then (check_all (validate_idle_kicked g) kicked) (\<lambda>_.
           try_then (check_all (validate_activity_tick g) (gs_player_last_activity_ticks g)) (\<lambda>_.
           if gs_completed_by_inactivity g \<and> \<not> is_complete g
           then Inl (Err ''inactivity completion marker requires a terminal game'')
           else Inr ())))"

definition validate_boost_invariants :: "game_state \<Rightarrow> unit result" where
  "validate_boost_invariants g =
     try_then (combo_config_validate (gp_combo (gs_properties g))) (\<lambda>_.
     try_then (check_all (validate_snake_combo (gp_combo (gs_properties g))) (ar_snakes (gs_arena g))) (\<lambda>_.
     try_then (check_all (validate_food_pickup g) (hm_keys (gs_food_pickups g))) (\<lambda>_.
     try_then (check_all (validate_death_cause g) (gs_last_death_causes g)) (\<lambda>_.
     if (case gs_game_type g of Custom _ \<Rightarrow> False
         | t \<Rightarrow> gp_available_food_target (gs_properties g) \<noteq> food_target_for t)
     then Inl (Err ''requires another food target'')
     else try_then
       (case gp_boost (gs_properties g) of
          Some config \<Rightarrow> validate_boost_match g config
        | None \<Rightarrow> validate_plain_match g) (\<lambda>_.
     validate_inactivity g)))))"

section \<open>Construction\<close>

text \<open>
  The goal is a fifth of the height: 0.2 as an f32 is \<open>13421773 / 2 ^ 26\<close>, and the product is
  rounded to 24 bits before \<open>round()\<close>.
\<close>

definition goal_width_for :: "u16 \<Rightarrow> u16" where
  "goal_width_for height =
     (let scaled = f32_round (unat height * 13421773);
          w = max (of_nat ((scaled + 2 ^ 25) div 2 ^ 26)) 3 :: u16
      in if is_multiple_of w 2 then w + 1 else w)"

definition initial_properties ::
  "game_type \<Rightarrow> queue_mode \<Rightarrow> boost_config option \<Rightarrow> game_properties" where
  "initial_properties t queue boost =
     \<lparr>gp_available_food_target = food_target_for t,
      gp_tick_duration_ms =
        (case t of
           Custom cs \<Rightarrow> cg_tick_duration_ms cs
         | _ \<Rightarrow> if boost \<noteq> None then BOOST_TICK_INTERVAL_MS else DEFAULT_TICK_INTERVAL_MS),
      gp_time_limit_ms = None,
      gp_score_limit = (case t of TeamMatch _ \<Rightarrow> Some (team_score_limit queue) | _ \<Rightarrow> None),
      gp_boost = boost, gp_combo = combo_config_default,
      gp_player_idle_timeout_ms = DEFAULT_PLAYER_IDLE_TIMEOUT_MS,
      gp_player_idle_warning_ms = DEFAULT_PLAYER_IDLE_WARNING_MS\<rparr>"

definition initial_arena :: "u16 \<Rightarrow> u16 \<Rightarrow> game_type \<Rightarrow> boost_config option \<Rightarrow> arena" where
  "initial_arena width height t boost =
     (let a = \<lparr>ar_width = width, ar_height = height, ar_snakes = [], ar_food = [], ar_boost_pads = [],
               ar_team_zone_config =
                 (case t of
                    TeamMatch _ \<Rightarrow> Some \<lparr>end_zone_depth = 10, goal_width = goal_width_for height\<rparr>
                  | _ \<Rightarrow> None)\<rparr>
      in case boost of Some c \<Rightarrow> a\<lparr>ar_boost_pads := boost_pad_layout a c\<rparr> | None \<Rightarrow> a)"

definition initial_game_state ::
  "u16 \<Rightarrow> u16 \<Rightarrow> game_type \<Rightarrow> queue_mode \<Rightarrow> u64 option \<Rightarrow> i64 \<Rightarrow> game_state" where
  "initial_game_state width height t queue rng_seed start =
     (let boost = boost_config_for t width height in
      \<lparr>gs_tick = 0, gs_status = Stopped, gs_arena = initial_arena width height t boost,
       gs_recent_crashes = [], gs_recent_goals = [], gs_last_death_causes = [], gs_game_type = t,
       gs_queue_mode = queue, gs_is_stress_test = False,
       gs_properties = initial_properties t queue boost, gs_command_queue = command_queue_new,
       gs_players = [], gs_rng = map_option pseudo_random_new rng_seed, gs_game_code = None,
       gs_host_user_id = None, gs_start_ms = start, gs_event_sequence = 0, gs_usernames = [],
       gs_skins = [], gs_team_bases = [], gs_spectators = {}, gs_scores = [], gs_food_pickups = [],
       gs_team_scores =
         (case t of TeamMatch _ \<Rightarrow> Some (hm_insert (hm_insert [] 0 0) 1 0) | _ \<Rightarrow> None),
       gs_player_xp = [], gs_player_action_counts = [], gs_player_last_activity_ticks = [],
       gs_idle_kicked_user_ids = [], gs_completed_by_inactivity = False, gs_readiness = None,
       gs_simulation_epoch_ms = None\<rparr>)"

definition game_state_new ::
  "u16 \<Rightarrow> u16 \<Rightarrow> game_type \<Rightarrow> queue_mode \<Rightarrow> u64 option \<Rightarrow> i64 \<Rightarrow> game_state result" where
  "game_state_new width height t queue rng_seed start =
     (let state = initial_game_state width height t queue rng_seed start in
      if is_ok (validate_boost_invariants state) then Inr state
      else Inl (Panic ''new game must satisfy Boost invariants''))"

definition new_with_boost_config ::
  "u16 \<Rightarrow> u16 \<Rightarrow> game_type \<Rightarrow> queue_mode \<Rightarrow> u64 option \<Rightarrow> i64 \<Rightarrow> boost_config \<Rightarrow> game_state result" where
  "new_with_boost_config width height t queue rng_seed start config =
     try_then (boost_config_validate config) (\<lambda>_.
     if \<not> (case t of
             TeamMatch n \<Rightarrow> n = 1 \<or> n = 2 | FreeForAll _ \<Rightarrow> True | Solo \<Rightarrow> True | Custom _ \<Rightarrow> False)
     then Inl (Err ''explicit Boost configuration requires duel, 2v2, free-for-all or Solo'')
     else try_then (game_state_new width height t queue rng_seed start) (\<lambda>g.
       let g = g\<lparr>gs_properties := (gs_properties g)\<lparr>gp_boost := Some config\<rparr>\<rparr>;
           g = g\<lparr>gs_arena := (gs_arena g)\<lparr>ar_boost_pads := boost_pad_layout (gs_arena g) config\<rparr>\<rparr>
       in try_then (validate_boost_invariants g) (\<lambda>_. Inr g)))"

definition is_legacy_completed_snapshot :: "game_state \<Rightarrow> bool" where
  "is_legacy_completed_snapshot g =
     (if \<not> is_complete g then False
      else if gp_boost (gs_properties g) = None then
        (case (case gs_game_type g of
                 TeamMatch n \<Rightarrow> if n = 1 \<or> n = 2 then Some (Some 90000) else None
               | Solo \<Rightarrow> Some None
               | FreeForAll _ \<Rightarrow> Some None
               | Custom _ \<Rightarrow> None) of
           None \<Rightarrow> False
         | Some legacy_time_limit_ms \<Rightarrow>
             boost_config_for (gs_game_type g) (ar_width (gs_arena g)) (ar_height (gs_arena g)) \<noteq> None \<and>
             gp_available_food_target (gs_properties g) = DEFAULT_FOOD_TARGET \<and>
             gp_tick_duration_ms (gs_properties g) = DEFAULT_TICK_INTERVAL_MS \<and>
             gp_time_limit_ms (gs_properties g) = legacy_time_limit_ms \<and>
             gp_score_limit (gs_properties g) = None \<and>
             ar_boost_pads (gs_arena g) = [] \<and>
             list_all (\<lambda>s. sn_speed s = NORMAL_SNAKE_SPEED_MILLI \<and> sn_credit s = 0 \<and>
                sn_boost s = snake_boost_default \<and> sn_combo s = snake_combo_default)
               (ar_snakes (gs_arena g)))
      else if \<not> (case gs_game_type g of TeamMatch n \<Rightarrow> n = 1 \<or> n = 2 | _ \<Rightarrow> False)
         \<or> gp_time_limit_ms (gs_properties g) \<noteq> Some 90000
         \<or> gp_score_limit (gs_properties g) \<noteq> None
      then False
      else is_ok (validate_boost_invariants
        (g\<lparr>gs_properties := (gs_properties g)\<lparr>gp_available_food_target := food_target_for (gs_game_type g),
             gp_time_limit_ms := None, gp_score_limit := Some (team_score_limit (gs_queue_mode g))\<rparr>\<rparr>)))"

end
