(* ===== verification/Events.thy ===== *)
theory Events
  imports Spawning Validate
begin

text \<open>
  Event application, admission of replicated events and command execution:
  \<open>apply_event\<close>, \<open>validate_replicated_event_transition\<close>, \<open>try_apply_replicated_event\<close>,
  \<open>set_boost_intent\<close> and \<open>exec_command\<close> of \<^verbatim>\<open>common/src/game_state.rs\<close>. \<open>apply_event\<close> is the
  \<open>match\<close> of the source; \<open>emit\<close> is the same call with an output vector, which numbers the event.
\<close>

section \<open>Applying an event\<close>

definition kill_snake :: "snake \<Rightarrow> snake" where
  "kill_snake s = reset_combo (reset_boost_and_movement None (s\<lparr>sn_alive := False\<rparr>))"

definition respawn_tail :: "nat \<Rightarrow> position \<Rightarrow> direction \<Rightarrow> position" where
  "respawn_tail starting_length p d =
     (let len = wrap_i16 (int starting_length) in
      case d of
        Left \<Rightarrow> \<lparr>px = wrap_i16 (wrap_i16 (px p + len) - 1), py = py p\<rparr>
      | Right \<Rightarrow> \<lparr>px = wrap_i16 (wrap_i16 (px p - len) + 1), py = py p\<rparr>
      | Up \<Rightarrow> \<lparr>px = px p, py = wrap_i16 (wrap_i16 (py p + len) - 1)\<rparr>
      | Down \<Rightarrow> \<lparr>px = px p, py = wrap_i16 (wrap_i16 (py p - len) + 1)\<rparr>)"

text \<open>The first pad with the identifier goes on cooldown.\<close>

fun cool_pad :: "u8 \<Rightarrow> u32 \<Rightarrow> boost_pad list \<Rightarrow> boost_pad list" where
  "cool_pad i t [] = []"
| "cool_pad i t (pad # pads) =
     (if bp_id pad = i then pad\<lparr>bp_respawn_at_tick := Some t\<rparr> # pads else pad # cool_pad i t pads)"

definition apply_food_eaten :: "u32 \<Rightarrow> position \<Rightarrow> u32 \<Rightarrow> u32 \<Rightarrow> u32 \<Rightarrow> game_state \<Rightarrow> game_state" where
  "apply_food_eaten i p points chain before g =
     (if combo_event_fields_are_bounded g points chain before \<and> snake_at g i \<noteq> None then
        let (g', removed) = remove_food p g in
        if removed then
          let g' = update_snake i (\<lambda>s. s\<lparr>sn_food := sat_add (sn_food s) points,
                sn_combo := \<lparr>chain_count = chain,
                             remaining_ms = cc_window_ms (gp_combo (gs_properties g'))\<rparr>\<rparr>) g'
          in g'\<lparr>gs_scores := hm_insert (gs_scores g') i (sat_add (hm_get_or (gs_scores g') i 0) points),
                gs_food_pickups := hm_insert (gs_food_pickups g') i (sat_add (hm_get_or (gs_food_pickups g') i 0) 1)\<rparr>
        else g'
      else g)"

definition apply_packet_collected :: "u8 \<Rightarrow> u32 \<Rightarrow> u32 \<Rightarrow> u32 \<Rightarrow> game_state \<Rightarrow> game_state" where
  "apply_packet_collected pad i charge t g =
     (let g = g\<lparr>gs_arena := (gs_arena g)\<lparr>ar_boost_pads := cool_pad pad t (ar_boost_pads (gs_arena g))\<rparr>\<rparr> in
      case gp_boost (gs_properties g) of
        None \<Rightarrow> g
      | Some c \<Rightarrow>
          if charge > 0 \<and> charge \<le> bc_capacity_ms c \<and> is_multiple_of charge BOOST_TICK_INTERVAL_MS
          then update_snake i (\<lambda>s. s\<lparr>sn_boost := (sn_boost s)\<lparr>charge_ms := charge\<rparr>\<rparr>) g
          else g)"

definition queue_command :: "game_command_message \<Rightarrow> game_state \<Rightarrow> game_state" where
  "queue_command m g =
     (let g = record_player_activity_for_command m (gs_tick g) g
      in g\<lparr>gs_command_queue := push m (gs_command_queue g)\<rparr>)"

definition discard_commands :: "u32 \<Rightarrow> game_state \<Rightarrow> game_state" where
  "discard_commands i g =
     g\<lparr>gs_command_queue := discard_player_commands_for_snake i (gs_command_queue g)\<rparr>"

fun apply_event :: "game_event \<Rightarrow> game_state \<Rightarrow> game_state" where
  "apply_event (Snapshot g') g = g'"
| "apply_event (SnakeTurned i d) g = update_snake i (\<lambda>s. s\<lparr>sn_direction := d\<rparr>) g"
| "apply_event (SnakeDied i cause) g =
     discard_commands i (update_snake i kill_snake
       (g\<lparr>gs_last_death_causes := hm_insert (gs_last_death_causes g) i cause\<rparr>))"
| "apply_event (PlayerIdleKicked u i) g =
     discard_commands i (update_snake i (\<lambda>s. (kill_snake s)\<lparr>sn_boost := snake_boost_default\<rparr>)
       (g\<lparr>gs_idle_kicked_user_ids := insert_sorted u (gs_idle_kicked_user_ids g)\<rparr>))"
| "apply_event (FoodSpawned p) g =
     (if has_food g p then g
      else g\<lparr>gs_arena := (gs_arena g)\<lparr>ar_food := ar_food (gs_arena g) @ [p]\<rparr>\<rparr>)"
| "apply_event (FoodEaten i p points chain before _) g = apply_food_eaten i p points chain before g"
| "apply_event (BoostPacketCollected pad i charge t) g = apply_packet_collected pad i charge t g"
| "apply_event (CommandScheduled m) g = queue_command m g"
| "apply_event (CommandScheduledV2 _ m deduplicated_replay) g =
     (if deduplicated_replay then g else queue_command m g)"
| "apply_event (CommandRejected _ _ client _) g =
     (case client of
        Some c \<Rightarrow> g\<lparr>gs_command_queue := discard_speculative_command c (gs_command_queue g)\<rparr>
      | None \<Rightarrow> g)"
| "apply_event (StatusUpdated st) g = g\<lparr>gs_status := st\<rparr>"
| "apply_event (PlayerReady u) g =
     (case gs_readiness g of
        Some r \<Rightarrow> g\<lparr>gs_readiness := Some (r\<lparr>ready_user_ids := insert u (ready_user_ids r)\<rparr>)\<rparr>
      | None \<Rightarrow> g)"
| "apply_event (MatchStartScheduled epoch) g =
     (if gs_readiness g \<noteq> None
      then g\<lparr>gs_readiness := None, gs_simulation_epoch_ms := Some epoch\<rparr> else g)"
| "apply_event (ScoreUpdated i score) g = g\<lparr>gs_scores := hm_insert (gs_scores g) i score\<rparr>"
| "apply_event (TeamScoreUpdated team score) g =
     (case gs_team_scores g of
        Some scores \<Rightarrow> g\<lparr>gs_team_scores := Some (hm_insert scores team score)\<rparr>
      | None \<Rightarrow> g)"
| "apply_event (SnakeRespawned i p d) g =
     (let t = respawn_tail (starting_snake_length g) p d;
          refill = unlimited_boost_capacity_ms g
      in discard_commands i (update_snake i (\<lambda>s.
           reset_combo (reset_boost_and_movement refill
             (s\<lparr>sn_body := [p, t], sn_direction := d, sn_alive := True, sn_food := 0\<rparr>))) g))"
| "apply_event (XPAwarded xp) g = g\<lparr>gs_player_xp := xp\<rparr>"
| "apply_event (TickHash _ _) g = g"

type_synonym numbered_events = "(u64 \<times> game_event) list"

definition emit :: "game_event \<Rightarrow> game_state \<times> numbered_events \<Rightarrow> game_state \<times> numbered_events" where
  "emit e = (\<lambda>(g, out).
     let g = g\<lparr>gs_event_sequence := gs_event_sequence g + 1\<rparr>
     in (apply_event e g, out @ [(gs_event_sequence g, e)]))"

section \<open>Replicated events\<close>

definition require_snake :: "game_state \<Rightarrow> u32 \<Rightarrow> snake result" where
  "require_snake g i =
     (case snake_at g i of
        Some s \<Rightarrow> Inr s | None \<Rightarrow> Inl (Err ''replicated event references missing snake''))"

definition validate_food_event :: "game_state \<Rightarrow> u32 \<Rightarrow> position \<Rightarrow> u32 \<Rightarrow> u32 \<Rightarrow> u32 \<Rightarrow> bool \<Rightarrow> unit result" where
  "validate_food_event g i p points chain before boosting =
     try_then (require_snake g i) (\<lambda>s.
     if \<not> combo_event_fields_are_bounded g points chain before
     then Inl (Err ''food event has invalid Combo award/context fields'')
     else if has_food g p then
       (if \<not> sn_alive s \<or> head s \<noteq> Inr p
        then Inl (Err ''food event snake is not alive on the pellet'')
        else if combo_pickup_context g s \<noteq> (points, chain, before, boosting)
        then Inl (Err ''food event Combo telemetry does not match authoritative pre-pickup state'')
        else Inr ())
     else Inr ())"

definition validate_kick_event :: "game_state \<Rightarrow> u32 \<Rightarrow> u32 \<Rightarrow> unit result" where
  "validate_kick_event g u i =
     try_then (require_snake g i) (\<lambda>s.
     case hm_get (gs_players g) u of
       None \<Rightarrow> Inl (Err ''idle-kick event references missing player'')
     | Some p \<Rightarrow>
         if pl_snake_id p \<noteq> i then Inl (Err ''idle-kick event snake is not owned by player'')
         else if is_player_idle_kicked g u \<and> sn_alive s
         then Inl (Err ''idle-kick event conflicts with a live removed player'')
         else Inr ())"

text \<open>The division by the tick duration panics when that is zero.\<close>

definition validate_packet_event :: "game_state \<Rightarrow> u8 \<Rightarrow> u32 \<Rightarrow> u32 \<Rightarrow> u32 \<Rightarrow> unit result" where
  "validate_packet_event g pad_id i charge_after respawn =
     (case gp_boost (gs_properties g) of
        None \<Rightarrow> Inl (Err ''Boost collection delta has no snapshotted Boost config'')
      | Some config \<Rightarrow>
        case find (\<lambda>pad. bp_id pad = pad_id) (ar_boost_pads (gs_arena g)) of
          None \<Rightarrow> Inl (Err ''Boost collection delta references missing pad'')
        | Some pad \<Rightarrow>
          try_then (require_snake g i) (\<lambda>s.
          if \<not> sn_alive s \<or> \<not> (case head s of Inr h \<Rightarrow> pad_contains pad h | Inl _ \<Rightarrow> False)
          then Inl (Err ''Boost collection delta snake is not alive on pad'')
          else if gp_tick_duration_ms (gs_properties g) = 0
          then Inl (Panic ''attempt to divide by zero'')
          else case checked_add (gs_tick g)
              (bc_pad_respawn_ms config div gp_tick_duration_ms (gs_properties g)) of
            None \<Rightarrow> Inl (Err ''Boost collection cooldown tick overflow'')
          | Some expected \<Rightarrow>
            if respawn \<noteq> expected
            then Inl (Err ''Boost collection delta has another respawn tick than expected'')
            else case bp_respawn_at_tick pad of
              Some existing \<Rightarrow>
                if existing = respawn \<and> charge_ms (sn_boost s) = charge_after then Inr ()
                else Inl (Err ''Boost collection delta conflicts with pad cooldown'')
            | None \<Rightarrow>
                if charge_ms (sn_boost s) \<ge> bc_capacity_ms config \<or>
                   charge_after \<noteq> min (sat_add (charge_ms (sn_boost s)) (bp_charge_ms pad)) (bc_capacity_ms config)
                then Inl (Err ''Boost collection delta has another charge than expected'')
                else Inr ()))"

definition validate_command_event :: "game_state \<Rightarrow> game_command_message \<Rightarrow> unit result" where
  "validate_command_event g m =
     (case command_snake (command m) of
        Some i \<Rightarrow> try_then (require_snake g i) (\<lambda>_. Inr ())
      | None \<Rightarrow> Inr ())"

fun validate_replicated_event_transition :: "game_event \<Rightarrow> game_state \<Rightarrow> unit result" where
  "validate_replicated_event_transition (Snapshot g') g = validate_boost_invariants g'"
| "validate_replicated_event_transition (SnakeTurned i _) g = try_then (require_snake g i) (\<lambda>_. Inr ())"
| "validate_replicated_event_transition (ScoreUpdated i _) g = try_then (require_snake g i) (\<lambda>_. Inr ())"
| "validate_replicated_event_transition (SnakeRespawned i _ _) g = try_then (require_snake g i) (\<lambda>_. Inr ())"
| "validate_replicated_event_transition (SnakeDied i cause) g =
     try_then (require_snake g i) (\<lambda>_.
     case attributed_snake_id cause of
       Some k \<Rightarrow> try_then (require_snake g k) (\<lambda>_. Inr ())
     | None \<Rightarrow> Inr ())"
| "validate_replicated_event_transition (FoodEaten i p points chain before boosting) g =
     validate_food_event g i p points chain before boosting"
| "validate_replicated_event_transition (PlayerIdleKicked u i) g = validate_kick_event g u i"
| "validate_replicated_event_transition (BoostPacketCollected pad i charge respawn) g =
     validate_packet_event g pad i charge respawn"
| "validate_replicated_event_transition (CommandScheduled m) g = validate_command_event g m"
| "validate_replicated_event_transition (CommandScheduledV2 _ m _) g = validate_command_event g m"
| "validate_replicated_event_transition (TeamScoreUpdated team _) g =
     (if \<not> (case gs_team_scores g of Some scores \<Rightarrow> hm_contains scores team | None \<Rightarrow> False)
      then Inl (Err ''replicated score event references missing team'') else Inr ())"
| "validate_replicated_event_transition (PlayerReady u) g =
     (if \<not> hm_contains (gs_players g) u
      then Inl (Err ''replicated readiness references a user who is not a player'') else Inr ())"
| "validate_replicated_event_transition (FoodSpawned _) g = Inr ()"
| "validate_replicated_event_transition (CommandRejected _ _ _ _) g = Inr ()"
| "validate_replicated_event_transition (StatusUpdated _) g = Inr ()"
| "validate_replicated_event_transition (MatchStartScheduled _) g = Inr ()"
| "validate_replicated_event_transition (XPAwarded _) g = Inr ()"
| "validate_replicated_event_transition (TickHash _ _) g = Inr ()"

definition try_apply_replicated_event :: "game_event \<Rightarrow> game_state \<Rightarrow> game_state \<times> unit result" where
  "try_apply_replicated_event e g =
     (case validate_replicated_event_transition e g of
        Inl err \<Rightarrow> (g, Inl err)
      | Inr _ \<Rightarrow>
          let candidate = apply_event e g in
          case validate_boost_invariants candidate of
            Inl err \<Rightarrow> (g, Inl err)
          | Inr _ \<Rightarrow> (candidate, Inr ()))"

section \<open>Executing a command\<close>

definition latch_boost_intent :: "u32 \<Rightarrow> bool \<Rightarrow> game_state \<Rightarrow> game_state" where
  "latch_boost_intent i wants_boost g =
     (if gp_boost (gs_properties g) = None then g
      else case snake_at g i of
        None \<Rightarrow> g
      | Some s \<Rightarrow>
          let (s', changed) = set_boost_intent wants_boost s;
              g = update_snake i (\<lambda>_. s') g
          in if changed then record_player_action_for_snake i g else g)"

definition exec_turn :: "u32 \<Rightarrow> direction \<Rightarrow> game_state \<Rightarrow> (game_state \<times> numbered_events) result" where
  "exec_turn i d g =
     (case snake_at g i of
        None \<Rightarrow> Inl (Err ''Snake not found'')
      | Some s \<Rightarrow>
          if sn_alive s \<and> sn_direction s \<noteq> d then
            (if is_opposite (sn_direction s) d \<or> is_opposite (travel_direction s) d then Inr (g, [])
             else
               let (g, out) = emit (SnakeTurned i d) (g, [])
               in Inr (record_player_action_for_snake i g, out))
          else Inr (g, []))"

fun exec_command :: "game_command \<Rightarrow> game_state \<Rightarrow> (game_state \<times> numbered_events) result" where
  "exec_command (Turn i d) g = exec_turn i d g"
| "exec_command (ActivateBoost i) g = Inr (latch_boost_intent i True g, [])"
| "exec_command (DeactivateBoost i) g = Inr (latch_boost_intent i False g, [])"
| "exec_command (PlayerActivity _) g = Inr (g, [])"
| "exec_command (UpdateStatus _) g = Inr (g, [])"

end
