(* ===== verification/Inactivity.thy ===== *)
theory Inactivity
  imports Events
begin

text \<open>
  The inactivity policy of \<^verbatim>\<open>common/src/game_state.rs\<close>: tracking, the contenders, the winner that
  inactivity leaves, the experience it awards, and the batch that one tick resolves.
\<close>

section \<open>Definitions\<close>

text \<open>\<open>Iterator::min_by_key\<close> returns the first element with the least key.\<close>

definition min_by_key :: "('a \<Rightarrow> 'k::linorder) \<Rightarrow> 'a list \<Rightarrow> 'a option" where
  "min_by_key f xs =
     (case xs of
        [] \<Rightarrow> None
      | x # xs \<Rightarrow> Some (foldl (\<lambda>a b. if f b < f a then b else a) x xs))"

definition ensure_player_idle_tracking :: "game_state \<Rightarrow> game_state" where
  "ensure_player_idle_tracking g =
     g\<lparr>gs_player_last_activity_ticks :=
         foldl (\<lambda>m u. if hm_contains m u then m else hm_insert m u (gs_tick g))
           (gs_player_last_activity_ticks g) (hm_keys (gs_players g))\<rparr>"

definition is_team_game :: "game_state \<Rightarrow> bool" where
  "is_team_game g \<longleftrightarrow> is_team_match (gs_game_type g) \<or> gs_team_scores g \<noteq> None"

definition player_is_idle_contender :: "game_state \<Rightarrow> u32 \<times> player \<Rightarrow> bool" where
  "player_is_idle_contender g = (\<lambda>(user_id, p).
     if is_player_idle_kicked g user_id then False
     else if is_team_game g then True
     else case snake_at g (pl_snake_id p) of Some s \<Rightarrow> sn_alive s | None \<Rightarrow> False)"

definition player_team :: "game_state \<Rightarrow> player \<Rightarrow> team_id option" where
  "player_team g p = (case snake_at g (pl_snake_id p) of Some s \<Rightarrow> sn_team s | None \<Rightarrow> None)"

definition inactivity_winning_snake_id :: "game_state \<Rightarrow> u32 option option" where
  "inactivity_winning_snake_id g =
     (let active_players = filter (player_is_idle_contender g) (gs_players g) in
      if is_team_game g then
        (case remdups_adj (sort (List.map_filter (\<lambda>(_, p). player_team g p) active_players)) of
           [] \<Rightarrow> Some None
         | [winning_team] \<Rightarrow>
             Some (map_option snd (min_by_key fst
               (map (\<lambda>(u, p). (u, pl_snake_id p))
                 (filter (\<lambda>(_, p). player_team g p = Some winning_team) active_players))))
         | _ \<Rightarrow> None)
      else
        (case active_players of
           [] \<Rightarrow> Some None
         | [(_, p)] \<Rightarrow> Some (Some (pl_snake_id p))
         | _ \<Rightarrow> None))"

definition inactivity_xp_awards :: "game_state \<Rightarrow> u32 option \<Rightarrow> (u32, u32) hash_map" where
  "inactivity_xp_awards g winner =
     (let winning_team =
            (case winner of
               None \<Rightarrow> None
             | Some i \<Rightarrow> (case snake_at g i of Some s \<Rightarrow> sn_team s | None \<Rightarrow> None))
      in map (\<lambda>(u, p).
           if is_player_idle_kicked g u then (u, 0)
           else
             let pickups = hm_get_or (gs_food_pickups g) (pl_snake_id p) 0;
                 won = (case winner of
                     None \<Rightarrow> False
                   | Some i \<Rightarrow> pl_snake_id p = i \<or> winning_team \<noteq> None \<and> player_team g p = winning_team)
             in (u, sat_mul pickups 10 + (if won then 50 else 10))) (gs_players g))"

definition idle_ms :: "game_state \<Rightarrow> u32 \<Rightarrow> u32 \<Rightarrow> u32" where
  "idle_ms g post_tick u =
     sat_mul (sat_sub post_tick (hm_get_or (gs_player_last_activity_ticks g) u (gs_tick g)))
       (max (gp_tick_duration_ms (gs_properties g)) 1)"

definition expired_players :: "game_state \<Rightarrow> u32 \<Rightarrow> (u32 \<times> u32) list" where
  "expired_players g post_tick =
     (let tick_duration = max (gp_tick_duration_ms (gs_properties g)) 1;
          timeout = max (gp_player_idle_timeout_ms (gs_properties g)) tick_duration
      in sort_key fst
           (map (\<lambda>(u, p). (u, pl_snake_id p))
             (filter (\<lambda>(u, _). timeout \<le> idle_ms g post_tick u)
               (filter (player_is_idle_contender g) (gs_players g)))))"

definition resolve_player_inactivity ::
  "u32 \<Rightarrow> game_state \<times> numbered_events \<Rightarrow> (game_state \<times> numbered_events) \<times> bool" where
  "resolve_player_inactivity post_tick = (\<lambda>(g, out).
     if \<not> is_started (gs_status g) \<or> length (gs_players g) < 2 then ((g, out), False)
     else
       let g = ensure_player_idle_tracking g;
           expired = expired_players g post_tick
       in if expired = [] then ((g, out), False)
          else
            let (g, out) = foldl (\<lambda>st (u, i). emit (PlayerIdleKicked u i) st) (g, out) expired
            in case inactivity_winning_snake_id g of
                 None \<Rightarrow> ((g, out), False)
               | Some winner \<Rightarrow>
                   let g = g\<lparr>gs_completed_by_inactivity := True\<rparr>;
                       st = emit (XPAwarded (inactivity_xp_awards g winner)) (g, out)
                   in (emit (StatusUpdated (Complete winner)) st, True))"

end
