(* ===== verification/Tick.thy ===== *)
theory Tick
  imports Inactivity
begin

text \<open>
  One simulation quantum, \<open>tick_forward_observing_boost\<close> of \<^verbatim>\<open>common/src/game_state.rs\<close>, as the
  sequence of its phases. A phase takes the state and the events emitted so far; the transitions
  reported to the boost observer are collected in a list. A phase that the source can leave by
  \<open>?\<close> or a panic returns a \<open>result\<close>; the state such an early exit would leave behind is not
  described.
\<close>

section \<open>Before movement\<close>

datatype boost_lifecycle_transition =
    BoostActivated u32
  | BoostDepleted u32
  | BoostManuallyStopped u32

definition tick_ms :: "game_state \<Rightarrow> u32" where
  "tick_ms g = max (gp_tick_duration_ms (gs_properties g)) 1"

definition age_ms :: "game_state \<Rightarrow> u32 \<Rightarrow> u32" where
  "age_ms g t = sat_mul (sat_sub (gs_tick g) t) (tick_ms g)"

definition begin_tick :: "game_state \<Rightarrow> game_state \<times> numbered_events" where
  "begin_tick g =
     (let g = g\<lparr>gs_recent_crashes :=
            filter (\<lambda>c. age_ms g (cr_tick c) \<le> RECENT_CRASH_RETENTION_MS) (gs_recent_crashes g)\<rparr>;
          g = g\<lparr>gs_recent_goals :=
            filter (\<lambda>c. age_ms g (tg_tick c) \<le> RECENT_GOAL_RETENTION_MS) (gs_recent_goals g)\<rparr>
      in if gs_tick g = 0
         then let g = g\<lparr>gs_event_sequence := gs_event_sequence g + 1\<rparr>
              in (g, [(gs_event_sequence g, Snapshot g)])
         else (g, []))"

definition drain_combos :: "game_state \<Rightarrow> game_state" where
  "drain_combos g = map_snakes (drain_combo (tick_ms g)) g"

definition ready_pads :: "u32 \<Rightarrow> game_state \<Rightarrow> game_state" where
  "ready_pads post_tick g =
     g\<lparr>gs_arena := (gs_arena g)\<lparr>ar_boost_pads :=
         map (\<lambda>pad. if (case bp_respawn_at_tick pad of Some t \<Rightarrow> t \<le> post_tick | None \<Rightarrow> False)
                    then pad\<lparr>bp_respawn_at_tick := None\<rparr> else pad) (ar_boost_pads (gs_arena g))\<rparr>\<rparr>"

text \<open>Everything but turns executes as it is popped; turns wait for the movers.\<close>

definition exec_now ::
  "game_command \<Rightarrow> game_state \<times> numbered_events \<Rightarrow> game_state \<times> numbered_events" where
  "exec_now c = (\<lambda>(g, out).
     case exec_command c g of Inl _ \<Rightarrow> (g, out) | Inr (g, events) \<Rightarrow> (g, out @ events))"

definition is_turn :: "game_command \<Rightarrow> bool" where
  "is_turn c = (case c of Turn _ _ \<Rightarrow> True | _ \<Rightarrow> False)"

lemma exec_now_queue:
  "\<not> is_turn c \<Longrightarrow> gs_command_queue (fst (exec_now c (g, out))) = gs_command_queue g"
  by (cases c)
    (simp_all add: exec_now_def is_turn_def latch_boost_intent_def update_snake_def Let_def
      record_player_action_for_snake_def split: option.split prod.split)

function pop_commands ::
  "game_state \<Rightarrow> numbered_events \<Rightarrow> game_command_message list
   \<Rightarrow> game_state \<times> numbered_events \<times> game_command_message list" where
  "pop_commands g out turns =
     (case pop (gs_tick g) (gs_command_queue g) of
        (q, None) \<Rightarrow> (g\<lparr>gs_command_queue := q\<rparr>, out, turns)
      | (q, Some m) \<Rightarrow>
          let g = g\<lparr>gs_command_queue := q\<rparr> in
          if is_turn (command m) then pop_commands g out (turns @ [m])
          else let st = exec_now (command m) (g, out) in pop_commands (fst st) (snd st) turns)"
  by pat_completeness auto
termination
  by (relation "measure (\<lambda>(g, _, _). length (cq_queue (gs_command_queue g)))")
    (auto simp: exec_now_queue dest: pop_length [OF sym])

declare pop_commands.simps [simp del]

section \<open>Boost and movement credit\<close>

definition resolve_boosts :: "game_state \<Rightarrow> game_state \<times> boost_lifecycle_transition list" where
  "resolve_boosts g =
     (case gp_boost (gs_properties g) of
        None \<Rightarrow> (g, [])
      | Some c \<Rightarrow>
          let step = resolve_boost (bc_speed_milli c) (bc_capacity_ms c);
              report = (\<lambda>(i, s). case snd (step s) of
                  Some Activated \<Rightarrow> [BoostActivated i]
                | Some Deactivated \<Rightarrow> [BoostManuallyStopped i]
                | None \<Rightarrow> [])
          in (map_snakes (\<lambda>s. fst (step s)) g, concat (map report (iter_snakes g))))"

definition reserve_quanta :: "game_state \<Rightarrow> game_state" where
  "reserve_quanta g =
     (let unlimited = (case gp_boost (gs_properties g) of Some c \<Rightarrow> bc_unlimited c | None \<Rightarrow> False)
      in map_snakes (\<lambda>s. fst (reserve_boost_quantum unlimited s)) g)"

fun accrue_all :: "u32 \<Rightarrow> u32 \<Rightarrow> nat \<Rightarrow> snake list \<Rightarrow> (snake list \<times> u32 set) result" where
  "accrue_all tick interval i [] = Inr ([], {})"
| "accrue_all tick interval i (s # ss) =
     try_then (accrue_movement_credit tick interval s) (\<lambda>(s, moves).
     try_then (accrue_all tick interval (Suc i) ss) (\<lambda>(ss, movers).
       Inr (s # ss, if moves then insert (of_nat i) movers else movers)))"

definition accrue_credits :: "game_state \<Rightarrow> (game_state \<times> u32 set) result" where
  "accrue_credits g =
     try_then (accrue_all (tick_ms g) (normal_movement_interval_ms g) 0 (ar_snakes (gs_arena g)))
       (\<lambda>(ss, movers). Inr (g\<lparr>gs_arena := (gs_arena g)\<lparr>ar_snakes := ss\<rparr>\<rparr>, movers))"

section \<open>Turns\<close>

record turn_phase =
  tp_state :: game_state
  tp_out :: numbered_events
  tp_turned :: "u32 set"
  tp_deferred :: "game_command_message list"

definition turned_in :: "numbered_events \<Rightarrow> u32 set" where
  "turned_in events = set (List.map_filter (\<lambda>(_, e). case e of SnakeTurned i _ \<Rightarrow> Some i | _ \<Rightarrow> None) events)"

definition turn_step :: "u32 set \<Rightarrow> turn_phase \<Rightarrow> game_command_message \<Rightarrow> turn_phase" where
  "turn_step movers ph m =
     (case command m of
        Turn i _ \<Rightarrow>
          let alive = (case snake_at (tp_state ph) i of Some s \<Rightarrow> sn_alive s | None \<Rightarrow> False) in
          if alive \<and> (i \<notin> movers \<or> i \<in> tp_turned ph)
          then ph\<lparr>tp_deferred := tp_deferred ph @ [m]\<rparr>
          else (case exec_command (command m) (tp_state ph) of
                  Inl _ \<Rightarrow> ph
                | Inr (g, events) \<Rightarrow>
                    ph\<lparr>tp_state := g, tp_out := tp_out ph @ events,
                       tp_turned := tp_turned ph \<union> turned_in events\<rparr>)
      | _ \<Rightarrow> ph)"

definition defer_message :: "u32 \<Rightarrow> game_command_message \<Rightarrow> game_command_message" where
  "defer_message next_tick m =
     (case command_id_server m of
        Some i \<Rightarrow> m\<lparr>command_id_server := Some (CommandId next_tick (cid_user_id i) (cid_sequence_number i))\<rparr>
      | None \<Rightarrow> m\<lparr>command_id_client :=
          CommandId next_tick (cid_user_id (command_id_client m)) (cid_sequence_number (command_id_client m))\<rparr>)"

definition apply_turns ::
  "u32 set \<Rightarrow> game_command_message list \<Rightarrow> game_state \<times> numbered_events \<Rightarrow> game_state \<times> numbered_events" where
  "apply_turns movers turns = (\<lambda>(g, out).
     let ph = foldl (turn_step movers)
           \<lparr>tp_state = g, tp_out = out, tp_turned = {}, tp_deferred = []\<rparr> turns;
         g = tp_state ph;
         q = foldl (\<lambda>q m. push (defer_message (gs_tick g + 1) m) q) (gs_command_queue g) (tp_deferred ph)
     in (g\<lparr>gs_command_queue := q\<rparr>, tp_out ph))"

section \<open>Movement and collisions\<close>

definition move_snakes :: "u32 set \<Rightarrow> game_state \<Rightarrow> game_state" where
  "move_snakes movers g =
     g\<lparr>gs_arena := (gs_arena g)\<lparr>ar_snakes :=
         map (\<lambda>(i, s). if i \<in> movers then step_forward s else s) (iter_snakes g)\<rparr>\<rparr>"

text \<open>The first living snake whose body the head touches, and the attribution of the death.\<close>

fun hit_others ::
  "u32 set \<Rightarrow> snake list \<Rightarrow> u32 \<Rightarrow> position \<Rightarrow> (u32 \<times> snake) list \<Rightarrow> death_cause option result" where
  "hit_others movers old i h [] = Inr None"
| "hit_others movers old i h ((j, other) # others) =
     (if sn_alive other \<and> contains_point other h (i = j) then
        (if i = j then Inr (Some SelfCollision)
         else if is_head other h then Inr (Some (HeadToHead j))
         else if j \<in> movers then
           try_then (head (old ! unat i)) (\<lambda>old_head.
           try_then (head other) (\<lambda>other_head.
           if old_head = other_head then
             try_then (head (old ! unat j)) (\<lambda>old_other.
             Inr (Some (if old_other = h then HeadToHead j else SnakeBody j)))
           else Inr (Some (SnakeBody j))))
         else Inr (Some (SnakeBody j)))
      else hit_others movers old i h others)"

definition collision_of ::
  "u32 set \<Rightarrow> snake list \<Rightarrow> game_state \<Rightarrow> u32 \<times> snake \<Rightarrow> (u32 \<times> position \<times> death_cause) option result" where
  "collision_of movers old g = (\<lambda>(i, s).
     try_then (head s) (\<lambda>h.
     if sn_alive s \<and> i \<in> movers then
       if is_wall_position (gs_arena g) h then Inr (Some (i, h, Wall))
       else if (case sn_team s of Some t \<Rightarrow> is_in_enemy_base (gs_arena g) h t | None \<Rightarrow> False)
       then Inr (Some (i, h, EnemyBase))
       else if \<not> (px h \<ge> 0 \<and> px h < i16_of_u16 (ar_width (gs_arena g)) \<and>
                  py h \<ge> 0 \<and> py h < i16_of_u16 (ar_height (gs_arena g)))
       then Inr (Some (i, h, OutOfBounds))
       else try_then (hit_others movers old i h (iter_snakes g)) (\<lambda>hit.
         Inr (map_option (\<lambda>cause. (i, h, cause)) hit))
     else Inr None))"

fun collisions ::
  "u32 set \<Rightarrow> snake list \<Rightarrow> game_state \<Rightarrow> (u32 \<times> snake) list
   \<Rightarrow> (u32 \<times> position \<times> death_cause) list result" where
  "collisions movers old g [] = Inr []"
| "collisions movers old g (s # ss) =
     try_then (collision_of movers old g s) (\<lambda>c.
     try_then (collisions movers old g ss) (\<lambda>cs.
       Inr (case c of Some crash \<Rightarrow> crash # cs | None \<Rightarrow> cs)))"

definition clamp_axis :: "i16 \<Rightarrow> i16 \<Rightarrow> i16 result" where
  "clamp_axis dimension z =
     (let hi = max (dimension - 1) (- 32768) in
      if hi < 0 then Inl (Panic ''min > max'') else Inr (clamp_int 0 hi z))"

definition maybe_respawn :: "u32 \<Rightarrow> game_state \<times> numbered_events \<Rightarrow> (game_state \<times> numbered_events) result" where
  "maybe_respawn i st =
     try_then (respawn_event_for_snake (fst st) i) (\<lambda>event.
     Inr (case event of Some e \<Rightarrow> emit e st | None \<Rightarrow> st))"

definition crash_snake ::
  "snake list \<Rightarrow> u32 \<times> position \<times> death_cause \<Rightarrow> game_state \<times> numbered_events
   \<Rightarrow> (game_state \<times> numbered_events) result" where
  "crash_snake old = (\<lambda>(i, h, cause) (g, out).
     let g = update_snake i (\<lambda>_. old ! unat i) g in
     try_then (clamp_axis (i16_of_u16 (ar_width (gs_arena g))) (px h)) (\<lambda>x.
     try_then (clamp_axis (i16_of_u16 (ar_height (gs_arena g))) (py h)) (\<lambda>y.
     let g = g\<lparr>gs_recent_crashes := gs_recent_crashes g @
           [\<lparr>cr_tick = sat_add (gs_tick g) 1, cr_snake_id = i, cr_position = \<lparr>px = x, py = y\<rparr>, cr_cause = cause\<rparr>]\<rparr>;
         st = emit (SnakeDied i cause) (g, out)
     in if is_team_match (gs_game_type (fst st)) then maybe_respawn i st else Inr st)))"

definition crash_phase ::
  "u32 set \<Rightarrow> snake list \<Rightarrow> game_state \<times> numbered_events \<Rightarrow> (game_state \<times> numbered_events) result" where
  "crash_phase movers old st =
     try_then (collisions movers old (fst st) (iter_snakes (fst st))) (\<lambda>crashed.
     fold_result (crash_snake old) (sort_key fst crashed) st)"

section \<open>Food and packets\<close>

text \<open>The pickups of this quantum, in snake order; a cell feeds the first snake that claims it.\<close>

fun food_pickups ::
  "game_state \<Rightarrow> position set \<Rightarrow> (u32 \<times> snake) list \<Rightarrow> game_event list result" where
  "food_pickups g claimed [] = Inr []"
| "food_pickups g claimed ((i, s) # ss) =
     try_then (head s) (\<lambda>h.
     if sn_alive s \<and> h \<in> set (ar_food (gs_arena g)) \<and> h \<notin> claimed then
       let (points, chain, before, boosting) = combo_pickup_context g s in
       try_then (food_pickups g (insert h claimed) ss) (\<lambda>events.
       Inr (FoodEaten i h points chain before boosting # events))
     else food_pickups g claimed ss)"

definition eat_one :: "game_state \<times> numbered_events \<Rightarrow> game_event \<Rightarrow> game_state \<times> numbered_events" where
  "eat_one st e =
     (let i = fe_snake e;
          old_score = hm_get_or (gs_scores (fst st)) i 0;
          st = emit e st;
          score = hm_get_or (gs_scores (fst st)) i 0
      in if score \<noteq> old_score then emit (ScoreUpdated i score) st else st)"

definition eat_phase :: "game_state \<times> numbered_events \<Rightarrow> (game_state \<times> numbered_events) result" where
  "eat_phase st =
     try_then (food_pickups (fst st) {} (iter_snakes (fst st))) (\<lambda>events.
     Inr (foldl eat_one st events))"

definition head_on_pad :: "boost_pad \<Rightarrow> snake \<Rightarrow> bool" where
  "head_on_pad pad s = (case head s of Inr h \<Rightarrow> pad_contains pad h | Inl _ \<Rightarrow> False)"

definition collector_of :: "game_state \<Rightarrow> boost_pad \<Rightarrow> u32 option" where
  "collector_of g pad =
     (let ids = map fst (filter (\<lambda>(_, s). sn_alive s \<and> head_on_pad pad s) (iter_snakes g))
      in if ids = [] then None else Some (Min (set ids)))"

definition collect_pad ::
  "boost_config \<Rightarrow> u32 \<Rightarrow> game_state \<times> numbered_events \<Rightarrow> boost_pad \<Rightarrow> game_state \<times> numbered_events" where
  "collect_pad c post_tick = (\<lambda>(g, out) pad.
     case collector_of g pad of
       None \<Rightarrow> (g, out)
     | Some i \<Rightarrow>
         (case snake_at g i of
            None \<Rightarrow> (g, out)
          | Some s \<Rightarrow>
              let (s', charge_after) = collect_boost_charge (bp_charge_ms pad) (bc_capacity_ms c) s;
                  g = update_snake i (\<lambda>_. s') g
              in case charge_after of
                   None \<Rightarrow> (g, out)
                 | Some charge \<Rightarrow>
                     emit (BoostPacketCollected (bp_id pad) i charge
                       (sat_add post_tick (bc_pad_respawn_ms c div tick_ms g))) (g, out)))"

definition pad_phase :: "u32 \<Rightarrow> game_state \<times> numbered_events \<Rightarrow> game_state \<times> numbered_events" where
  "pad_phase post_tick st =
     (case gp_boost (gs_properties (fst st)) of
        None \<Rightarrow> st
      | Some c \<Rightarrow>
          foldl (collect_pad c post_tick) st
            (sort_key bp_id (filter (\<lambda>pad. bp_respawn_at_tick pad = None) (ar_boost_pads (gs_arena (fst st))))))"

definition finalize_boosts :: "game_state \<Rightarrow> game_state \<times> boost_lifecycle_transition list" where
  "finalize_boosts g =
     (map_snakes (\<lambda>s. fst (finalize_boost_depletion s)) g,
      List.map_filter (\<lambda>(i, s). if snd (finalize_boost_depletion s) then Some (BoostDepleted i) else None)
        (iter_snakes g))"

definition spawn_food_phase ::
  "box_muller \<Rightarrow> bool \<Rightarrow> game_state \<times> numbered_events \<Rightarrow> (game_state \<times> numbered_events) result" where
  "spawn_food_phase bm movement_only = (\<lambda>(g, out).
     if \<not> movement_only \<and> food_refill_due g \<and>
        length (ar_food (gs_arena g)) < gp_available_food_target (gs_properties g)
     then (case gs_rng g of
             None \<Rightarrow> Inr (g, out)
           | Some r \<Rightarrow>
               try_then (sample_food_position bm (gs_game_type g) (gs_arena g) r) (\<lambda>(p, r).
               let g = g\<lparr>gs_rng := Some r\<rparr>
               in Inr (if food_position_free g p then emit (FoodSpawned p) (g, out) else (g, out))))
     else Inr (g, out))"

section \<open>Goals and scores\<close>

definition goal_cue :: "u32 set \<Rightarrow> snake list \<Rightarrow> game_state \<Rightarrow> u32 \<times> snake \<Rightarrow> team_goal option" where
  "goal_cue movers old g = (\<lambda>(i, s).
     if \<not> sn_alive s \<or> i \<notin> movers then None
     else case (sn_team s, head s) of
       (Some team, Inr h) \<Rightarrow>
         if \<not> is_in_team_base (gs_arena g) h team then None
         else if (case get_at old (unat i) of
                    Some previous \<Rightarrow>
                      (case head previous of
                         Inr p \<Rightarrow> is_in_team_base (gs_arena g) p team | Inl _ \<Rightarrow> False)
                  | None \<Rightarrow> False)
         then None
         else if carried_food g s = 0 then None
         else Some \<lparr>tg_tick = sat_add (gs_tick g) 1, tg_team_id = team, tg_snake_id = i,
                    tg_position = h, tg_points = carried_food g s\<rparr>
     | _ \<Rightarrow> None)"

definition goal_cue_phase :: "u32 set \<Rightarrow> snake list \<Rightarrow> game_state \<Rightarrow> game_state" where
  "goal_cue_phase movers old g =
     (if is_team_match (gs_game_type g) \<and> gs_team_scores g \<noteq> None
      then g\<lparr>gs_recent_goals := gs_recent_goals g @ List.map_filter (goal_cue movers old g) (iter_snakes g)\<rparr>
      else g)"

text \<open>What a snake banks: its team and the food it carries, when it is alive in its own base.\<close>

definition banking :: "game_state \<Rightarrow> u32 \<times> snake \<Rightarrow> (u32 \<times> team_id \<times> u32) option" where
  "banking g = (\<lambda>(i, s).
     if \<not> sn_alive s then None
     else case (sn_team s, head s) of
       (Some team, Inr h) \<Rightarrow>
         if \<not> is_in_team_base (gs_arena g) h team then None
         else if carried_food g s = 0 then None
         else Some (i, team, carried_food g s)
     | _ \<Rightarrow> None)"

definition bank_team ::
  "game_state \<times> numbered_events \<Rightarrow> team_id \<times> u32 \<Rightarrow> game_state \<times> numbered_events" where
  "bank_team st = (\<lambda>(team, delta).
     let current = (case gs_team_scores (fst st) of Some scores \<Rightarrow> hm_get_or scores team 0 | None \<Rightarrow> 0)
     in emit (TeamScoreUpdated team (current + delta)) st)"

definition bank_respawn :: "u32 \<Rightarrow> game_state \<times> numbered_events \<Rightarrow> (game_state \<times> numbered_events) result" where
  "bank_respawn i st = maybe_respawn i (emit (SnakeDied i Banked) st)"

definition score_phase :: "game_state \<times> numbered_events \<Rightarrow> (game_state \<times> numbered_events) result" where
  "score_phase st =
     (if is_team_match (gs_game_type (fst st)) \<and> gs_team_scores (fst st) \<noteq> None then
        let banked = List.map_filter (banking (fst st)) (iter_snakes (fst st));
            deltas = foldl (\<lambda>m (_, team, food). hm_insert m team (hm_get_or m team 0 + food)) [] banked
        in fold_result bank_respawn (map fst banked) (foldl bank_team st (sort_key fst deltas))
      else Inr st)"

section \<open>Completion\<close>

definition leading_team :: "(team_id, u32) hash_map \<Rightarrow> team_id option" where
  "leading_team scores =
     (if scores = [] then None
      else case filter (\<lambda>(_, score). score = Max (set (map snd scores))) scores of
        [(team, _)] \<Rightarrow> Some team
      | _ \<Rightarrow> None)"

definition winning_snake_of :: "game_state \<Rightarrow> team_id option \<Rightarrow> u32 option" where
  "winning_snake_of g winner =
     (case winner of
        None \<Rightarrow> None
      | Some team \<Rightarrow>
          (case find (\<lambda>(_, s). sn_team s = Some team \<and> sn_alive s) (iter_snakes g) of
             Some (i, _) \<Rightarrow> Some i
           | None \<Rightarrow> map_option fst (find (\<lambda>(_, s). sn_team s = Some team) (iter_snakes g))))"

text \<open>Indexing the snakes by a player's snake identifier panics when it is out of range.\<close>

fun team_xp_awards ::
  "game_state \<Rightarrow> team_id option \<Rightarrow> (u32 \<times> player) list \<Rightarrow> (u32, u32) hash_map result" where
  "team_xp_awards g winner [] = Inr []"
| "team_xp_awards g winner ((u, p) # ps) =
     (if is_player_idle_kicked g u
      then try_then (team_xp_awards g winner ps) (\<lambda>xp. Inr ((u, 0) # xp))
      else case snake_at g (pl_snake_id p) of
        None \<Rightarrow> Inl (Panic ''index out of bounds'')
      | Some s \<Rightarrow>
          let base = sat_mul (hm_get_or (gs_food_pickups g) (pl_snake_id p) 0) 10;
              bonus = (if winner \<noteq> None \<and> sn_team s = winner then 50 else 10)
          in try_then (team_xp_awards g winner ps) (\<lambda>xp. Inr ((u, base + bonus) # xp)))"

definition survival_xp_awards :: "game_state \<Rightarrow> (u32, u32) hash_map" where
  "survival_xp_awards g =
     map (\<lambda>(u, p). (u, if is_player_idle_kicked g u then 0
        else sat_mul (hm_get_or (gs_food_pickups g) (pl_snake_id p) 0) 10 + 10)) (gs_players g)"

definition complete_with ::
  "(u32, u32) hash_map \<Rightarrow> u32 option \<Rightarrow> game_state \<times> numbered_events \<Rightarrow> game_state \<times> numbered_events" where
  "complete_with xp winner st = emit (StatusUpdated (Complete winner)) (emit (XPAwarded xp) st)"

definition completion_phase :: "game_state \<times> numbered_events \<Rightarrow> (game_state \<times> numbered_events) result" where
  "completion_phase st =
     (let g = fst st in
      if \<not> is_started (gs_status g) then Inr st
      else if is_team_match (gs_game_type g) then
        (case (gp_score_limit (gs_properties g), gs_team_scores g) of
           (Some limit, Some scores) \<Rightarrow>
             if list_ex (\<lambda>(_, score). score \<ge> limit) scores then
               let winner = leading_team scores in
               try_then (team_xp_awards g winner (gs_players g)) (\<lambda>xp.
               Inr (complete_with xp (winning_snake_of g winner) st))
             else Inr st
         | _ \<Rightarrow> Inr st)
      else if list_ex sn_alive (ar_snakes (gs_arena g)) then Inr st
      else Inr (complete_with (survival_xp_awards g) None st))"

section \<open>The whole quantum\<close>

definition advance :: "game_state \<times> numbered_events \<Rightarrow> game_state \<times> numbered_events" where
  "advance = (\<lambda>(g, out). (g\<lparr>gs_tick := gs_tick g + 1\<rparr>, out))"

definition after_movement ::
  "box_muller \<Rightarrow> bool \<Rightarrow> u32 \<Rightarrow> u32 set \<Rightarrow> snake list \<Rightarrow> game_state \<times> numbered_events
   \<Rightarrow> ((game_state \<times> numbered_events) \<times> boost_lifecycle_transition list) result" where
  "after_movement bm movement_only post_tick movers old st =
     try_then (crash_phase movers old st) (\<lambda>st.
     try_then (eat_phase st) (\<lambda>st.
     let (g, out) = pad_phase post_tick st;
         (g, depleted) = finalize_boosts g
     in try_then (spawn_food_phase bm movement_only (g, out)) (\<lambda>(g, out).
     let st = (goal_cue_phase movers old g, out) in
     try_then (if movement_only then Inr st else try_then (score_phase st) completion_phase) (\<lambda>st.
     Inr (advance st, depleted)))))"

definition play_quantum ::
  "box_muller \<Rightarrow> bool \<Rightarrow> u32 \<Rightarrow> game_state \<times> numbered_events
   \<Rightarrow> ((game_state \<times> numbered_events) \<times> boost_lifecycle_transition list) result" where
  "play_quantum bm movement_only post_tick = (\<lambda>(g, out).
     let (g, out, turns) = pop_commands (ready_pads post_tick (drain_combos g)) out [];
         (g, resolved) = resolve_boosts g
     in try_then (accrue_credits (reserve_quanta g)) (\<lambda>(g, movers).
     let (g, out) = apply_turns movers turns (g, out);
         old = ar_snakes (gs_arena g)
     in try_then (after_movement bm movement_only post_tick movers old (move_snakes movers g, out))
          (\<lambda>(st, depleted). Inr (st, resolved @ depleted))))"

definition tick_forward_observing_boost ::
  "box_muller \<Rightarrow> bool \<Rightarrow> game_state
   \<Rightarrow> ((game_state \<times> numbered_events) \<times> boost_lifecycle_transition list) result" where
  "tick_forward_observing_boost bm movement_only g =
     (if is_complete g then Inr ((g, []), [])
      else
        let post_tick = sat_add (gs_tick g) 1;
            (st, finished) = resolve_player_inactivity post_tick (begin_tick g)
        in if finished then Inr (((fst st)\<lparr>gs_tick := post_tick\<rparr>, snd st), [])
           else play_quantum bm movement_only post_tick st)"

definition tick_forward :: "box_muller \<Rightarrow> bool \<Rightarrow> game_state \<Rightarrow> (game_state \<times> numbered_events) result" where
  "tick_forward bm movement_only g =
     try_then (tick_forward_observing_boost bm movement_only g) (\<lambda>(st, _). Inr st)"

end
