(* ===== verification/Snake_Lifecycle.thy ===== *)
theory Snake_Lifecycle
  imports Snake_Model
begin

text \<open>
  The boost, movement-credit and combo state machines of one snake. \<open>boost_wf\<close> is what holds
  between any two operations of a quantum, \<open>boost_settled\<close> what holds at a quantum boundary;
  \<open>boost_op\<close> lists every operation the engine performs on the boost state, so that an
  invariant proved for it holds along every sequence of operations.
\<close>

section \<open>Invariants\<close>

text \<open>A configuration that \<open>BoostConfig::validate\<close> admits, as far as one snake sees it.\<close>

definition boost_params_ok :: "u16 \<Rightarrow> u32 \<Rightarrow> bool" where
  "boost_params_ok speed capacity \<longleftrightarrow>
     1000 \<le> speed \<and> speed \<le> 2000 \<and> 0 < capacity \<and> is_multiple_of capacity 50"

definition boost_wf :: "u16 \<Rightarrow> u32 \<Rightarrow> snake \<Rightarrow> bool" where
  "boost_wf speed capacity s \<longleftrightarrow>
     charge_ms (sn_boost s) \<le> capacity \<and>
     is_multiple_of (charge_ms (sn_boost s)) 50 \<and>
     sn_speed s = (if boost_on (sn_boost s) then speed else 1000) \<and>
     (\<not> sn_alive s \<longrightarrow> charge_ms (sn_boost s) = 0 \<and> \<not> boost_on (sn_boost s))"

definition boost_settled :: "u16 \<Rightarrow> u32 \<Rightarrow> snake \<Rightarrow> bool" where
  "boost_settled speed capacity s \<longleftrightarrow>
     boost_wf speed capacity s \<and> (boost_on (sn_boost s) \<longrightarrow> 0 < charge_ms (sn_boost s))"

definition combo_wf :: "u32 \<Rightarrow> snake \<Rightarrow> bool" where
  "combo_wf window s \<longleftrightarrow>
     remaining_ms (sn_combo s) \<le> window \<and>
     (remaining_ms (sn_combo s) = 0 \<longleftrightarrow> chain_count (sn_combo s) = 0) \<and>
     (\<not> sn_alive s \<longrightarrow> sn_combo s = snake_combo_default)"

text \<open>Every operation on the boost state, with death and respawn as \<open>apply_event\<close> performs them.\<close>

datatype boost_op =
    Collect u32
  | SetIntent bool
  | Resolve
  | Reserve bool
  | Finalize
  | Die
  | Respawn bool

fun boost_step :: "u16 \<Rightarrow> u32 \<Rightarrow> snake \<Rightarrow> boost_op \<Rightarrow> snake" where
  "boost_step speed capacity s (Collect amount) = fst (collect_boost_charge amount capacity s)"
| "boost_step speed capacity s (SetIntent b) = fst (set_boost_intent b s)"
| "boost_step speed capacity s Resolve = fst (resolve_boost speed capacity s)"
| "boost_step speed capacity s (Reserve unlimited) = fst (reserve_boost_quantum unlimited s)"
| "boost_step speed capacity s Finalize = fst (finalize_boost_depletion s)"
| "boost_step speed capacity s Die = reset_boost_and_movement None (s\<lparr>sn_alive := False\<rparr>)"
| "boost_step speed capacity s (Respawn unlimited) =
     reset_boost_and_movement (if unlimited then Some capacity else None) (s\<lparr>sn_alive := True\<rparr>)"

text \<open>The movement credit over a number of quanta at one cadence, counting the moves.\<close>

fun accrue_quanta :: "nat \<Rightarrow> u32 \<Rightarrow> u32 \<Rightarrow> snake \<Rightarrow> (snake \<times> nat) result" where
  "accrue_quanta 0 tick interval s = Inr (s, 0)"
| "accrue_quanta (Suc n) tick interval s =
     try_then (accrue_movement_credit tick interval s) (\<lambda>(s, moved).
     try_then (accrue_quanta n tick interval s) (\<lambda>(s, moves).
       Inr (s, moves + of_bool moved)))"

section \<open>Boost\<close>

lemmas boost_op_defs =
  collect_boost_charge_def set_boost_intent_def resolve_boost_def try_activate_boost_def
  try_deactivate_boost_def reserve_boost_quantum_def finalize_boost_depletion_def
  reset_boost_and_movement_def snake_boost_default_def

lemma collect_charge_sum:
  fixes a c cap :: u32
  assumes "c < cap"
  shows "c + min a (cap - c) \<le> cap" and "c \<le> c + min a (cap - c)"
proof -
  have le: "unat (min a (cap - c)) \<le> unat cap - unat c"
    using assms by (simp add: min_def word_le_nat_alt unat_sub word_less_nat_alt)
  moreover have "unat c < unat cap" "unat cap < 2 ^ 32"
    using assms unsigned_less [of cap] by (simp_all add: word_less_nat_alt)
  ultimately have "unat (c + min a (cap - c)) = unat c + unat (min a (cap - c))"
    by (simp add: unat_word_ariths)
  then show "c + min a (cap - c) \<le> cap" and "c \<le> c + min a (cap - c)"
    using le \<open>unat c < unat cap\<close> by (simp_all add: word_le_nat_alt)
qed

lemma collect_boost_charge_wf:
  assumes "boost_wf speed cap s"
  shows "boost_wf speed cap (fst (collect_boost_charge a cap s))"
proof -
  let ?c = "charge_ms (sn_boost s)"
  have "is_multiple_of (?c + min a (cap - ?c)) 50"
    if "?c < cap" "is_multiple_of a 50" "is_multiple_of cap 50"
  proof (rule is_multiple_of_add)
    show "is_multiple_of (min a (cap - ?c)) 50"
      using that assms by (auto simp: min_def boost_wf_def intro: is_multiple_of_diff)
    show "?c \<le> ?c + min a (cap - ?c)"
      by (rule collect_charge_sum(2)) (rule that)
  qed (use assms in \<open>simp add: boost_wf_def\<close>)
  then show ?thesis
    using assms collect_charge_sum [of ?c cap a]
    by (auto simp: collect_boost_charge_def boost_wf_def Let_def not_le)
qed

lemma reserve_boost_quantum_wf:
  "boost_wf speed cap s \<Longrightarrow> boost_wf speed cap (fst (reserve_boost_quantum u s))"
  by (auto simp: reserve_boost_quantum_def boost_wf_def not_less is_multiple_of_diff
      intro: order.trans [OF word_sub_le_iff [THEN iffD2]])

lemma boost_step_wf:
  assumes "boost_params_ok speed cap" and "boost_wf speed cap s"
  shows "boost_wf speed cap (boost_step speed cap s e)"
proof (cases e)
  case (Collect a)
  then show ?thesis using assms by (simp add: collect_boost_charge_wf)
next
  case (Reserve u)
  then show ?thesis using assms by (simp add: reserve_boost_quantum_wf)
qed (use assms in \<open>auto simp: boost_op_defs boost_wf_def boost_params_ok_def Let_def\<close>)

lemma boost_steps_wf:
  assumes "boost_params_ok speed cap" "boost_wf speed cap s"
  shows "boost_wf speed cap (foldl (boost_step speed cap) s es)"
  using assms by (induction es arbitrary: s) (simp_all add: boost_step_wf)

text \<open>Convergence towards the latched intent.\<close>

lemma resolve_boost_active_iff:
  assumes "boost_params_ok speed cap" and "boost_wf speed cap s"
  shows "boost_on (sn_boost (fst (resolve_boost speed cap s))) \<longleftrightarrow>
     intent (sn_boost s) \<and> sn_alive s \<and> (boost_on (sn_boost s) \<or> 0 < charge_ms (sn_boost s))"
  using assms by (auto simp: boost_op_defs boost_wf_def boost_params_ok_def Let_def)

lemma resolve_boost_frame:
  "charge_ms (sn_boost (fst (resolve_boost speed cap s))) = charge_ms (sn_boost s)"
  "intent (sn_boost (fst (resolve_boost speed cap s))) = intent (sn_boost s)"
  "sn_credit (fst (resolve_boost speed cap s)) = sn_credit s"
  by (auto simp: boost_op_defs Let_def)

lemma resolve_boost_idempotent:
  "resolve_boost speed cap (fst (resolve_boost speed cap s)) = (fst (resolve_boost speed cap s), None)"
  by (auto simp: boost_op_defs Let_def)

lemma finalize_settles: "boost_wf speed cap s \<Longrightarrow> boost_settled speed cap (fst (finalize_boost_depletion s))"
  by (auto simp: boost_settled_def boost_wf_def boost_op_defs word_neq_0_conv)

section \<open>Movement credit\<close>

lemma unat_credit_products:
  fixes t i :: u32 and sp :: u16 and c :: u32
  shows "unat (ucast c + ucast sp * ucast t :: u64) = unat c + unat sp * unat t"
    and "unat (1000 * ucast i :: u64) = 1000 * unat i"
    and "unat (2000 * ucast i :: u64) = 2000 * unat i"
proof -
  have "unat sp * unat t \<le> 2 ^ 16 * 2 ^ 32"
    using unat_u16_less [of sp] unat_u32_less [of t] by (intro mult_le_mono) simp_all
  then show "unat (ucast c + ucast sp * ucast t :: u64) = unat c + unat sp * unat t"
    using unat_u32_less [of c] unat_u16_less [of sp] unat_u32_less [of t]
    by (simp add: unat_word_ariths unsigned_ucast_eq take_bit_eq_mod)
  have "1000 * unat i \<le> 1000 * 2 ^ 32"
    using unat_u32_less [of i] by simp
  then show "unat (1000 * ucast i :: u64) = 1000 * unat i"
    and "unat (2000 * ucast i :: u64) = 2000 * unat i"
    using unat_u32_less [of i] by (simp_all add: unat_word_ariths unsigned_ucast_eq take_bit_eq_mod)
qed

text \<open>The whole behaviour of the accrual in natural-number arithmetic.\<close>

lemma accrue_movement_credit_nat:
  "accrue_movement_credit t i s =
     (if \<not> sn_alive s then Inr (s, False)
      else if i = 0 then Inl (Panic ''normal movement interval must be positive'')
      else
        let acc = unat (sn_credit s) + unat (sn_speed s) * unat t; th = 1000 * unat i in
        if 2 * th \<le> acc
        then Inl (Panic ''a snake may accrue at most one movement opportunity per simulation quantum'')
        else if (if th \<le> acc then acc - th else acc) < 2 ^ 32
        then Inr (s\<lparr>sn_credit := word_of_nat (if th \<le> acc then acc - th else acc)\<rparr>, th \<le> acc)
        else Inl (Panic ''movement credit residual must fit in serialized state''))"
proof -
  let ?acc = "ucast (sn_credit s) + ucast (sn_speed s) * ucast t :: u64"
  let ?th = "1000 * ucast i :: u64"
  have res: "unat (if ?th \<le> ?acc then ?acc - ?th else ?acc) =
      (if 1000 * unat i \<le> unat (sn_credit s) + unat (sn_speed s) * unat t
       then unat (sn_credit s) + unat (sn_speed s) * unat t - 1000 * unat i
       else unat (sn_credit s) + unat (sn_speed s) * unat t)"
    by (auto simp: unat_credit_products word_le_nat_alt unat_sub)
  have cast: "(ucast w :: u32) = word_of_nat (unat w)" for w :: u64
    by simp
  have k: "(ucast (1000 :: u16) :: u64) = 1000"
    by simp
  show ?thesis
    unfolding accrue_movement_credit_def Let_def k cast res
    by (simp add: word_less_nat_alt word_le_nat_alt unat_credit_products not_less)
qed

definition credit_ok :: "u32 \<Rightarrow> snake \<Rightarrow> bool" where
  "credit_ok interval s \<longleftrightarrow> unat (sn_credit s) < 1000 * unat interval"

text \<open>
  A cadence at which no snake can earn two moves: the interval fits, and a quantum at this
  speed is worth at most one cell.
\<close>

definition cadence_ok :: "u32 \<Rightarrow> u32 \<Rightarrow> u16 \<Rightarrow> bool" where
  "cadence_ok tick interval speed \<longleftrightarrow>
     0 < unat interval \<and> 1000 * unat interval \<le> 2 ^ 32 \<and>
     unat speed * unat tick \<le> 1000 * unat interval"

lemma accrue_movement_credit_ok:
  assumes "cadence_ok t i (sn_speed s)" and "credit_ok i s" and "sn_alive s"
  obtains s' m where "accrue_movement_credit t i s = Inr (s', m)"
    and "s' = s\<lparr>sn_credit := sn_credit s'\<rparr>" and "credit_ok i s'"
    and "unat (sn_credit s') + 1000 * unat i * of_bool m =
           unat (sn_credit s) + unat (sn_speed s) * unat t"
proof -
  let ?acc = "unat (sn_credit s) + unat (sn_speed s) * unat t"
  let ?r = "if 1000 * unat i \<le> ?acc then ?acc - 1000 * unat i else ?acc"
  have i: "i \<noteq> 0" and acc: "?acc < 2 * (1000 * unat i)" and r: "?r < 1000 * unat i" "?r < 2 ^ 32"
    using assms by (auto simp: cadence_ok_def credit_ok_def)
  let ?s = "s\<lparr>sn_credit := word_of_nat ?r\<rparr>"
  have "accrue_movement_credit t i s = Inr (?s, 1000 * unat i \<le> ?acc)"
    unfolding accrue_movement_credit_nat Let_def using assms(3) i acc r(2) by (simp only: if_True if_False not_less) auto
  moreover have "unat (word_of_nat ?r :: u32) = ?r"
    using r(2) by (simp add: unat_of_nat)
  ultimately show thesis
    using r(1) by (intro that [of ?s]) (auto simp: credit_ok_def)
qed

lemma accrue_quanta_exact:
  assumes "cadence_ok t i (sn_speed s)" and "credit_ok i s" and "sn_alive s"
  shows "\<exists>s' moves. accrue_quanta n t i s = Inr (s', moves) \<and> credit_ok i s' \<and>
     s' = s\<lparr>sn_credit := sn_credit s'\<rparr> \<and>
     moves * (1000 * unat i) + unat (sn_credit s') =
       unat (sn_credit s) + n * (unat (sn_speed s) * unat t)"
  using assms
proof (induction n arbitrary: s)
  case (Suc n)
  obtain s1 m where one: "accrue_movement_credit t i s = Inr (s1, m)"
    and s1: "s1 = s\<lparr>sn_credit := sn_credit s1\<rparr>" and ok: "credit_ok i s1"
    and sum: "unat (sn_credit s1) + 1000 * unat i * of_bool m =
           unat (sn_credit s) + unat (sn_speed s) * unat t"
    using Suc.prems by (rule accrue_movement_credit_ok)
  have speed: "sn_speed s1 = sn_speed s" and alive: "sn_alive s1 = sn_alive s"
    by (subst s1, simp)+
  obtain s2 moves where two: "accrue_quanta n t i s1 = Inr (s2, moves)" and ok2: "credit_ok i s2"
    and s2: "s2 = s1\<lparr>sn_credit := sn_credit s2\<rparr>"
    and sum2: "moves * (1000 * unat i) + unat (sn_credit s2) =
       unat (sn_credit s1) + n * (unat (sn_speed s) * unat t)"
    using Suc.IH [of s1] Suc.prems ok speed alive by auto
  have "s2 = s\<lparr>sn_credit := sn_credit s2\<rparr>"
    by (subst s2, subst s1) simp
  then show ?case
    using one two ok2 sum sum2 by (auto simp: algebra_simps)
qed simp

section \<open>Combo\<close>

lemma drain_combo_wf: "combo_wf w s \<Longrightarrow> combo_wf w (drain_combo t s)"
  using sat_sub_le [of "remaining_ms (sn_combo s)" t]
  by (auto simp: combo_wf_def drain_combo_def Let_def snake_combo_default_def
      intro: order.trans)

lemma drain_combo_normalises:
  "chain_count (sn_combo (drain_combo t s)) = 0" if "remaining_ms (sn_combo (drain_combo t s)) = 0"
  using that by (auto simp: drain_combo_def Let_def)

lemma reset_combo_wf: "combo_wf w (reset_combo s)"
  by (simp add: combo_wf_def reset_combo_def snake_combo_default_def)

end
