(* ===== verification/Admission.thy ===== *)
theory Admission
  imports Validate Snake_Lifecycle
begin

text \<open>
  What snapshot admission decides. \<open>admitted\<close> is a declarative reading of
  \<open>validate_boost_invariants\<close>, split into a part that no operation changes (\<open>rules_ok\<close>), the
  pads, the snakes, the references between tables, and the inactivity records. The validator
  accepts exactly the admitted states, and match construction always produces one.
\<close>

section \<open>The admitted states\<close>

definition combo_snake_ok :: "combo_config \<Rightarrow> snake \<Rightarrow> bool" where
  "combo_snake_ok c s \<longleftrightarrow>
     remaining_ms (sn_combo s) \<le> cc_window_ms c \<and>
     (remaining_ms (sn_combo s) = 0 \<longleftrightarrow> chain_count (sn_combo s) = 0) \<and>
     (sn_alive s \<or> sn_combo s = snake_combo_default)"

definition boost_snake_ok :: "game_state \<Rightarrow> boost_config \<Rightarrow> snake \<Rightarrow> bool" where
  "boost_snake_ok g c s \<longleftrightarrow>
     charge_ms (sn_boost s) \<le> bc_capacity_ms c \<and> is_multiple_of (charge_ms (sn_boost s)) 50 \<and>
     (if boost_on (sn_boost s) then charge_ms (sn_boost s) \<noteq> 0 \<and> sn_speed s = bc_speed_milli c
      else sn_speed s = 1000) \<and>
     (bc_unlimited c \<longrightarrow> sn_alive s \<longrightarrow> charge_ms (sn_boost s) = bc_capacity_ms c) \<and>
     (sn_alive s \<or> charge_ms (sn_boost s) = 0 \<and> \<not> boost_on (sn_boost s) \<and> sn_credit s = 0) \<and>
     ucast (sn_credit s) < movement_threshold g"

definition plain_snake_ok :: "game_state \<Rightarrow> snake \<Rightarrow> bool" where
  "plain_snake_ok g s \<longleftrightarrow>
     sn_speed s = 1000 \<and> sn_boost s = snake_boost_default \<and> ucast (sn_credit s) < movement_threshold g"

definition snake_ok :: "game_state \<Rightarrow> snake \<Rightarrow> bool" where
  "snake_ok g s \<longleftrightarrow> combo_snake_ok (gp_combo (gs_properties g)) s \<and>
     (case gp_boost (gs_properties g) of Some c \<Rightarrow> boost_snake_ok g c s | None \<Rightarrow> plain_snake_ok g s)"

definition pad_ok :: "game_state \<Rightarrow> boost_pad \<Rightarrow> bool" where
  "pad_ok g pad \<longleftrightarrow> (\<forall>t. bp_respawn_at_tick pad = Some t \<longrightarrow> gs_tick g < t) \<and>
     set (footprint_cells pad) \<inter> set (ar_food (gs_arena g)) = {}"

text \<open>The rules a match is created with: configuration, arena shape and pad geometry.\<close>

definition boost_rules_ok :: "game_state \<Rightarrow> boost_config \<Rightarrow> bool" where
  "boost_rules_ok g c \<longleftrightarrow>
     (\<exists>e. boost_config_for (gs_game_type g) (ar_width (gs_arena g)) (ar_height (gs_arena g)) = Some e \<and>
        bc_spot_layout_version c = bc_spot_layout_version e) \<and>
     boost_config_validate c = Inr () \<and> gp_tick_duration_ms (gs_properties g) = 50 \<and>
     gp_time_limit_ms (gs_properties g) = None \<and>
     gp_score_limit (gs_properties g) =
       (if is_team_match (gs_game_type g) then Some (team_score_limit (gs_queue_mode g)) else None) \<and>
     (bc_unlimited c \<or> boost_field_bounds (gs_arena g) (bc_spot_layout_version c) \<noteq> None) \<and>
     map pad_signature (ar_boost_pads (gs_arena g)) = map pad_signature (boost_pad_layout (gs_arena g) c)"

definition rules_ok :: "game_state \<Rightarrow> bool" where
  "rules_ok g \<longleftrightarrow>
     combo_config_validate (gp_combo (gs_properties g)) = Inr () \<and>
     (case gs_game_type g of Custom _ \<Rightarrow> True
      | t \<Rightarrow> gp_available_food_target (gs_properties g) = food_target_for t) \<and>
     (case gp_boost (gs_properties g) of
        None \<Rightarrow> boost_config_for (gs_game_type g) (ar_width (gs_arena g)) (ar_height (gs_arena g)) = None \<and>
          ar_boost_pads (gs_arena g) = []
      | Some c \<Rightarrow> boost_rules_ok g c) \<and>
     gp_player_idle_timeout_ms (gs_properties g) \<noteq> 0 \<and> gp_player_idle_warning_ms (gs_properties g) \<noteq> 0 \<and>
     gp_player_idle_warning_ms (gs_properties g) < gp_player_idle_timeout_ms (gs_properties g)"

definition snake_exists :: "game_state \<Rightarrow> u32 \<Rightarrow> bool" where
  "snake_exists g i \<longleftrightarrow> unat i < length (ar_snakes (gs_arena g))"

definition refs_ok :: "game_state \<Rightarrow> bool" where
  "refs_ok g \<longleftrightarrow> (\<forall>i \<in> set (hm_keys (gs_food_pickups g)). snake_exists g i) \<and>
     (\<forall>(i, cause) \<in> set (gs_last_death_causes g). snake_exists g i \<and>
        (\<forall>k. attributed_snake_id cause = Some k \<longrightarrow> snake_exists g k))"

definition kicked_ok :: "game_state \<Rightarrow> u32 \<Rightarrow> bool" where
  "kicked_ok g u \<longleftrightarrow> (\<exists>p s. hm_get (gs_players g) u = Some p \<and> snake_at g (pl_snake_id p) = Some s \<and> \<not> sn_alive s)"

definition idle_ok :: "game_state \<Rightarrow> bool" where
  "idle_ok g \<longleftrightarrow> sorted_wrt (<) (gs_idle_kicked_user_ids g) \<and>
     (\<forall>u \<in> set (gs_idle_kicked_user_ids g). kicked_ok g u) \<and>
     (\<forall>(u, t) \<in> set (gs_player_last_activity_ticks g). hm_contains (gs_players g) u \<and> t \<le> gs_tick g) \<and>
     (gs_completed_by_inactivity g \<longrightarrow> is_complete g)"

definition admitted :: "game_state \<Rightarrow> bool" where
  "admitted g \<longleftrightarrow> rules_ok g \<and> (\<forall>pad \<in> set (ar_boost_pads (gs_arena g)). pad_ok g pad) \<and>
     (\<forall>s \<in> set (ar_snakes (gs_arena g)). snake_ok g s) \<and> refs_ok g \<and> idle_ok g"

section \<open>The validator decides admission\<close>

lemma validate_snake_combo_ok: "validate_snake_combo c s = Inr () \<longleftrightarrow> combo_snake_ok c s"
  unfolding validate_snake_combo_def guard_ok_iff combo_snake_ok_def by auto

lemma validate_boost_snake_ok: "validate_boost_snake g c s = Inr () \<longleftrightarrow> boost_snake_ok g c s"
  unfolding validate_boost_snake_def guard_ok_iff boost_snake_ok_def
    linorder_not_le [symmetric] if_bool_eq_conj
  by blast

lemma validate_plain_snake_ok: "validate_plain_snake g s = Inr () \<longleftrightarrow> plain_snake_ok g s"
  unfolding validate_plain_snake_def guard_ok_iff plain_snake_ok_def by auto

lemma validate_food_pickup_ok: "validate_food_pickup g i = Inr () \<longleftrightarrow> snake_exists g i"
  unfolding validate_food_pickup_def guard_ok_iff snake_exists_def by auto

lemma validate_death_cause_ok:
  "validate_death_cause g (i, cause) = Inr () \<longleftrightarrow> snake_exists g i \<and>
     (\<forall>k. attributed_snake_id cause = Some k \<longrightarrow> snake_exists g k)"
  unfolding validate_death_cause_def prod.case guard_ok_iff snake_exists_def
  by (auto split: option.splits)

lemma validate_idle_kicked_ok: "validate_idle_kicked g u = Inr () \<longleftrightarrow> kicked_ok g u"
  by (auto simp: validate_idle_kicked_def kicked_ok_def split: option.splits)

lemma windows_sorted: "\<not> list_ex (\<lambda>(a, b). b \<le> a) (zip xs (tl xs)) \<longleftrightarrow> sorted_wrt (<) xs"
  for xs :: "'a::linorder list"
proof (induction xs)
  case (Cons x xs)
  then show ?case
    by (cases xs) (auto simp: not_le intro: less_trans)
qed simp

lemma validate_activity_tick_ok:
  "validate_activity_tick g (u, t) = Inr () \<longleftrightarrow> hm_contains (gs_players g) u \<and> t \<le> gs_tick g"
  by (auto simp: validate_activity_tick_def)

lemma validate_inactivity_ok:
  "validate_inactivity g = Inr () \<longleftrightarrow>
     gp_player_idle_timeout_ms (gs_properties g) \<noteq> 0 \<and> gp_player_idle_warning_ms (gs_properties g) \<noteq> 0 \<and>
     gp_player_idle_warning_ms (gs_properties g) < gp_player_idle_timeout_ms (gs_properties g) \<and> idle_ok g"
  unfolding validate_inactivity_def Let_def guard_ok_iff try_then_eq_Inr_iff windows_sorted
  by (auto simp: validate_idle_kicked_ok validate_activity_tick_ok idle_ok_def not_le)

text \<open>The two nested loops over the pads.\<close>

definition cell_ok :: "game_state \<Rightarrow> i16 \<times> i16 \<Rightarrow> position \<Rightarrow> bool" where
  "cell_ok g = (\<lambda>(l, r) cell. l \<le> px cell \<and> px cell \<le> r \<and> 0 \<le> py cell \<and>
     py cell < i16_of_u16 (ar_height (gs_arena g)) \<and> \<not> is_wall_position (gs_arena g) cell)"

lemma check_pad_cells_ok:
  "check_pad_cells g b seen cells = Inr seen' \<longleftrightarrow>
     seen' = seen \<union> set cells \<and> distinct cells \<and> set cells \<inter> seen = {} \<and>
     (\<forall>cell \<in> set cells. cell_ok g b cell \<and> cell \<notin> set (ar_food (gs_arena g)))"
proof (induction g b seen cells rule: check_pad_cells.induct)
  case (2 g l r seen cell cells)
  show ?case
    unfolding check_pad_cells.simps guard_ok_iff
    using "2.IH" by (auto simp: cell_ok_def not_le not_less)
qed auto

definition pad_shape_ok :: "boost_config \<Rightarrow> boost_pad \<Rightarrow> bool" where
  "pad_shape_ok c pad \<longleftrightarrow> (bp_size_cells pad = 1 \<or> bp_size_cells pad = 2) \<and> bp_charge_ms pad \<noteq> 0 \<and>
     bp_charge_ms pad \<le> bc_capacity_ms c \<and> is_multiple_of (bp_charge_ms pad) 50 \<and>
     length (footprint_cells pad) = (unat (bp_size_cells pad))\<^sup>2"

lemma check_pads_step:
  "check_pads g c b ids seen (pad # pads) = Inr () \<longleftrightarrow>
     bp_id pad \<notin> ids \<and> pad_shape_ok c pad \<and> distinct (footprint_cells pad) \<and>
     set (footprint_cells pad) \<inter> seen = {} \<and>
     (\<forall>cell \<in> set (footprint_cells pad). cell_ok g b cell) \<and> pad_ok g pad \<and>
     check_pads g c b (insert (bp_id pad) ids) (seen \<union> set (footprint_cells pad)) pads = Inr ()"
proof -
  have food: "(\<forall>cell \<in> set (footprint_cells pad). cell_ok g b cell \<and> cell \<notin> set (ar_food (gs_arena g))) \<longleftrightarrow>
      (\<forall>cell \<in> set (footprint_cells pad). cell_ok g b cell) \<and>
      set (footprint_cells pad) \<inter> set (ar_food (gs_arena g)) = {}"
    by blast
  have respawn: "(case bp_respawn_at_tick pad of Some t \<Rightarrow> t \<le> gs_tick g | None \<Rightarrow> False) \<longleftrightarrow>
      \<not> (\<forall>t. bp_respawn_at_tick pad = Some t \<longrightarrow> gs_tick g < t)"
    by (auto split: option.splits)
  show ?thesis
    unfolding check_pads.simps guard_ok_iff try_then_eq_Inr_iff check_pad_cells_ok food respawn
      pad_shape_ok_def pad_ok_def linorder_not_le [symmetric] by auto
qed

lemma check_pads_ok:
  "check_pads g c b ids seen pads = Inr () \<longleftrightarrow>
     distinct (map bp_id pads) \<and> bp_id ` set pads \<inter> ids = {} \<and>
     distinct (concat (map footprint_cells pads)) \<and> set (concat (map footprint_cells pads)) \<inter> seen = {} \<and>
     (\<forall>pad \<in> set pads. pad_shape_ok c pad \<and> (\<forall>cell \<in> set (footprint_cells pad). cell_ok g b cell) \<and> pad_ok g pad)"
proof (induction pads arbitrary: ids seen)
  case (Cons pad pads)
  show ?case
    unfolding check_pads_step Cons.IH by auto
qed simp

text \<open>The canonical layout passes every geometric check.\<close>

lemma map_signature_cong:
  assumes "map pad_signature ps = map pad_signature qs" and "\<And>p q. pad_signature p = pad_signature q \<Longrightarrow> f p = f q"
  shows "map f ps = map f qs"
  using assms(1) by (induction ps qs rule: list_induct2') (auto intro: assms(2))

lemma signature_facts:
  assumes "pad_signature p = pad_signature q"
  shows "bp_id p = bp_id q" and "footprint_cells p = footprint_cells q" and "pad_shape_ok c p = pad_shape_ok c q"
  using assms by (simp_all add: pad_signature_def footprint_cells_def pad_shape_ok_def)

lemma layout_shapes:
  "list_all (\<lambda>p. (bp_size_cells p = 1 \<or> bp_size_cells p = 2) \<and>
     length (footprint_cells p) = (unat (bp_size_cells p))\<^sup>2) (layout_pads c 0)"
  "list_all (\<lambda>p. (bp_size_cells p = 1 \<or> bp_size_cells p = 2) \<and>
     length (footprint_cells p) = (unat (bp_size_cells p))\<^sup>2) (layout_pads c 10)"
  by code_simp+

lemma layout_charges:
  "map bp_charge_ms (layout_pads c l) = replicate 4 (bc_capacity_ms c) @ replicate 8 (bc_packet_charge_ms c)"
  by (simp add: layout_pads_def canonical_pads_def numeral_eq_Suc)

lemma layout_shape_ok:
  assumes "boost_config_validate c = Inr ()" and "l \<in> {0, 10}" and "pad \<in> set (layout_pads c l)"
  shows "pad_shape_ok c pad"
proof -
  have "bp_charge_ms pad \<in> set (map bp_charge_ms (layout_pads c l))"
    using assms(3) by simp
  then have charge: "bp_charge_ms pad = bc_capacity_ms c \<or> bp_charge_ms pad = bc_packet_charge_ms c"
    unfolding layout_charges by auto
  have "(bp_size_cells pad = 1 \<or> bp_size_cells pad = 2) \<and>
      length (footprint_cells pad) = (unat (bp_size_cells pad))\<^sup>2"
    using layout_shapes [of c] assms(2,3) unfolding list_all_iff by blast
  moreover have "bc_capacity_ms c \<noteq> 0"
    using assms(1) by (simp add: boost_config_validate_ok_iff)
  ultimately show ?thesis
    using charge boost_config_quantum [OF assms(1)] unfolding pad_shape_ok_def by auto
qed

lemma field_cell_ok:
  assumes "boost_field_bounds (gs_arena g) v = Some (l, r)"
    and "l \<le> px p" and "px p \<le> r" and "0 \<le> py p" and "py p \<le> 39"
  shows "cell_ok g (l, r) p"
proof -
  have height: "ar_height (gs_arena g) = 40"
    using boost_field_bounds_cases [OF assms(1)] by auto
  have "\<not> is_wall_position (gs_arena g) p"
  proof (cases "ar_team_zone_config (gs_arena g)")
    case (Some c)
    then have "ar_width (gs_arena g) = 60" and depth: "i16_of_u16 (end_zone_depth c) = 10"
      and "l = 10" and "r = 49"
      using assms(1) by (auto simp: boost_field_bounds_def main_field_bounds_def split: if_splits)
    then show ?thesis
      using Some assms(2,3) by (auto simp: is_wall_position_def Let_def i16_of_u16_small in_i16_def)
  qed (simp add: is_wall_position_def)
  then show ?thesis
    using assms height by (simp add: cell_ok_def i16_of_u16_small)
qed

lemma canonical_pads_pass:
  assumes "boost_config_validate c = Inr ()"
    and "boost_field_bounds (gs_arena g) (bc_spot_layout_version c) = Some b"
    and "map pad_signature pads = map pad_signature (boost_pad_layout (gs_arena g) c)"
  shows "check_pads g c b {} {} pads = Inr () \<longleftrightarrow> (\<forall>pad \<in> set pads. pad_ok g pad)"
proof (cases "boost_pad_layout (gs_arena g) c = []")
  case False
  then obtain l where b: "b = (l, l + 39)" and l: "l \<in> {0, 10}"
    and layout: "boost_pad_layout (gs_arena g) c = layout_pads c l"
    using boost_pad_layout_cases [of "gs_arena g" c] assms(2) by auto
  note sig = assms(3) [unfolded layout]
  note maps = map_signature_cong [OF sig, of bp_id] map_signature_cong [OF sig, of footprint_cells]
    map_signature_cong [OF sig, of "pad_shape_ok c"]
  have ids: "map bp_id pads = map bp_id (layout_pads c l)"
    and cells: "map footprint_cells pads = map footprint_cells (layout_pads c l)"
    and shapes: "map (pad_shape_ok c) pads = map (pad_shape_ok c) (layout_pads c l)"
    by (rule maps, erule signature_facts)+
  have concat_cells: "concat (map footprint_cells pads) = layout_cells c l"
    by (simp add: cells layout_cells_def)
  have "cell_ok g b cell" if "pad \<in> set pads" "cell \<in> set (footprint_cells pad)" for pad cell
  proof -
    have "cell \<in> set (layout_cells c l)"
      using that unfolding concat_cells [symmetric] by auto
    then show ?thesis
      using layout_cells_facts [OF l, of c] field_cell_ok [OF assms(2) [unfolded b]]
      unfolding b list_all_iff by blast
  qed
  moreover have "pad_shape_ok c pad" if "pad \<in> set pads" for pad
  proof -
    have "pad_shape_ok c pad \<in> set (map (pad_shape_ok c) pads)"
      using that by simp
    then show ?thesis
      unfolding shapes using layout_shape_ok [OF assms(1) l] by auto
  qed
  moreover have "distinct (map bp_id pads)" and "distinct (concat (map footprint_cells pads))"
    unfolding ids concat_cells using layout_cells_facts [OF l, of c] by blast+
  ultimately show ?thesis
    unfolding check_pads_ok by blast
qed (use assms(3) in simp)

text \<open>The arm for a Boost match, and the whole validator.\<close>

lemma boost_pad_layout_length:
  assumes "bc_unlimited c \<or> boost_field_bounds a (bc_spot_layout_version c) \<noteq> None"
  shows "length (boost_pad_layout a c) = (if bc_unlimited c then 0 else 12)"
  using assms by (auto simp: boost_pad_layout_def pad_table_def Let_def)

lemma validate_pad_bounds:
  assumes "boost_config_validate c = Inr ()"
    and "map pad_signature (ar_boost_pads (gs_arena g)) = map pad_signature (boost_pad_layout (gs_arena g) c)"
    and "bc_unlimited c \<or> boost_field_bounds (gs_arena g) (bc_spot_layout_version c) \<noteq> None"
  shows "try_then
      (case boost_field_bounds (gs_arena g) (bc_spot_layout_version c) of
         Some bounds \<Rightarrow> Inr bounds
       | None \<Rightarrow> if bc_unlimited c then Inr d else Inl e) (\<lambda>bounds.
      try_then (check_pads g c bounds {} {} (ar_boost_pads (gs_arena g))) k) = Inr () \<longleftrightarrow>
    (\<forall>pad \<in> set (ar_boost_pads (gs_arena g)). pad_ok g pad) \<and> k () = Inr ()"
proof (cases "boost_field_bounds (gs_arena g) (bc_spot_layout_version c)")
  case None
  then have "boost_pad_layout (gs_arena g) c = []" and "bc_unlimited c"
    using assms(3) by (simp_all add: boost_pad_layout_def)
  then show ?thesis
    using None assms(2) by simp
next
  case (Some b)
  then show ?thesis
    using canonical_pads_pass [OF assms(1) Some assms(2)] by (auto simp: try_then_eq_Inr_iff)
qed

lemma validate_boost_match_rules:
  assumes "validate_boost_match g c = Inr ()"
  shows "boost_rules_ok g c"
proof -
  obtain e where e: "boost_config_for (gs_game_type g) (ar_width (gs_arena g)) (ar_height (gs_arena g)) = Some e"
    using assms by (cases "boost_config_for (gs_game_type g) (ar_width (gs_arena g)) (ar_height (gs_arena g))")
      (simp_all add: validate_boost_match_def)
  note steps = assms [unfolded validate_boost_match_def Let_def e option.case try_then_eq_Inr_iff guard_ok_iff]
  have "length (boost_pad_layout (gs_arena g) c) = (if bc_unlimited c then 0 else 12)"
    using steps by (elim exE conjE) simp
  then have "bc_unlimited c \<or> boost_field_bounds (gs_arena g) (bc_spot_layout_version c) \<noteq> None"
    by (cases "boost_field_bounds (gs_arena g) (bc_spot_layout_version c)") (auto simp: boost_pad_layout_def split: if_splits)
  then show ?thesis
    using steps unfolding boost_rules_ok_def e by (elim exE conjE) simp
qed

lemma validate_boost_match_ok:
  "validate_boost_match g c = Inr () \<longleftrightarrow> boost_rules_ok g c \<and>
     (\<forall>pad \<in> set (ar_boost_pads (gs_arena g)). pad_ok g pad) \<and>
     (\<forall>s \<in> set (ar_snakes (gs_arena g)). boost_snake_ok g c s)"
proof (cases "boost_rules_ok g c")
  case True
  then obtain e where e: "boost_config_for (gs_game_type g) (ar_width (gs_arena g)) (ar_height (gs_arena g)) = Some e"
      "bc_spot_layout_version c = bc_spot_layout_version e"
    and c: "boost_config_validate c = Inr ()"
    and pads: "map pad_signature (ar_boost_pads (gs_arena g)) = map pad_signature (boost_pad_layout (gs_arena g) c)"
    and bounds: "bc_unlimited c \<or> boost_field_bounds (gs_arena g) (bc_spot_layout_version c) \<noteq> None"
    by (auto simp: boost_rules_ok_def)
  have len: "length (map pad_signature (boost_pad_layout (gs_arena g) c)) = (if bc_unlimited c then 0 else 12)"
    using boost_pad_layout_length [OF bounds] by simp
  show ?thesis
    using True unfolding validate_boost_match_def Let_def e(1) option.case c try_then_Inr guard_ok_iff len
      validate_pad_bounds [OF c pads bounds]
    by (simp add: boost_rules_ok_def e validate_boost_snake_ok)
qed (use validate_boost_match_rules in blast)

lemma rules_ok_alt:
  "rules_ok g \<longleftrightarrow>
     combo_config_validate (gp_combo (gs_properties g)) = Inr () \<and>
     \<not> (case gs_game_type g of Custom _ \<Rightarrow> False
        | t \<Rightarrow> gp_available_food_target (gs_properties g) \<noteq> food_target_for t) \<and>
     (case gp_boost (gs_properties g) of
        None \<Rightarrow> boost_config_for (gs_game_type g) (ar_width (gs_arena g)) (ar_height (gs_arena g)) = None \<and>
          ar_boost_pads (gs_arena g) = []
      | Some c \<Rightarrow> boost_rules_ok g c) \<and>
     gp_player_idle_timeout_ms (gs_properties g) \<noteq> 0 \<and> gp_player_idle_warning_ms (gs_properties g) \<noteq> 0 \<and>
     gp_player_idle_warning_ms (gs_properties g) < gp_player_idle_timeout_ms (gs_properties g)"
  unfolding rules_ok_def by (simp split: game_type.split)

lemma validate_admitted: "validate_boost_invariants g = Inr () \<longleftrightarrow> admitted g"
proof (cases "gp_boost (gs_properties g)")
  case None
  then show ?thesis
    unfolding validate_boost_invariants_def try_then_eq_Inr_iff guard_ok_iff check_all_ok_iff
      admitted_def rules_ok_alt refs_ok_def snake_ok_def validate_plain_match_def
    by (auto simp: validate_snake_combo_ok validate_food_pickup_ok validate_death_cause_ok
        validate_plain_snake_ok validate_inactivity_ok guard_ok_iff)
next
  case (Some c)
  then show ?thesis
    unfolding validate_boost_invariants_def try_then_eq_Inr_iff guard_ok_iff check_all_ok_iff
      admitted_def rules_ok_alt refs_ok_def snake_ok_def
    by (auto simp: validate_snake_combo_ok validate_food_pickup_ok validate_death_cause_ok
        validate_boost_match_ok validate_inactivity_ok)
qed

section \<open>Construction\<close>

text \<open>Geometry depends on the dimensions and the zones of an arena only.\<close>

definition same_shape :: "arena \<Rightarrow> arena \<Rightarrow> bool" where
  "same_shape a b \<longleftrightarrow> ar_width a = ar_width b \<and> ar_height a = ar_height b \<and>
     ar_team_zone_config a = ar_team_zone_config b"

lemma same_shape_bounds: "same_shape a b \<Longrightarrow> boost_field_bounds a v = boost_field_bounds b v"
  unfolding same_shape_def boost_field_bounds_def main_field_bounds_def by (elim conjE) (simp only:)

lemma same_shape_layout: "same_shape a b \<Longrightarrow> boost_pad_layout a c = boost_pad_layout b c"
  using same_shape_bounds [of a b] unfolding boost_pad_layout_def
  by (simp add: same_shape_def split: option.split)

lemma initial_arena_fields [simp]:
  "ar_width (initial_arena w h t b) = w" "ar_height (initial_arena w h t b) = h"
  "ar_snakes (initial_arena w h t b) = []" "ar_food (initial_arena w h t b) = []"
  by (simp_all add: initial_arena_def Let_def split: option.split)

lemma initial_arena_pads:
  "ar_boost_pads (initial_arena w h t b) =
     (case b of None \<Rightarrow> [] | Some c \<Rightarrow> boost_pad_layout (initial_arena w h t b) c)"
proof (cases b)
  case (Some c)
  then show ?thesis
    unfolding initial_arena_def Let_def
    by (simp add: same_shape_layout [where a = "_\<lparr>ar_boost_pads := _\<rparr>"] same_shape_def) (rule same_shape_layout, simp add: same_shape_def)
qed (simp add: initial_arena_def)

lemma initial_layout_drawable:
  assumes "boost_config_for t w h = Some c"
  shows "bc_unlimited c \<or> boost_field_bounds (initial_arena w h t (Some c)) (bc_spot_layout_version c) \<noteq> None"
proof (cases t)
  case (TeamMatch n)
  then have "w = 60" and "h = 40" and "c = boost_config_default"
    using assms by (auto simp: boost_config_for_def split: if_splits)
  then show ?thesis
    using TeamMatch by (simp add: boost_field_bounds_def main_field_bounds_def initial_arena_def Let_def
        boost_config_default_def i16_of_u16_small in_i16_def)
next
  case (FreeForAll n)
  then have "w = 40" and "h = 40" and "c = boost_config_field"
    using assms by (auto simp: boost_config_for_def split: if_splits)
  then show ?thesis
    using FreeForAll by (simp add: boost_field_bounds_def initial_arena_def Let_def
        boost_config_default_def boost_config_field_def)
qed (use assms in \<open>auto simp: boost_config_for_def boost_config_unlimited_def\<close>)

lemma layout_pads_fresh: "pad \<in> set (boost_pad_layout a c) \<Longrightarrow> bp_respawn_at_tick pad = None"
  by (auto simp: boost_pad_layout_def split: if_splits option.splits)

lemma combo_default_valid: "combo_config_validate combo_config_default = Inr ()"
  by code_simp

lemma initial_admitted: "admitted (initial_game_state w h t q seed start)"
proof -
  let ?g = "initial_game_state w h t q seed start"
  let ?b = "boost_config_for t w h"
  have fields: "gs_arena ?g = initial_arena w h t ?b" "gs_properties ?g = initial_properties t q ?b"
    "gs_game_type ?g = t" "gs_queue_mode ?g = q" "gs_food_pickups ?g = []" "gs_last_death_causes ?g = []"
    "gs_idle_kicked_user_ids ?g = []" "gs_player_last_activity_ticks ?g = []"
    "\<not> gs_completed_by_inactivity ?g"
    by (simp_all add: initial_game_state_def Let_def)
  have custom: "boost_config_for (Custom cs) w h = None" for cs
    by (simp add: boost_config_for_def)
  have props: "gp_available_food_target (initial_properties t q ?b) = food_target_for t"
    "gp_combo (initial_properties t q ?b) = combo_config_default" "gp_boost (initial_properties t q ?b) = ?b"
    "gp_player_idle_timeout_ms (initial_properties t q ?b) = 60000"
    "gp_player_idle_warning_ms (initial_properties t q ?b) = 10000"
    "gp_time_limit_ms (initial_properties t q ?b) = None"
    "gp_score_limit (initial_properties t q ?b) = (if is_team_match t then Some (team_score_limit q) else None)"
    "?b \<noteq> None \<Longrightarrow> gp_tick_duration_ms (initial_properties t q ?b) = 50"
    using custom by (cases t; simp add: initial_properties_def is_team_match_def)+
  have "boost_rules_ok ?g c" if "?b = Some c" for c
    using initial_layout_drawable [OF that] boost_config_for_valid [OF that] props that
    unfolding boost_rules_ok_def fields initial_arena_pads by simp
  then have "rules_ok ?g"
    unfolding rules_ok_def fields props initial_arena_pads
    by (simp add: combo_default_valid split: option.split game_type.split)
  moreover have "pad_ok ?g pad" if "pad \<in> set (ar_boost_pads (gs_arena ?g))" for pad
    using that unfolding pad_ok_def fields initial_arena_pads
    by (auto dest: layout_pads_fresh split: option.splits)
  ultimately show ?thesis
    by (simp add: admitted_def fields refs_ok_def hm_keys_def idle_ok_def)
qed

end
