(* ===== verification/Match_Invariant.thy ===== *)
theory Match_Invariant
  imports Tick Admission Snake_Geometry
begin

text \<open>
  The invariant of a running match. \<open>simulable\<close> is admission together with what the simulation
  relies on but admission does not check: every player has a snake, bodies are not empty, the
  cadence lets no snake earn two moves at once, and the arena has ordinary dimensions.
  \<open>playable\<close> is its form in the middle of a quantum, when a tank may be empty while the boost is
  still on and pads are judged by the tick that the quantum ends with. The lemmas show that every
  kind of update a quantum performs keeps \<open>playable\<close>.
\<close>

section \<open>Definitions\<close>

definition players_ok :: "game_state \<Rightarrow> bool" where
  "players_ok g \<longleftrightarrow> hm_wf (gs_players g) \<and> length (ar_snakes (gs_arena g)) < 2 ^ 32 \<and>
     (\<forall>(u, p) \<in> set (gs_players g). snake_exists g (pl_snake_id p))"

definition tempo_ok :: "game_state \<Rightarrow> bool" where
  "tempo_ok g \<longleftrightarrow> 1000 * unat (normal_movement_interval_ms g) \<le> 2 ^ 32 \<and>
     (gp_boost (gs_properties g) = None \<longrightarrow> tick_ms g \<le> normal_movement_interval_ms g)"

definition env_ok :: "game_state \<Rightarrow> bool" where
  "env_ok g \<longleftrightarrow> tempo_ok g \<and> arena_dims_ok (gs_arena g)"

definition snake_mid :: "game_state \<Rightarrow> snake \<Rightarrow> bool" where
  "snake_mid g s \<longleftrightarrow> sn_body s \<noteq> [] \<and> combo_snake_ok (gp_combo (gs_properties g)) s \<and>
     ucast (sn_credit s) < movement_threshold g \<and>
     (case gp_boost (gs_properties g) of
        None \<Rightarrow> sn_speed s = 1000 \<and> sn_boost s = snake_boost_default
      | Some c \<Rightarrow>
          charge_ms (sn_boost s) \<le> bc_capacity_ms c \<and> is_multiple_of (charge_ms (sn_boost s)) 50 \<and>
          sn_speed s = (if boost_on (sn_boost s) then bc_speed_milli c else 1000) \<and>
          (bc_unlimited c \<longrightarrow> sn_alive s \<longrightarrow> charge_ms (sn_boost s) = bc_capacity_ms c) \<and>
          (sn_alive s \<or> charge_ms (sn_boost s) = 0 \<and> \<not> boost_on (sn_boost s) \<and> sn_credit s = 0))"

definition funded :: "snake \<Rightarrow> bool" where
  "funded s \<longleftrightarrow> (boost_on (sn_boost s) \<longrightarrow> charge_ms (sn_boost s) \<noteq> 0)"

definition snakes_ok :: "game_state \<Rightarrow> bool" where
  "snakes_ok g \<longleftrightarrow> (\<forall>s \<in> set (ar_snakes (gs_arena g)). snake_mid g s)"

definition pads_ok :: "u32 \<Rightarrow> game_state \<Rightarrow> bool" where
  "pads_ok post g \<longleftrightarrow> (\<forall>pad \<in> set (ar_boost_pads (gs_arena g)).
     (\<forall>t. bp_respawn_at_tick pad = Some t \<longrightarrow> post < t) \<and>
     set (footprint_cells pad) \<inter> set (ar_food (gs_arena g)) = {})"

definition playable :: "u32 \<Rightarrow> game_state \<Rightarrow> bool" where
  "playable post g \<longleftrightarrow> rules_ok g \<and> players_ok g \<and> env_ok g \<and> snakes_ok g \<and> pads_ok post g \<and>
     refs_ok g \<and> idle_ok g"

definition simulable :: "game_state \<Rightarrow> bool" where
  "simulable g \<longleftrightarrow> admitted g \<and> players_ok g \<and> env_ok g \<and>
     (\<forall>s \<in> set (ar_snakes (gs_arena g)). sn_body s \<noteq> [])"

text \<open>What the simulation needs beyond the validator; it depends on a small part of the state.\<close>

definition sound :: "game_state \<Rightarrow> bool" where
  "sound g \<longleftrightarrow> players_ok g \<and> env_ok g \<and> (\<forall>s \<in> set (ar_snakes (gs_arena g)). sn_body s \<noteq> [])"

lemma simulable_sound: "simulable g \<longleftrightarrow> admitted g \<and> sound g"
  by (auto simp: simulable_def sound_def)

definition sound_view where
  "sound_view g = (gs_properties g, gs_game_type g, gs_players g, ar_width (gs_arena g), ar_height (gs_arena g),
     ar_team_zone_config (gs_arena g), length (ar_snakes (gs_arena g)),
     \<forall>s \<in> set (ar_snakes (gs_arena g)). sn_body s \<noteq> [])"

lemma sound_cong:
  assumes "sound_view g = sound_view g'"
  shows "sound g = sound g'"
proof -
  have "gs_properties g = gs_properties g'" "gs_game_type g = gs_game_type g'" "gs_players g = gs_players g'"
    "ar_width (gs_arena g) = ar_width (gs_arena g')" "ar_height (gs_arena g) = ar_height (gs_arena g')"
    "ar_team_zone_config (gs_arena g) = ar_team_zone_config (gs_arena g')"
    "length (ar_snakes (gs_arena g)) = length (ar_snakes (gs_arena g'))"
    "(\<forall>s \<in> set (ar_snakes (gs_arena g)). sn_body s \<noteq> []) = (\<forall>s \<in> set (ar_snakes (gs_arena g')). sn_body s \<noteq> [])"
    using assms by (simp_all add: sound_view_def)
  note eqs = this
  show ?thesis
    unfolding sound_def players_ok_def env_ok_def tempo_ok_def arena_dims_ok_def snake_exists_def
      normal_movement_interval_ms_def tick_ms_def eqs by (rule refl)
qed

text \<open>The snakes of players that were removed for inactivity.\<close>

definition kicked_snake :: "game_state \<Rightarrow> nat \<Rightarrow> bool" where
  "kicked_snake g n \<longleftrightarrow> (\<exists>u \<in> set (gs_idle_kicked_user_ids g). \<exists>p.
     hm_get (gs_players g) u = Some p \<and> unat (pl_snake_id p) = n)"

section \<open>Simulable and playable states\<close>

lemma snake_mid_iff:
  assumes "rules_ok g"
  shows "snake_ok g s \<and> sn_body s \<noteq> [] \<longleftrightarrow> snake_mid g s \<and> funded s"
  by (cases "gp_boost (gs_properties g)")
    (auto simp: snake_ok_def snake_mid_def funded_def plain_snake_ok_def boost_snake_ok_def
      snake_boost_default_def)

lemma simulable_iff:
  "simulable g \<longleftrightarrow> playable (gs_tick g) g \<and> (\<forall>s \<in> set (ar_snakes (gs_arena g)). funded s)"
proof (cases "rules_ok g")
  case True
  have pads: "(\<forall>pad \<in> set (ar_boost_pads (gs_arena g)). pad_ok g pad) \<longleftrightarrow> pads_ok (gs_tick g) g"
    by (simp add: pads_ok_def pad_ok_def)
  show ?thesis
    unfolding simulable_def admitted_def playable_def snakes_ok_def pads
    using True snake_mid_iff [OF True] by blast
qed (simp add: simulable_def admitted_def playable_def)

lemma playable_mono: "playable post g \<Longrightarrow> post' \<le> post \<Longrightarrow> playable post' g"
  by (auto simp: playable_def pads_ok_def)

section \<open>What the invariant reads\<close>

definition rules_view where
  "rules_view g = (gs_properties g, gs_game_type g, gs_queue_mode g,
     ar_width (gs_arena g), ar_height (gs_arena g), ar_team_zone_config (gs_arena g),
     map pad_signature (ar_boost_pads (gs_arena g)))"

lemma rules_viewD:
  assumes "rules_view g = rules_view g'"
  shows "gs_properties g = gs_properties g'" "gs_game_type g = gs_game_type g'"
    "gs_queue_mode g = gs_queue_mode g'" "ar_width (gs_arena g) = ar_width (gs_arena g')"
    "ar_height (gs_arena g) = ar_height (gs_arena g')"
    "ar_team_zone_config (gs_arena g) = ar_team_zone_config (gs_arena g')"
    "map pad_signature (ar_boost_pads (gs_arena g)) = map pad_signature (ar_boost_pads (gs_arena g'))"
  using assms by (simp_all add: rules_view_def)

lemma rules_ok_cong:
  assumes "rules_view g = rules_view g'"
  shows "rules_ok g = rules_ok g'"
proof -
  note eqs = rules_viewD [OF assms]
  have shape: "same_shape (gs_arena g) (gs_arena g')"
    using eqs by (simp add: same_shape_def)
  have boost: "boost_rules_ok g = boost_rules_ok g'"
    unfolding boost_rules_ok_def eqs same_shape_bounds [OF shape] same_shape_layout [OF shape] ..
  have pads: "(ar_boost_pads (gs_arena g) = []) = (ar_boost_pads (gs_arena g') = [])"
    using eqs(7) by (metis Nil_is_map_conv)
  show ?thesis
    unfolding rules_ok_def eqs boost pads ..
qed

lemma env_ok_cong:
  assumes "rules_view g = rules_view g'"
  shows "env_ok g = env_ok g'"
  unfolding env_ok_def tempo_ok_def arena_dims_ok_def tick_ms_def normal_movement_interval_ms_def
    rules_viewD [OF assms] ..

lemma snake_mid_cong:
  assumes "rules_view g = rules_view g'"
  shows "snake_mid g = snake_mid g'"
  unfolding snake_mid_def movement_threshold_def normal_movement_interval_ms_def rules_viewD [OF assms] ..

text \<open>
  Replacing the snakes: each new snake is in order, and none comes alive at the place of a snake
  that inactivity removed.
\<close>

lemma playable_set_snakes:
  assumes "playable post g" and "length ss = length (ar_snakes (gs_arena g))"
    and "\<And>n. n < length ss \<Longrightarrow> snake_mid g (ss ! n)"
    and "\<And>n. n < length ss \<Longrightarrow> kicked_snake g n \<Longrightarrow> \<not> sn_alive (ss ! n)"
  shows "playable post (g\<lparr>gs_arena := (gs_arena g)\<lparr>ar_snakes := ss\<rparr>\<rparr>)" (is "playable post ?g")
proof -
  have view: "rules_view ?g = rules_view g"
    by (simp add: rules_view_def)
  have exists: "snake_exists ?g i = snake_exists g i" for i
    using assms(2) by (simp add: snake_exists_def)
  have "snakes_ok ?g"
    unfolding snakes_ok_def snake_mid_cong [OF view] using assms(3) by (auto simp: in_set_conv_nth)
  moreover have "kicked_ok ?g u" if u: "u \<in> set (gs_idle_kicked_user_ids g)" for u
  proof -
    obtain p where p: "hm_get (gs_players g) u = Some p" and "snake_exists g (pl_snake_id p)"
      using assms(1) u by (auto simp: playable_def idle_ok_def kicked_ok_def snake_at_def snake_exists_def)
    moreover have "kicked_snake g (unat (pl_snake_id p))"
      using p u by (auto simp: kicked_snake_def)
    ultimately show ?thesis
      using assms(2,4) by (auto simp: kicked_ok_def snake_at_def snake_exists_def)
  qed
  then have "idle_ok ?g"
    using assms(1) by (simp add: playable_def idle_ok_def is_complete_def)
  moreover have "players_ok ?g" "refs_ok ?g" "pads_ok post ?g"
    using assms(1,2) by (simp_all add: playable_def players_ok_def refs_ok_def pads_ok_def exists)
  ultimately show ?thesis
    using assms(1) rules_ok_cong [OF view] env_ok_cong [OF view] by (simp add: playable_def)
qed

lemma playable_kicked_dead:
  assumes "playable post g" and "kicked_snake g n" and "n < length (ar_snakes (gs_arena g))"
  shows "\<not> sn_alive (ar_snakes (gs_arena g) ! n)"
  using assms by (auto simp: playable_def idle_ok_def kicked_ok_def kicked_snake_def snake_at_def)

lemma playable_snake:
  "playable post g \<Longrightarrow> s \<in> set (ar_snakes (gs_arena g)) \<Longrightarrow> snake_mid g s"
  by (simp add: playable_def snakes_ok_def)

lemma playable_map_snakes:
  assumes "playable post g"
    and "\<And>s. s \<in> set (ar_snakes (gs_arena g)) \<Longrightarrow> snake_mid g s \<Longrightarrow> snake_mid g (f s) \<and> (sn_alive (f s) \<longrightarrow> sn_alive s)"
  shows "playable post (map_snakes f g)"
  unfolding map_snakes_def
proof (rule playable_set_snakes [OF assms(1)])
  fix n
  assume n: "n < length (map f (ar_snakes (gs_arena g)))"
  then have "ar_snakes (gs_arena g) ! n \<in> set (ar_snakes (gs_arena g))"
    by simp
  note assms(2) [OF this playable_snake [OF assms(1) this]]
  then show "snake_mid g (map f (ar_snakes (gs_arena g)) ! n)"
    and "kicked_snake g n \<Longrightarrow> \<not> sn_alive (map f (ar_snakes (gs_arena g)) ! n)"
    using n playable_kicked_dead [OF assms(1), of n] by auto
qed simp

lemma playable_update_snake:
  assumes "playable post g"
    and "\<And>s. snake_at g i = Some s \<Longrightarrow> snake_mid g s \<Longrightarrow>
      snake_mid g (f s) \<and> (sn_alive (f s) \<longrightarrow> sn_alive s \<or> \<not> kicked_snake g (unat i))"
  shows "playable post (update_snake i f g)"
  unfolding update_snake_def
proof (rule playable_set_snakes [OF assms(1)])
  fix n
  assume n: "n < length (upd_at (unat i) f (ar_snakes (gs_arena g)))"
  then have mid: "snake_mid g (ar_snakes (gs_arena g) ! n)"
    using playable_snake [OF assms(1)] by simp
  show "snake_mid g (upd_at (unat i) f (ar_snakes (gs_arena g)) ! n)"
    using n mid assms(2) by (auto simp: nth_upd_at snake_at_def)
  show "kicked_snake g n \<Longrightarrow> \<not> sn_alive (upd_at (unat i) f (ar_snakes (gs_arena g)) ! n)"
    using n mid assms(2) playable_kicked_dead [OF assms(1), of n] by (auto simp: nth_upd_at snake_at_def)
qed simp

definition playable_view where
  "playable_view g = (gs_properties g, gs_game_type g, gs_queue_mode g, gs_arena g, gs_players g,
     gs_food_pickups g, gs_last_death_causes g, gs_idle_kicked_user_ids g,
     gs_player_last_activity_ticks g, gs_tick g, gs_completed_by_inactivity g \<longrightarrow> is_complete g)"

lemma playable_cong:
  assumes "playable_view g = playable_view g'"
  shows "playable post g = playable post g'"
proof -
  have view: "rules_view g = rules_view g'"
    using assms by (simp add: playable_view_def rules_view_def)
  have eqs: "gs_arena g = gs_arena g'" "gs_players g = gs_players g'" "gs_food_pickups g = gs_food_pickups g'"
    "gs_last_death_causes g = gs_last_death_causes g'" "gs_idle_kicked_user_ids g = gs_idle_kicked_user_ids g'"
    "gs_player_last_activity_ticks g = gs_player_last_activity_ticks g'" "gs_tick g = gs_tick g'"
    "(gs_completed_by_inactivity g \<longrightarrow> is_complete g) = (gs_completed_by_inactivity g' \<longrightarrow> is_complete g')"
    using assms unfolding playable_view_def by (metis prod.inject)+
  show ?thesis
    unfolding playable_def rules_ok_cong [OF view] env_ok_cong [OF view] players_ok_def snakes_ok_def
      pads_ok_def refs_ok_def idle_ok_def kicked_ok_def snake_exists_def snake_at_def snake_mid_cong [OF view] eqs ..
qed

text \<open>Fields that the invariant does not read.\<close>

lemma playable_ignores [simp]:
  "playable post (g\<lparr>gs_event_sequence := a\<rparr>) = playable post g"
  "playable post (g\<lparr>gs_scores := b\<rparr>) = playable post g"
  "playable post (g\<lparr>gs_command_queue := c\<rparr>) = playable post g"
  "playable post (g\<lparr>gs_player_xp := d\<rparr>) = playable post g"
  "playable post (g\<lparr>gs_recent_crashes := e\<rparr>) = playable post g"
  "playable post (g\<lparr>gs_recent_goals := f\<rparr>) = playable post g"
  "playable post (g\<lparr>gs_team_scores := h\<rparr>) = playable post g"
  "playable post (g\<lparr>gs_player_action_counts := k\<rparr>) = playable post g"
  "playable post (g\<lparr>gs_rng := r\<rparr>) = playable post g"
  by (rule playable_cong, simp add: playable_view_def is_complete_def)+

section \<open>Events\<close>

lemma interval_pos: "0 < unat (normal_movement_interval_ms g)"
  unfolding normal_movement_interval_ms_def
  by (auto simp: unat_gt_0 max_def word_le_nat_alt split: game_type.split)

lemma unat_threshold: "unat (movement_threshold g) = 1000 * unat (normal_movement_interval_ms g)"
  by (simp add: movement_threshold_def unat_credit_products)

lemma threshold_pos: "0 < movement_threshold g"
  using interval_pos [of g] by (simp add: word_less_nat_alt unat_threshold)

lemma credit_below_threshold:
  "ucast (sn_credit s) < movement_threshold g \<longleftrightarrow> credit_ok (normal_movement_interval_ms g) s"
  by (simp add: word_less_nat_alt unat_threshold credit_ok_def unsigned_ucast_eq take_bit_nat_eq_self
      less_trans [OF unat_u32_less])

lemma rules_boost:
  assumes "rules_ok g" and "gp_boost (gs_properties g) = Some c"
  shows "boost_config_validate c = Inr ()" and "gp_tick_duration_ms (gs_properties g) = 50"
    and "0 < bc_capacity_ms c" and "is_multiple_of (bc_capacity_ms c) 50"
  using assms boost_config_quantum [of c]
  by (simp_all add: rules_ok_def boost_rules_ok_def boost_config_validate_ok_iff word_gt_0)

lemma rules_combo_window:
  assumes "rules_ok g"
  shows "0 < cc_window_ms (gp_combo (gs_properties g))"
proof -
  have "combo_config_validate (gp_combo (gs_properties g)) = Inr ()"
    using assms by (simp add: rules_ok_def)
  then show ?thesis
    unfolding combo_config_validate_def guard_ok_iff by (simp add: word_gt_0)
qed

lemma combo_default_ok: "combo_snake_ok c (s\<lparr>sn_combo := snake_combo_default\<rparr>)"
  by (simp add: combo_snake_ok_def snake_combo_default_def)

lemma kill_snake_mid: "snake_mid g s \<Longrightarrow> snake_mid g (kill_snake s)"
  using threshold_pos [of g]
  by (auto simp: snake_mid_def kill_snake_def reset_combo_def reset_boost_and_movement_def combo_snake_ok_def
      snake_combo_default_def snake_boost_default_def split: option.splits)

lemma kick_snake_mid: "snake_mid g s \<Longrightarrow> snake_mid g ((kill_snake s)\<lparr>sn_boost := snake_boost_default\<rparr>)"
  using threshold_pos [of g]
  by (auto simp: snake_mid_def kill_snake_def reset_combo_def reset_boost_and_movement_def combo_snake_ok_def
      snake_combo_default_def snake_boost_default_def split: option.splits)

lemma kill_snake_dead [simp]: "\<not> sn_alive (kill_snake s)"
  by (simp add: kill_snake_def reset_combo_def reset_boost_and_movement_def)

lemma respawn_snake_mid:
  assumes "snake_mid g s" and "rules_ok g"
  shows "snake_mid g (reset_combo (reset_boost_and_movement (unlimited_boost_capacity_ms g)
    (s\<lparr>sn_body := [p, t], sn_direction := d, sn_alive := True, sn_food := 0\<rparr>)))"
  using assms threshold_pos [of g] rules_boost(4) [OF assms(2)]
  by (auto simp: snake_mid_def reset_combo_def reset_boost_and_movement_def combo_snake_ok_def
      snake_combo_default_def snake_boost_default_def unlimited_boost_capacity_ms_def
      split: option.splits)

lemma snake_mid_direction: "snake_mid g (s\<lparr>sn_direction := d\<rparr>) = snake_mid g s"
  by (simp add: snake_mid_def combo_snake_ok_def split: option.split)

lemma playable_rules: "playable post g \<Longrightarrow> rules_ok g"
  by (simp add: playable_def)

lemma playable_died:
  assumes "playable post g" and "snake_exists g i"
    and "\<And>k. attributed_snake_id cause = Some k \<Longrightarrow> snake_exists g k"
  shows "playable post (apply_event (SnakeDied i cause) g)"
proof -
  let ?g = "g\<lparr>gs_last_death_causes := hm_insert (gs_last_death_causes g) i cause\<rparr>"
  have view: "rules_view ?g = rules_view g"
    by (simp add: rules_view_def)
  have "refs_ok ?g"
    using assms by (auto simp: playable_def refs_ok_def snake_exists_def dest!: hm_insert_memD)
  then have "playable post ?g"
    using assms(1) rules_ok_cong [OF view] env_ok_cong [OF view] snake_mid_cong [OF view]
    by (simp add: playable_def players_ok_def snakes_ok_def pads_ok_def idle_ok_def kicked_ok_def snake_at_def
        snake_exists_def is_complete_def)
  then have "playable post (update_snake i kill_snake ?g)"
    by (rule playable_update_snake) (simp add: kill_snake_mid)
  then show ?thesis
    by (simp add: discard_commands_def)
qed

lemma playable_kicked:
  assumes "playable post g" and "hm_get (gs_players g) u = Some p" and "pl_snake_id p = i"
  shows "playable post (apply_event (PlayerIdleKicked u i) g)"
proof -
  let ?f = "\<lambda>s. (kill_snake s)\<lparr>sn_boost := snake_boost_default\<rparr>"
  let ?g = "update_snake i ?f g"
  have kills: "playable post ?g"
    using assms(1) by (rule playable_update_snake) (simp add: kick_snake_mid)
  have "(u, p) \<in> set (gs_players g)"
    using assms(2) by (rule hm_get_mem)
  then have "unat i < length (ar_snakes (gs_arena g))"
    using assms(1,3) by (auto simp: playable_def players_ok_def snake_exists_def)
  then have "kicked_ok ?g u"
    using assms(2,3) by (simp add: kicked_ok_def snake_at_def update_snake_def nth_upd_at)
  moreover have "sorted_wrt (<) (gs_idle_kicked_user_ids g)"
    using assms(1) by (simp add: playable_def idle_ok_def)
  note insert_sorted_set [OF this, of u] insert_sorted_sorted [OF this, of u]
  ultimately have idle: "idle_ok (?g\<lparr>gs_idle_kicked_user_ids := insert_sorted u (gs_idle_kicked_user_ids g)\<rparr>)"
    using kills by (simp add: playable_def idle_ok_def kicked_ok_def snake_at_def update_snake_def is_complete_def)
  let ?k = "?g\<lparr>gs_idle_kicked_user_ids := insert_sorted u (gs_idle_kicked_user_ids g)\<rparr>"
  have view: "rules_view ?k = rules_view ?g"
    by (simp add: rules_view_def)
  have "playable post ?k"
    using kills idle rules_ok_cong [OF view] env_ok_cong [OF view] snake_mid_cong [OF view]
    by (simp add: playable_def players_ok_def snakes_ok_def pads_ok_def refs_ok_def snake_exists_def)
  moreover have "playable_view (apply_event (PlayerIdleKicked u i) g) = playable_view ?k"
    by (simp add: playable_view_def update_snake_def discard_commands_def is_complete_def)
  ultimately show ?thesis
    using playable_cong by blast
qed

text \<open>Food: removal is free, a new pellet must avoid the pads.\<close>

lemma playable_set_food:
  assumes "playable post g"
    and "\<And>p pad. p \<in> set food \<Longrightarrow> p \<notin> set (ar_food (gs_arena g)) \<Longrightarrow>
      pad \<in> set (ar_boost_pads (gs_arena g)) \<Longrightarrow> p \<notin> set (footprint_cells pad)"
  shows "playable post (g\<lparr>gs_arena := (gs_arena g)\<lparr>ar_food := food\<rparr>\<rparr>)" (is "playable post ?g")
proof -
  have view: "rules_view ?g = rules_view g"
    by (simp add: rules_view_def)
  have "pads_ok post ?g"
    using assms by (fastforce simp: playable_def pads_ok_def)
  then show ?thesis
    using assms(1) rules_ok_cong [OF view] env_ok_cong [OF view] snake_mid_cong [OF view]
    by (simp add: playable_def players_ok_def snakes_ok_def refs_ok_def idle_ok_def kicked_ok_def snake_at_def
        snake_exists_def is_complete_def)
qed

lemma playable_food_spawned:
  assumes "playable post g" and "pos_in_i16 p" and "\<not> is_boost_pad_position (gs_arena g) p"
  shows "playable post (apply_event (FoodSpawned p) g)"
proof -
  have "p \<notin> set (footprint_cells pad)" if "pad \<in> set (ar_boost_pads (gs_arena g))" for pad
    using assms(2,3) that in_footprint_iff by (auto simp: is_boost_pad_position_def list_ex_iff pos_in_i16_def)
  then show ?thesis
    using assms(1) by (auto intro!: playable_set_food)
qed

lemma playable_pickup:
  assumes "playable post g" and "snake_exists g i" and "m = gs_food_pickups g"
  shows "playable post (g\<lparr>gs_food_pickups := hm_insert m i n\<rparr>)" (is "playable post ?g")
proof -
  have view: "rules_view ?g = rules_view g"
    by (simp add: rules_view_def)
  have "refs_ok ?g"
    using assms by (auto simp: playable_def refs_ok_def snake_exists_def hm_keys_def dest!: hm_insert_memD)
  then show ?thesis
    using assms(1) rules_ok_cong [OF view] env_ok_cong [OF view] snake_mid_cong [OF view]
    by (simp add: playable_def players_ok_def snakes_ok_def pads_ok_def idle_ok_def kicked_ok_def snake_at_def
        snake_exists_def is_complete_def)
qed

lemma playable_food_eaten:
  assumes "playable post g" and "\<And>s. snake_at g i = Some s \<Longrightarrow> sn_alive s"
  shows "playable post (apply_event (FoodEaten i p points chain before b) g)"
proof -
  define food where "food = filter (\<lambda>q. q \<noteq> p) (ar_food (gs_arena g))"
  define g1 where "g1 = g\<lparr>gs_arena := (gs_arena g)\<lparr>ar_food := food\<rparr>\<rparr>"
  have g1: "playable post g1"
    unfolding g1_def food_def using assms(1) by (rule playable_set_food) auto
  let ?f = "\<lambda>s. s\<lparr>sn_food := sat_add (sn_food s) points,
    sn_combo := \<lparr>chain_count = chain, remaining_ms = cc_window_ms (gp_combo (gs_properties g1))\<rparr>\<rparr>"
  have at: "snake_at g1 i = snake_at g i"
    by (simp add: g1_def snake_at_def)
  have "playable post (update_snake i ?f g1)" if "chain > 0"
    using g1
  proof (rule playable_update_snake)
    fix s
    assume "snake_at g1 i = Some s" and "snake_mid g1 s"
    then show "snake_mid g1 (?f s) \<and> (sn_alive (?f s) \<longrightarrow> sn_alive s \<or> \<not> kicked_snake g1 (unat i))"
      using assms(2) that at rules_combo_window [OF playable_rules [OF g1]]
      by (auto simp: snake_mid_def combo_snake_ok_def word_gt_0 split: option.splits)
  qed
  then have eaten: "playable post ((update_snake i ?f g1)\<lparr>gs_food_pickups := hm_insert (gs_food_pickups g1) i n\<rparr>)"
    if "chain > 0" "snake_exists g i" for n
    using that by (intro playable_pickup) (simp_all add: update_snake_def g1_def snake_exists_def)
  show ?thesis
  proof (cases "combo_event_fields_are_bounded g points chain before \<and> snake_at g i \<noteq> None \<and>
      length food \<noteq> length (ar_food (gs_arena g))")
    case True
    then have "playable_view (apply_event (FoodEaten i p points chain before b) g) = playable_view
        ((update_snake i ?f g1)\<lparr>gs_food_pickups := hm_insert (gs_food_pickups g1) i
          (sat_add (hm_get_or (gs_food_pickups g1) i 0) 1)\<rparr>)"
      by (simp add: apply_food_eaten_def remove_food_def Let_def playable_view_def update_snake_def
          is_complete_def food_def g1_def)
    moreover have "chain > 0" and "snake_exists g i"
      using True by (auto simp: combo_event_fields_are_bounded_def snake_at_def snake_exists_def)
    ultimately show ?thesis
      using eaten playable_cong by blast
  next
    case False
    then have "apply_event (FoodEaten i p points chain before b) g = g \<or>
        apply_event (FoodEaten i p points chain before b) g = g1"
      by (auto simp: apply_food_eaten_def remove_food_def Let_def food_def g1_def)
    then show ?thesis
      using assms(1) g1 by auto
  qed
qed

text \<open>Packets.\<close>

lemma cool_pad_signatures: "map pad_signature (cool_pad i t pads) = map pad_signature pads"
  by (induction pads) (simp_all add: pad_signature_def)

lemma cool_pad_mem:
  "pad \<in> set (cool_pad i t pads) \<Longrightarrow>
     pad \<in> set pads \<or> (\<exists>old \<in> set pads. pad = old\<lparr>bp_respawn_at_tick := Some t\<rparr>)"
  by (induction pads) (auto split: if_splits)

lemma playable_set_pads:
  assumes "playable post g" and "map pad_signature pads = map pad_signature (ar_boost_pads (gs_arena g))"
    and "pads_ok post' (g\<lparr>gs_arena := (gs_arena g)\<lparr>ar_boost_pads := pads\<rparr>\<rparr>)"
  shows "playable post' (g\<lparr>gs_arena := (gs_arena g)\<lparr>ar_boost_pads := pads\<rparr>\<rparr>)" (is "playable post' ?g")
proof -
  have view: "rules_view ?g = rules_view g"
    using assms(2) by (simp add: rules_view_def)
  show ?thesis
    using assms(1,3) rules_ok_cong [OF view] env_ok_cong [OF view] snake_mid_cong [OF view]
    by (simp add: playable_def players_ok_def snakes_ok_def refs_ok_def idle_ok_def kicked_ok_def snake_at_def
        snake_exists_def is_complete_def)
qed

lemma footprint_cells_respawn [simp]:
  "footprint_cells (pad\<lparr>bp_respawn_at_tick := t\<rparr>) = footprint_cells pad"
  by (simp add: footprint_cells_def)

lemma playable_packet:
  assumes "playable post g" and "post < t" and "\<And>s. snake_at g i = Some s \<Longrightarrow> sn_alive s"
    and "\<And>c. gp_boost (gs_properties g) = Some c \<Longrightarrow> \<not> bc_unlimited c"
  shows "playable post (apply_event (BoostPacketCollected pad i charge t) g)"
proof -
  let ?pads = "cool_pad pad t (ar_boost_pads (gs_arena g))"
  define g1 where "g1 = g\<lparr>gs_arena := (gs_arena g)\<lparr>ar_boost_pads := ?pads\<rparr>\<rparr>"
  have "pads_ok post g1"
    using assms(1,2) by (fastforce simp: g1_def playable_def pads_ok_def dest!: cool_pad_mem)
  then have g1: "playable post g1"
    unfolding g1_def by (rule playable_set_pads [OF assms(1) cool_pad_signatures])
  have "playable post (update_snake i (\<lambda>s. s\<lparr>sn_boost := (sn_boost s)\<lparr>charge_ms := charge\<rparr>\<rparr>) g1)"
    if c: "gp_boost (gs_properties g) = Some c" "charge > 0" "charge \<le> bc_capacity_ms c" "is_multiple_of charge 50"
    for c
    using g1
  proof (rule playable_update_snake)
    fix s
    assume "snake_at g1 i = Some s" and mid: "snake_mid g1 s"
    then have "sn_alive s"
      using assms(3) by (simp add: g1_def snake_at_def)
    moreover have "gp_boost (gs_properties g1) = Some c" and "movement_threshold g1 = movement_threshold g"
      using c by (simp_all add: g1_def movement_threshold_def normal_movement_interval_ms_def)
    ultimately show "snake_mid g1 (s\<lparr>sn_boost := (sn_boost s)\<lparr>charge_ms := charge\<rparr>\<rparr>) \<and>
        (sn_alive (s\<lparr>sn_boost := (sn_boost s)\<lparr>charge_ms := charge\<rparr>\<rparr>) \<longrightarrow> sn_alive s \<or> \<not> kicked_snake g1 (unat i))"
      using mid c assms(4) [OF c(1)] by (simp add: snake_mid_def combo_snake_ok_def)
  qed
  then show ?thesis
    using g1 by (auto simp: apply_packet_collected_def Let_def g1_def split: option.split)
qed

lemma playable_respawned:
  assumes "playable post g" and "\<not> kicked_snake g (unat i)"
  shows "playable post (apply_event (SnakeRespawned i p d) g)"
proof -
  have "playable post (update_snake i (\<lambda>s. reset_combo (reset_boost_and_movement (unlimited_boost_capacity_ms g)
      (s\<lparr>sn_body := [p, t], sn_direction := d, sn_alive := True, sn_food := 0\<rparr>))) g)" for t
    using assms respawn_snake_mid [OF _ playable_rules [OF assms(1)]]
    by (intro playable_update_snake) blast+
  then show ?thesis
    by (simp add: Let_def discard_commands_def)
qed

text \<open>When a quantum may apply an event, and what every such event keeps.\<close>

fun event_ok :: "u32 \<Rightarrow> game_state \<Rightarrow> game_event \<Rightarrow> bool" where
  "event_ok post g (SnakeTurned i d) = True"
| "event_ok post g (SnakeDied i cause) =
     (snake_exists g i \<and> (\<forall>k. attributed_snake_id cause = Some k \<longrightarrow> snake_exists g k))"
| "event_ok post g (PlayerIdleKicked u i) = (\<exists>p. hm_get (gs_players g) u = Some p \<and> pl_snake_id p = i)"
| "event_ok post g (FoodSpawned p) = (pos_in_i16 p \<and> \<not> is_boost_pad_position (gs_arena g) p)"
| "event_ok post g (FoodEaten i p points chain before b) = (\<forall>s. snake_at g i = Some s \<longrightarrow> sn_alive s)"
| "event_ok post g (BoostPacketCollected pad i charge t) =
     (post < t \<and> (\<forall>s. snake_at g i = Some s \<longrightarrow> sn_alive s) \<and>
      (\<forall>c. gp_boost (gs_properties g) = Some c \<longrightarrow> \<not> bc_unlimited c))"
| "event_ok post g (StatusUpdated st) = (gs_completed_by_inactivity g \<longrightarrow> (\<exists>w. st = Complete w))"
| "event_ok post g (ScoreUpdated i n) = True"
| "event_ok post g (TeamScoreUpdated team n) = True"
| "event_ok post g (SnakeRespawned i p d) = (\<not> kicked_snake g (unat i))"
| "event_ok post g (XPAwarded xp) = True"
| "event_ok post g _ = False"

lemma playable_status:
  assumes "playable post g" and "gs_completed_by_inactivity g \<longrightarrow> (\<exists>w. st = Complete w)"
  shows "playable post (g\<lparr>gs_status := st\<rparr>)"
proof -
  have view: "rules_view (g\<lparr>gs_status := st\<rparr>) = rules_view g"
    by (simp add: rules_view_def)
  show ?thesis
    using assms rules_ok_cong [OF view] env_ok_cong [OF view] snake_mid_cong [OF view]
    by (auto simp: playable_def players_ok_def snakes_ok_def pads_ok_def refs_ok_def idle_ok_def kicked_ok_def
        snake_at_def snake_exists_def is_complete_def)
qed

lemma apply_event_playable:
  assumes "playable post g" and "event_ok post g e"
  shows "playable post (apply_event e g)"
proof (cases e)
  case (SnakeTurned i d)
  then show ?thesis
    using assms(1) by (auto intro!: playable_update_snake simp: snake_mid_direction)
next
  case (SnakeDied i cause)
  then show ?thesis using assms playable_died by simp
next
  case (PlayerIdleKicked u i)
  then show ?thesis using assms playable_kicked by auto
next
  case (FoodSpawned p)
  then show ?thesis using assms playable_food_spawned by auto
next
  case (FoodEaten i p points chain before b)
  then show ?thesis using assms playable_food_eaten by simp
next
  case (BoostPacketCollected pad i charge t)
  then show ?thesis using assms playable_packet by simp
next
  case (SnakeRespawned i p d)
  then show ?thesis using assms playable_respawned by simp
next
  case (StatusUpdated st)
  then show ?thesis using assms playable_status by simp
qed (use assms in \<open>simp_all split: option.split\<close>)

lemma event_ok_sequence [simp]: "event_ok post (g\<lparr>gs_event_sequence := n\<rparr>) e = event_ok post g e"
  by (cases e) (simp_all add: snake_exists_def snake_at_def kicked_snake_def)

lemma emit_playable:
  assumes "playable post (fst st)" and "event_ok post (fst st) e"
  shows "playable post (fst (emit e st))"
  using assms by (cases st) (simp add: emit_def Let_def apply_event_playable)

section \<open>What a quantum keeps fixed\<close>

definition same_match :: "game_state \<Rightarrow> game_state \<Rightarrow> bool" where
  "same_match g g' \<longleftrightarrow> gs_properties g' = gs_properties g \<and> gs_game_type g' = gs_game_type g \<and>
     gs_queue_mode g' = gs_queue_mode g \<and> gs_tick g' = gs_tick g \<and> gs_players g' = gs_players g \<and>
     gs_completed_by_inactivity g' = gs_completed_by_inactivity g \<and>
     gs_start_ms g' = gs_start_ms g \<and> gs_readiness g' = gs_readiness g \<and>
     gs_simulation_epoch_ms g' = gs_simulation_epoch_ms g \<and>
     length (ar_snakes (gs_arena g')) = length (ar_snakes (gs_arena g)) \<and>
     ar_width (gs_arena g') = ar_width (gs_arena g) \<and> ar_height (gs_arena g') = ar_height (gs_arena g) \<and>
     ar_team_zone_config (gs_arena g') = ar_team_zone_config (gs_arena g) \<and>
     map pad_signature (ar_boost_pads (gs_arena g')) = map pad_signature (ar_boost_pads (gs_arena g))"

lemma same_match_refl [simp]: "same_match g g"
  by (simp add: same_match_def)

lemma same_match_trans: "same_match g g' \<Longrightarrow> same_match g' g'' \<Longrightarrow> same_match g g''"
  unfolding same_match_def by simp

text \<open>What the wall clock of the match depends on.\<close>

definition timing where
  "timing g = (gs_properties g, gs_start_ms g, gs_readiness g, gs_simulation_epoch_ms g)"

lemma same_match_timing: "same_match g g' \<Longrightarrow> timing g' = timing g"
  by (simp add: same_match_def timing_def)

lemma same_match_view: "same_match g g' \<Longrightarrow> rules_view g' = rules_view g"
  by (simp add: same_match_def rules_view_def)

lemma same_match_exists: "same_match g g' \<Longrightarrow> snake_exists g' i = snake_exists g i"
  by (simp add: same_match_def snake_exists_def)

definition same_kicked :: "game_state \<Rightarrow> game_state \<Rightarrow> bool" where
  "same_kicked g g' \<longleftrightarrow> gs_idle_kicked_user_ids g' = gs_idle_kicked_user_ids g"

definition same_alive :: "game_state \<Rightarrow> game_state \<Rightarrow> bool" where
  "same_alive g g' \<longleftrightarrow> map sn_alive (ar_snakes (gs_arena g')) = map sn_alive (ar_snakes (gs_arena g))"

definition all_funded :: "game_state \<Rightarrow> bool" where
  "all_funded g \<longleftrightarrow> (\<forall>s \<in> set (ar_snakes (gs_arena g)). funded s)"

lemma same_match_map_snakes [simp]: "same_match g (map_snakes f g)"
  by (simp add: same_match_def map_snakes_def)

lemma same_match_update_snake [simp]: "same_match g (update_snake i f g)"
  by (simp add: same_match_def update_snake_def)

fun is_kick :: "game_event \<Rightarrow> bool" where
  "is_kick (PlayerIdleKicked _ _) = True"
| "is_kick _ = False"

lemma apply_event_same_match: "event_ok post g e \<Longrightarrow> same_match g (apply_event e g)"
  by (cases e)
    (simp_all add: same_match_def update_snake_def discard_commands_def apply_food_eaten_def remove_food_def
      apply_packet_collected_def Let_def cool_pad_signatures split: option.split)

lemma apply_event_same_kicked:
  "event_ok post g e \<Longrightarrow> \<not> is_kick e \<Longrightarrow> same_kicked g (apply_event e g)"
  by (cases e)
    (simp_all add: same_kicked_def update_snake_def discard_commands_def apply_food_eaten_def remove_food_def
      apply_packet_collected_def Let_def split: option.split)

lemma all_funded_update_snake:
  "all_funded g \<Longrightarrow> (\<And>s. funded s \<Longrightarrow> funded (f s)) \<Longrightarrow> all_funded (update_snake i f g)"
  by (auto simp: all_funded_def update_snake_def dest!: set_upd_atD)

lemma all_funded_cong:
  "ar_snakes (gs_arena g) = ar_snakes (gs_arena g') \<Longrightarrow> all_funded g = all_funded g'"
  by (simp add: all_funded_def)

lemma funded_resets [simp]:
  "funded (kill_snake s)" "funded (s\<lparr>sn_boost := snake_boost_default\<rparr>)"
  "funded (reset_combo (reset_boost_and_movement c s))" "funded (s\<lparr>sn_direction := d\<rparr>) = funded s"
  "funded (s\<lparr>sn_food := n, sn_combo := m\<rparr>) = funded s"
  by (simp_all add: funded_def kill_snake_def reset_combo_def reset_boost_and_movement_def snake_boost_default_def)

lemma apply_event_funded:
  assumes "event_ok post g e" and "all_funded g"
  shows "all_funded (apply_event e g)"
proof (cases e)
  case (SnakeDied i cause)
  let ?g = "g\<lparr>gs_last_death_causes := hm_insert (gs_last_death_causes g) i cause\<rparr>"
  have "all_funded (update_snake i kill_snake ?g)"
    using assms(2) by (intro all_funded_update_snake) (simp_all add: all_funded_def)
  then show ?thesis using SnakeDied by (simp add: all_funded_def discard_commands_def)
next
  case (PlayerIdleKicked u i)
  let ?g = "g\<lparr>gs_idle_kicked_user_ids := insert_sorted u (gs_idle_kicked_user_ids g)\<rparr>"
  have "all_funded (update_snake i (\<lambda>s. (kill_snake s)\<lparr>sn_boost := snake_boost_default\<rparr>) ?g)"
    using assms(2) by (intro all_funded_update_snake) (simp_all add: all_funded_def)
  then show ?thesis using PlayerIdleKicked by (simp add: all_funded_def discard_commands_def)
next
  case (FoodEaten i p points chain before b)
  let ?g = "g\<lparr>gs_arena := (gs_arena g)\<lparr>ar_food := filter (\<lambda>q. q \<noteq> p) (ar_food (gs_arena g))\<rparr>\<rparr>"
  have "all_funded ?g"
    using assms(2) by (simp add: all_funded_def)
  then have "all_funded (update_snake i (\<lambda>s. s\<lparr>sn_food := sat_add (sn_food s) points, sn_combo := c\<rparr>) ?g)" for c
    by (rule all_funded_update_snake) simp
  then show ?thesis
    using assms(2) FoodEaten
    by (simp add: all_funded_def apply_food_eaten_def remove_food_def Let_def update_snake_def)
next
  case (BoostPacketCollected pad i charge t)
  let ?g = "g\<lparr>gs_arena := (gs_arena g)\<lparr>ar_boost_pads := cool_pad pad t (ar_boost_pads (gs_arena g))\<rparr>\<rparr>"
  have "all_funded ?g"
    using assms(2) by (simp add: all_funded_def)
  then have "all_funded (update_snake i (\<lambda>s. s\<lparr>sn_boost := (sn_boost s)\<lparr>charge_ms := charge\<rparr>\<rparr>) ?g)" if "charge > 0"
    using that by (intro all_funded_update_snake) (simp_all add: funded_def word_gt_0)
  then show ?thesis
    using \<open>all_funded ?g\<close> BoostPacketCollected by (simp add: apply_packet_collected_def Let_def split: option.split)
next
  case (SnakeRespawned i p d)
  have "all_funded (update_snake i (\<lambda>s. reset_combo (reset_boost_and_movement (unlimited_boost_capacity_ms g)
      (s\<lparr>sn_body := [p, t], sn_direction := d, sn_alive := True, sn_food := 0\<rparr>))) g)" for t
    using assms(2) by (rule all_funded_update_snake) simp
  then show ?thesis using SnakeRespawned by (simp add: all_funded_def Let_def discard_commands_def)
next
  case (SnakeTurned i d)
  then show ?thesis using assms(2) by (simp add: all_funded_update_snake)
qed (use assms in \<open>simp_all add: all_funded_def split: option.split\<close>)

text \<open>One emitted event, in the form the phases use.\<close>

lemma emit_step:
  assumes "playable post (fst st)" and "event_ok post (fst st) e"
  shows "playable post (fst (emit e st))" and "same_match (fst st) (fst (emit e st))"
    and "\<not> is_kick e \<Longrightarrow> same_kicked (fst st) (fst (emit e st))"
    and "all_funded (fst st) \<Longrightarrow> all_funded (fst (emit e st))"
proof -
  obtain g out where st: "st = (g, out)" by fastforce
  let ?g = "g\<lparr>gs_event_sequence := gs_event_sequence g + 1\<rparr>"
  have ok: "event_ok post ?g e"
    using assms(2) st by simp
  show "playable post (fst (emit e st))"
    using assms by (rule emit_playable)
  show "same_match (fst st) (fst (emit e st))"
    using apply_event_same_match [OF ok] by (simp add: st emit_def Let_def same_match_def)
  show "same_kicked (fst st) (fst (emit e st))" if "\<not> is_kick e"
    using apply_event_same_kicked [OF ok that] by (simp add: st emit_def Let_def same_kicked_def)
  show "all_funded (fst (emit e st))" if "all_funded (fst st)"
    using apply_event_funded [OF ok] that by (simp add: st emit_def Let_def all_funded_def)
qed

end
