(* ===== verification/Tick_Safety.thy ===== *)
theory Tick_Safety
  imports Match_Invariant
begin

text \<open>
  Every phase of a quantum keeps the invariant of a running match, and none of the errors and
  panics of the source can be reached from a simulable state. The lemmas follow the phases of
  \<open>tick_forward_observing_boost\<close> in order; the last section composes them.
\<close>

section \<open>Beginning and inactivity\<close>

lemma begin_tick_ok:
  assumes "playable post g"
  shows "playable post (fst (begin_tick g))" and "same_match g (fst (begin_tick g))"
    and "all_funded g \<Longrightarrow> all_funded (fst (begin_tick g))"
    and "gs_status (fst (begin_tick g)) = gs_status g"
  using assms by (auto simp: begin_tick_def Let_def same_match_def all_funded_def)

lemma tracking_entries:
  "(u, t) \<in> set (foldl (\<lambda>m u. if hm_contains m u then m else hm_insert m u now) m us) \<Longrightarrow>
     (u, t) \<in> set m \<or> u \<in> set us \<and> t = now"
  by (induction us arbitrary: m) (fastforce dest: hm_insert_memD split: if_splits)+

lemma ensure_tracking_ok:
  assumes "playable post g"
  shows "playable post (ensure_player_idle_tracking g)" and "same_match g (ensure_player_idle_tracking g)"
    and "all_funded (ensure_player_idle_tracking g) = all_funded g"
    and "gs_players (ensure_player_idle_tracking g) = gs_players g"
proof -
  let ?g = "ensure_player_idle_tracking g"
  show match: "same_match g ?g"
    by (simp add: ensure_player_idle_tracking_def same_match_def)
  show "all_funded ?g = all_funded g" and "gs_players ?g = gs_players g"
    by (simp_all add: ensure_player_idle_tracking_def all_funded_def)
  note view = same_match_view [OF match]
  have "hm_contains (gs_players g) u \<and> t \<le> gs_tick g" if "(u, t) \<in> set (gs_player_last_activity_ticks ?g)" for u t
  proof -
    have "(u, t) \<in> set (gs_player_last_activity_ticks g) \<or> u \<in> set (hm_keys (gs_players g)) \<and> t = gs_tick g"
      using that by (intro tracking_entries) (simp add: ensure_player_idle_tracking_def)
    then show ?thesis
      using assms by (auto simp: playable_def idle_ok_def hm_contains_iff)
  qed
  then have "idle_ok ?g"
    using assms unfolding playable_def idle_ok_def kicked_ok_def snake_at_def is_complete_def
    by (auto simp: ensure_player_idle_tracking_def)
  then show "playable post ?g"
    using assms rules_ok_cong [OF view] env_ok_cong [OF view] snake_mid_cong [OF view]
    by (simp add: playable_def players_ok_def snakes_ok_def pads_ok_def refs_ok_def snake_exists_def
        ensure_player_idle_tracking_def)
qed

lemma expired_are_players:
  assumes "(u, i) \<in> set (expired_players g post)"
  shows "\<exists>p. (u, p) \<in> set (gs_players g) \<and> pl_snake_id p = i"
  using assms by (auto simp: expired_players_def Let_def)

lemma kick_all_ok:
  assumes "playable post (fst st)" and "all_funded (fst st)"
    and "\<And>u i. (u, i) \<in> set kicks \<Longrightarrow> \<exists>p. hm_get (gs_players (fst st)) u = Some p \<and> pl_snake_id p = i"
  shows "let st' = foldl (\<lambda>st (u, i). emit (PlayerIdleKicked u i) st) st kicks in
    playable post (fst st') \<and> all_funded (fst st') \<and> same_match (fst st) (fst st') \<and>
    gs_status (fst st') = gs_status (fst st)"
  using assms
proof (induction kicks arbitrary: st)
  case (Cons k kicks)
  obtain u i where k: "k = (u, i)" by fastforce
  let ?st = "emit (PlayerIdleKicked u i) st"
  have "event_ok post (fst st) (PlayerIdleKicked u i)"
    using Cons.prems(3) k by auto
  note step = emit_step [OF Cons.prems(1) this]
  have players: "gs_players (fst ?st) = gs_players (fst st)"
    using step(2) by (simp add: same_match_def)
  have status: "gs_status (fst ?st) = gs_status (fst st)"
    by (cases st) (simp add: emit_def Let_def discard_commands_def update_snake_def)
  show ?case
    using Cons.IH [OF step(1) step(4) [OF Cons.prems(2)]] Cons.prems(3) step(2) same_match_trans
    by (auto simp: k players status Let_def)
qed simp

lemma hm_get_of_mem: "hm_wf m \<Longrightarrow> (k, v) \<in> set m \<Longrightarrow> hm_get m k = Some v"
  by (simp add: hm_get_def hm_wf_def map_of_eq_Some_iff)

text \<open>
  The match goes on in a playable state with the same rules; or it is finished, and then it is
  complete, nothing but the inactivity marker is new to the invariant, and the tick is untouched.
\<close>

lemma resolve_inactivity_ok:
  assumes "playable post (fst st)" and "all_funded (fst st)" and "\<not> is_complete (fst st)"
    and "resolve_player_inactivity post_tick st = (st', finished)"
  shows "playable post (fst st')" and "all_funded (fst st')"
    and "gs_tick (fst st') = gs_tick (fst st)"
    and "finished \<longleftrightarrow> is_complete (fst st')"
    and "finished \<Longrightarrow> gs_completed_by_inactivity (fst st')"
    and "\<not> finished \<Longrightarrow> same_match (fst st) (fst st')"
    and "timing (fst st') = timing (fst st)"
proof -
  obtain g out where st: "st = (g, out)" by fastforce
  define g1 where "g1 = ensure_player_idle_tracking g"
  define kicked where "kicked = foldl (\<lambda>st (u, i). emit (PlayerIdleKicked u i) st) (g1, out) (expired_players g1 post_tick)"
  have g: "playable post g" "all_funded g" "\<not> is_complete g"
    using assms st by simp_all
  note track = ensure_tracking_ok [OF g(1), folded g1_def]
  have wf: "hm_wf (gs_players g1)"
    using track(1) by (simp add: playable_def players_ok_def)
  have "\<exists>p. hm_get (gs_players (fst (g1, out))) u = Some p \<and> pl_snake_id p = i"
    if "(u, i) \<in> set (expired_players g1 post_tick)" for u i
    using expired_are_players [OF that] hm_get_of_mem [OF wf] by auto
  then have k: "playable post (fst kicked)" "all_funded (fst kicked)" "same_match g1 (fst kicked)"
      "gs_status (fst kicked) = gs_status g1"
    using kick_all_ok [of post "(g1, out)" "expired_players g1 post_tick"] track g
    by (simp_all add: kicked_def Let_def)
  have status1: "gs_status g1 = gs_status g"
    by (simp add: g1_def ensure_player_idle_tracking_def)
  then have not_complete: "\<not> is_complete g1" "\<not> is_complete (fst kicked)"
    using g(3) k(4) by (simp_all add: is_complete_def)
  have match: "same_match g (fst kicked)"
    using same_match_trans [OF track(2) k(3)] .
  consider (same) "st' = (g, out)" "\<not> finished" | (tracked) "st' = (g1, out)" "\<not> finished"
    | (kicks) "st' = kicked" "\<not> finished"
    | (won) w where "finished" "st' = emit (StatusUpdated (Complete w)) (emit (XPAwarded (inactivity_xp_awards
        ((fst kicked)\<lparr>gs_completed_by_inactivity := True\<rparr>) w))
        ((fst kicked)\<lparr>gs_completed_by_inactivity := True\<rparr>, snd kicked))"
    using assms(4) unfolding st resolve_player_inactivity_def g1_def kicked_def
    by (auto simp: Let_def case_prod_beta split: if_splits option.splits)
  then have "playable post (fst st') \<and> all_funded (fst st') \<and> gs_tick (fst st') = gs_tick g \<and>
      (finished \<longleftrightarrow> is_complete (fst st')) \<and> (finished \<longrightarrow> gs_completed_by_inactivity (fst st')) \<and>
      (\<not> finished \<longrightarrow> same_match g (fst st')) \<and> timing (fst st') = timing g"
  proof cases
    case (won w)
    have "playable_view (fst st') = playable_view (fst kicked)"
      using k(1) won(2) unfolding playable_def idle_ok_def
      by (simp add: playable_view_def emit_def Let_def is_complete_def)
    then have "playable post (fst st')"
      using k(1) playable_cong by blast
    moreover have "all_funded (fst st')"
      using k(2) by (simp add: won(2) emit_def Let_def all_funded_def)
    ultimately show ?thesis
      using won match by (simp add: emit_def Let_def is_complete_def same_match_def timing_def)
  qed (use g track k match not_complete in \<open>auto simp: same_match_def timing_def\<close>)
  then show "playable post (fst st')" and "all_funded (fst st')"
    and "gs_tick (fst st') = gs_tick (fst st)"
    and "finished \<longleftrightarrow> is_complete (fst st')"
    and "finished \<Longrightarrow> gs_completed_by_inactivity (fst st')"
    and "\<not> finished \<Longrightarrow> same_match (fst st) (fst st')" and "timing (fst st') = timing (fst st)"
    by (simp_all add: st)
qed

section \<open>Meters, pads and commands\<close>

lemma combo_snake_ok_wf: "combo_snake_ok c s \<longleftrightarrow> combo_wf (cc_window_ms c) s"
  by (auto simp: combo_snake_ok_def combo_wf_def)

lemma drain_combo_fields [simp]:
  "sn_alive (drain_combo t s) = sn_alive s" "sn_body (drain_combo t s) = sn_body s"
  "sn_credit (drain_combo t s) = sn_credit s" "sn_speed (drain_combo t s) = sn_speed s"
  "sn_boost (drain_combo t s) = sn_boost s"
  by (simp_all add: drain_combo_def Let_def)

lemma snake_mid_drain: "snake_mid g s \<Longrightarrow> snake_mid g (drain_combo t s)"
  using drain_combo_wf [of "cc_window_ms (gp_combo (gs_properties g))" s t]
  unfolding snake_mid_def combo_snake_ok_wf drain_combo_fields by blast

lemma drain_combos_ok:
  assumes "playable post g"
  shows "playable post (drain_combos g)" and "same_match g (drain_combos g)"
  using assms by (auto simp: drain_combos_def snake_mid_drain intro!: playable_map_snakes)

lemma ready_pads_ok:
  assumes "playable post g"
  shows "playable post' (ready_pads post' g)" and "same_match g (ready_pads post' g)"
proof -
  let ?ready = "\<lambda>pad. if (case bp_respawn_at_tick pad of Some t \<Rightarrow> t \<le> post' | None \<Rightarrow> False)
    then pad\<lparr>bp_respawn_at_tick := None\<rparr> else pad"
  have sig: "map pad_signature (map ?ready pads) = map pad_signature pads" for pads
    by (simp add: pad_signature_def)
  show "same_match g (ready_pads post' g)"
    by (simp add: same_match_def ready_pads_def sig [unfolded map_map])
  show "playable post' (ready_pads post' g)"
    unfolding ready_pads_def
  proof (rule playable_set_pads [OF assms sig])
    show "pads_ok post' (g\<lparr>gs_arena := (gs_arena g)\<lparr>ar_boost_pads := map ?ready (ar_boost_pads (gs_arena g))\<rparr>\<rparr>)"
      using assms by (auto simp: playable_def pads_ok_def not_le disjoint_iff split: option.splits)
  qed
qed

lemma record_action_ok [simp]:
  "playable post (record_player_action_for_snake i g) = playable post g"
  "same_match g' (record_player_action_for_snake i g) = same_match g' g"
  "same_kicked g' (record_player_action_for_snake i g) = same_kicked g' g"
  by (simp_all add: record_player_action_for_snake_def same_match_def same_kicked_def split: option.split)

lemma snake_mid_intent:
  assumes "snake_mid g s" and "gp_boost (gs_properties g) \<noteq> None"
  shows "snake_mid g (fst (set_boost_intent b s))"
  using assms by (auto simp: snake_mid_def set_boost_intent_def combo_snake_ok_def)

lemma set_boost_intent_alive [simp]: "sn_alive (fst (set_boost_intent b s)) = sn_alive s"
  by (simp add: set_boost_intent_def)

lemma latch_ok:
  assumes "playable post g"
  shows "playable post (latch_boost_intent i b g)" and "same_match g (latch_boost_intent i b g)"
    and "same_kicked g (latch_boost_intent i b g)"
proof -
  have "playable post (update_snake i (\<lambda>_. fst (set_boost_intent b s)) g)"
    if "snake_at g i = Some s" and "gp_boost (gs_properties g) \<noteq> None" for s
    using assms that by (intro playable_update_snake) (auto simp: snake_mid_intent)
  then show "playable post (latch_boost_intent i b g)"
    using assms by (auto simp: latch_boost_intent_def Let_def case_prod_beta split: option.split)
  show "same_match g (latch_boost_intent i b g)" and "same_kicked g (latch_boost_intent i b g)"
    by (auto simp: latch_boost_intent_def Let_def case_prod_beta same_kicked_def update_snake_def same_match_def
        record_player_action_for_snake_def split: option.split)
qed

lemma exec_now_ok:
  assumes "playable post (fst st)" and "\<not> is_turn c"
  shows "playable post (fst (exec_now c st))" and "same_match (fst st) (fst (exec_now c st))"
    and "same_kicked (fst st) (fst (exec_now c st))"
  using assms latch_ok [OF assms(1)]
  by (cases st; cases c; simp add: exec_now_def is_turn_def same_kicked_def)+

lemma pop_commands_ok:
  assumes "playable post g" and "pop_commands g out turns = (g', out', turns')"
    and "\<forall>m \<in> set turns. is_turn (command m)"
  shows "playable post g' \<and> same_match g g' \<and> same_kicked g g' \<and> (\<forall>m \<in> set turns'. is_turn (command m))"
  using assms
proof (induction g out turns rule: pop_commands.induct)
  case (1 g out turns)
  obtain q r where pop: "pop (gs_tick g) (gs_command_queue g) = (q, r)" by fastforce
  let ?g = "g\<lparr>gs_command_queue := q\<rparr>"
  have g: "playable post ?g" "same_match g ?g" "same_kicked g ?g"
    using "1.prems"(1) by (simp_all add: same_match_def same_kicked_def)
  show ?case
  proof (cases r)
    case None
    then show ?thesis
      using g "1.prems" pop by (auto simp: pop_commands.simps [of g out turns])
  next
    case (Some m)
    show ?thesis
    proof (cases "is_turn (command m)")
      case True
      then show ?thesis
        using "1.IH"(1) [OF pop [symmetric] Some refl] "1.prems" g pop Some same_match_trans
        by (auto simp: pop_commands.simps [of g out turns] same_kicked_def)
    next
      case False
      note step = exec_now_ok [of post "(?g, out)", simplified, OF g(1)[simplified] False]
      show ?thesis
        using "1.IH"(2) [OF pop [symmetric] Some refl False refl] "1.prems" g pop Some False step same_match_trans
        by (auto simp: pop_commands.simps [of g out turns] same_kicked_def Let_def)
    qed
  qed
qed

section \<open>Boost and movement credit\<close>

lemma resolve_boost_mid:
  assumes "snake_mid g s" and "gp_boost (gs_properties g) = Some c"
  shows "snake_mid g (fst (resolve_boost (bc_speed_milli c) (bc_capacity_ms c) s))"
    and "sn_alive (fst (resolve_boost (bc_speed_milli c) (bc_capacity_ms c) s)) = sn_alive s"
  using assms
  by (auto simp: resolve_boost_def try_activate_boost_def try_deactivate_boost_def Let_def snake_mid_def
      combo_snake_ok_def)

lemma resolve_boosts_ok:
  assumes "playable post g"
  shows "playable post (fst (resolve_boosts g))" and "same_match g (fst (resolve_boosts g))"
  using assms
  by (auto simp: resolve_boosts_def Let_def resolve_boost_mid intro!: playable_map_snakes split: option.split)

lemma reserve_fields:
  "sn_alive (fst (reserve_boost_quantum u s)) = sn_alive s" "sn_body (fst (reserve_boost_quantum u s)) = sn_body s"
  "sn_credit (fst (reserve_boost_quantum u s)) = sn_credit s" "sn_speed (fst (reserve_boost_quantum u s)) = sn_speed s"
  "sn_combo (fst (reserve_boost_quantum u s)) = sn_combo s"
  "boost_on (sn_boost (fst (reserve_boost_quantum u s))) = boost_on (sn_boost s)"
  "u \<or> \<not> sn_alive s \<Longrightarrow> sn_boost (fst (reserve_boost_quantum u s)) = sn_boost s"
  "\<not> boost_on (sn_boost s) \<Longrightarrow> fst (reserve_boost_quantum u s) = s"
  by (auto simp: reserve_boost_quantum_def)

lemma reserve_mid:
  assumes "snake_mid g s"
    and "u \<longleftrightarrow> (case gp_boost (gs_properties g) of Some c \<Rightarrow> bc_unlimited c | None \<Rightarrow> False)"
  shows "snake_mid g (fst (reserve_boost_quantum u s))"
proof (cases "gp_boost (gs_properties g)")
  case None
  then have "\<not> boost_on (sn_boost s)"
    using assms(1) by (simp add: snake_mid_def snake_boost_default_def)
  then show ?thesis using assms(1) by (simp add: reserve_fields)
next
  case (Some c)
  let ?s = "fst (reserve_boost_quantum u s)"
  have "boost_wf (bc_speed_milli c) (bc_capacity_ms c) s"
    using assms(1) Some by (auto simp: snake_mid_def boost_wf_def)
  then have "boost_wf (bc_speed_milli c) (bc_capacity_ms c) ?s"
    by (rule reserve_boost_quantum_wf)
  moreover have "bc_unlimited c \<Longrightarrow> sn_boost ?s = sn_boost s"
    using assms(2) Some by (simp add: reserve_fields)
  ultimately show ?thesis
    using assms(1) Some
    by (auto simp: snake_mid_def boost_wf_def reserve_fields combo_snake_ok_def)
qed

lemma reserve_quanta_ok:
  assumes "playable post g"
  shows "playable post (reserve_quanta g)" and "same_match g (reserve_quanta g)"
  using assms by (auto simp: reserve_quanta_def Let_def reserve_fields intro!: playable_map_snakes reserve_mid)

lemma match_cadence:
  assumes "rules_ok g" and "env_ok g" and "snake_mid g s"
  shows "cadence_ok (tick_ms g) (normal_movement_interval_ms g) (sn_speed s)"
proof (cases "gp_boost (gs_properties g)")
  case None
  then have "sn_speed s = 1000" and "tick_ms g \<le> normal_movement_interval_ms g"
    using assms(2,3) by (simp_all add: snake_mid_def env_ok_def tempo_ok_def)
  then show ?thesis
    using assms(2) interval_pos [of g] by (simp add: cadence_ok_def env_ok_def tempo_ok_def word_le_nat_alt)
next
  case (Some c)
  have "normal_movement_interval_ms g = 100"
    using assms(1) Some
    by (auto simp: rules_ok_def boost_rules_ok_def boost_config_for_def normal_movement_interval_ms_def
        split: game_type.splits)
  moreover have "tick_ms g = 50"
    using rules_boost(2) [OF assms(1) Some] by (simp add: tick_ms_def)
  moreover have "unat (sn_speed s) \<le> 2000"
    using assms(3) rules_boost(1) [OF assms(1) Some] Some
    by (auto simp: snake_mid_def boost_config_validate_ok_iff word_le_nat_alt)
  ultimately show ?thesis
    by (simp add: cadence_ok_def)
qed

lemma snake_mid_credit:
  assumes "snake_mid g s" and "sn_alive s" and "credit_ok (normal_movement_interval_ms g) s'"
    and "s' = s\<lparr>sn_credit := sn_credit s'\<rparr>"
  shows "snake_mid g s'"
proof -
  have fields: "sn_body s' = sn_body s" "sn_alive s' = sn_alive s" "sn_speed s' = sn_speed s"
    "sn_boost s' = sn_boost s" "sn_combo s' = sn_combo s"
    by (subst assms(4), simp)+
  show ?thesis
    using assms(1,2,3) credit_below_threshold [of s' g]
    unfolding snake_mid_def combo_snake_ok_def fields by (auto split: option.splits)
qed

lemma accrue_one_ok:
  assumes "rules_ok g" and "env_ok g" and "snake_mid g s"
  obtains s' moves where "accrue_movement_credit (tick_ms g) (normal_movement_interval_ms g) s = Inr (s', moves)"
    and "snake_mid g s'" and "sn_alive s' = sn_alive s"
proof (cases "sn_alive s")
  case True
  have "credit_ok (normal_movement_interval_ms g) s"
    using assms(3) credit_below_threshold by (simp add: snake_mid_def)
  then obtain s' m where "accrue_movement_credit (tick_ms g) (normal_movement_interval_ms g) s = Inr (s', m)"
    and s': "s' = s\<lparr>sn_credit := sn_credit s'\<rparr>" and "credit_ok (normal_movement_interval_ms g) s'"
    using accrue_movement_credit_ok [OF match_cadence [OF assms]] True by metis
  moreover have "sn_alive s' = sn_alive s"
    by (subst s') simp
  ultimately show thesis
    using that snake_mid_credit [OF assms(3) True] by blast
qed (use that assms in \<open>simp add: accrue_movement_credit_def\<close>)

lemma accrue_all_ok:
  assumes "rules_ok g" and "env_ok g" and "\<forall>s \<in> set ss. snake_mid g s"
  shows "\<exists>ss' movers. accrue_all (tick_ms g) (normal_movement_interval_ms g) i ss = Inr (ss', movers) \<and>
    map sn_alive ss' = map sn_alive ss \<and> (\<forall>s \<in> set ss'. snake_mid g s)"
  using assms(3)
proof (induction ss arbitrary: i)
  case (Cons s ss)
  have "snake_mid g s" using Cons.prems by simp
  then obtain s' moves where one: "accrue_movement_credit (tick_ms g) (normal_movement_interval_ms g) s = Inr (s', moves)"
    "snake_mid g s'" "sn_alive s' = sn_alive s"
    using accrue_one_ok [OF assms(1,2)] by blast
  obtain ss' movers where "accrue_all (tick_ms g) (normal_movement_interval_ms g) (Suc i) ss = Inr (ss', movers)"
    "map sn_alive ss' = map sn_alive ss" "\<forall>s \<in> set ss'. snake_mid g s"
    using Cons.IH [of "Suc i"] Cons.prems by auto
  then show ?case
    using one by auto
qed simp

lemma accrue_credits_ok:
  assumes "playable post g"
  obtains g' movers where "accrue_credits g = Inr (g', movers)" and "playable post g'" and "same_match g g'"
proof -
  have "rules_ok g" "env_ok g" "\<forall>s \<in> set (ar_snakes (gs_arena g)). snake_mid g s"
    using assms by (auto simp: playable_def snakes_ok_def)
  then obtain ss movers where acc: "accrue_all (tick_ms g) (normal_movement_interval_ms g) 0 (ar_snakes (gs_arena g)) = Inr (ss, movers)"
    and alive: "map sn_alive ss = map sn_alive (ar_snakes (gs_arena g))" and mid: "\<forall>s \<in> set ss. snake_mid g s"
    using accrue_all_ok by blast
  let ?g = "g\<lparr>gs_arena := (gs_arena g)\<lparr>ar_snakes := ss\<rparr>\<rparr>"
  have len: "length ss = length (ar_snakes (gs_arena g))"
    using alive by (metis length_map)
  have "sn_alive (ss ! n) = sn_alive (ar_snakes (gs_arena g) ! n)" if "n < length ss" for n
    using alive that len by (metis nth_map)
  then have "playable post ?g"
    using assms len mid playable_kicked_dead [OF assms] by (intro playable_set_snakes) auto
  moreover have "same_match g ?g"
    using len by (simp add: same_match_def)
  ultimately show thesis
    using that acc by (simp add: accrue_credits_def)
qed

section \<open>Turns and movement\<close>

lemma exec_turn_ok:
  assumes "playable post g" and "exec_turn i d g = Inr (g', events)"
  shows "playable post g'" and "same_match g g'" and "same_kicked g g'"
proof -
  note step = emit_step [of post "(g, [])" "SnakeTurned i d", simplified, OF assms(1)]
  show "playable post g'" and "same_match g g'" and "same_kicked g g'"
    using assms step
    by (auto simp: exec_turn_def Let_def case_prod_beta split: option.splits if_splits)
       (simp_all add: same_kicked_def)
qed

lemma turn_step_ok:
  assumes "playable post (tp_state ph)"
  shows "playable post (tp_state (turn_step movers ph m))"
    and "same_match (tp_state ph) (tp_state (turn_step movers ph m))"
    and "same_kicked (tp_state ph) (tp_state (turn_step movers ph m))"
  using assms exec_turn_ok [OF assms]
  by (auto simp: turn_step_def Let_def same_kicked_def split: game_command.split sum.split)

lemma turn_steps_ok:
  assumes "playable post (tp_state ph)"
  shows "playable post (tp_state (foldl (turn_step movers) ph ms)) \<and>
    same_match (tp_state ph) (tp_state (foldl (turn_step movers) ph ms)) \<and>
    same_kicked (tp_state ph) (tp_state (foldl (turn_step movers) ph ms))"
  using assms
proof (induction ms arbitrary: ph)
  case (Cons m ms)
  note step = turn_step_ok [OF Cons.prems, of movers m]
  show ?case
    using Cons.IH [OF step(1)] step(2,3) same_match_trans by (auto simp: same_kicked_def)
qed (simp add: same_kicked_def)

lemma apply_turns_ok:
  assumes "playable post (fst st)"
  shows "playable post (fst (apply_turns movers turns st))"
    and "same_match (fst st) (fst (apply_turns movers turns st))"
    and "same_kicked (fst st) (fst (apply_turns movers turns st))"
proof -
  obtain g out where st: "st = (g, out)" by fastforce
  note steps = turn_steps_ok [of post "\<lparr>tp_state = g, tp_out = out, tp_turned = {}, tp_deferred = []\<rparr>" movers turns]
  show "playable post (fst (apply_turns movers turns st))"
    and "same_match (fst st) (fst (apply_turns movers turns st))"
    and "same_kicked (fst st) (fst (apply_turns movers turns st))"
    using steps assms by (simp_all add: st apply_turns_def Let_def same_match_def same_kicked_def)
qed

lemma step_forward_fields [simp]:
  "sn_alive (step_forward s) = sn_alive s" "sn_credit (step_forward s) = sn_credit s"
  "sn_speed (step_forward s) = sn_speed s" "sn_boost (step_forward s) = sn_boost s"
  "sn_combo (step_forward s) = sn_combo s" "sn_team (step_forward s) = sn_team s"
  "sn_direction (step_forward s) = sn_direction s"
  by (simp_all add: step_forward_def Let_def)

lemma retract_tail_nonempty: "2 \<le> length body \<Longrightarrow> retract_tail body \<noteq> []"
  by (cases body rule: rev_cases) (auto simp: retract_tail_def Let_def)

lemma step_forward_body: "sn_body s \<noteq> [] \<Longrightarrow> sn_body (step_forward s) \<noteq> []"
proof (cases "\<not> sn_alive s \<or> length (sn_body s) < 2")
  case False
  then have "retract_tail ((sn_body s)[0 := p]) \<noteq> []" and "retract_tail (p # sn_body s) \<noteq> []" for p
    using retract_tail_nonempty [of "(sn_body s)[0 := p]"] retract_tail_nonempty [of "p # sn_body s"] by auto
  then show ?thesis
    using False by (auto simp: step_forward_def Let_def)
qed (auto simp: step_forward_def)

lemma snake_mid_step: "snake_mid g s \<Longrightarrow> snake_mid g (step_forward s)"
  using step_forward_body [of s] unfolding snake_mid_def combo_snake_ok_def step_forward_fields by blast

lemma iter_snakes_nth:
  "n < length (ar_snakes (gs_arena g)) \<Longrightarrow> iter_snakes g ! n = (of_nat n, ar_snakes (gs_arena g) ! n)"
  by (simp add: iter_snakes_def nth_enumerate_eq)

lemma length_iter_snakes [simp]: "length (iter_snakes g) = length (ar_snakes (gs_arena g))"
  by (simp add: iter_snakes_def)

lemma move_snakes_ok:
  assumes "playable post g"
  shows "playable post (move_snakes movers g)" and "same_match g (move_snakes movers g)"
    and "same_kicked g (move_snakes movers g)"
proof -
  show "playable post (move_snakes movers g)"
    unfolding move_snakes_def
  proof (rule playable_set_snakes [OF assms])
    fix n
    assume n: "n < length (map (\<lambda>(i, s). if i \<in> movers then step_forward s else s) (iter_snakes g))"
    then have "snake_mid g (ar_snakes (gs_arena g) ! n)"
      using playable_snake [OF assms] by simp
    then show "snake_mid g (map (\<lambda>(i, s). if i \<in> movers then step_forward s else s) (iter_snakes g) ! n)"
      using n by (simp add: iter_snakes_nth snake_mid_step)
    show "kicked_snake g n \<Longrightarrow>
        \<not> sn_alive (map (\<lambda>(i, s). if i \<in> movers then step_forward s else s) (iter_snakes g) ! n)"
      using n playable_kicked_dead [OF assms, of n] by (simp add: iter_snakes_nth)
  qed simp
  show "same_match g (move_snakes movers g)" and "same_kicked g (move_snakes movers g)"
    by (simp_all add: move_snakes_def same_match_def same_kicked_def)
qed

end
