(* ===== verification/Quantum_Safety.thy ===== *)
theory Quantum_Safety
  imports Tick_Safety
begin

text \<open>
  The phases of a quantum after movement, and the quantum as a whole: on a simulable state nothing
  panics and no step fails, and the state that results is simulable again.
\<close>

section \<open>Collisions\<close>

lemma iter_snakes_mem:
  assumes "(i, s) \<in> set (iter_snakes g)"
  obtains n where "n < length (ar_snakes (gs_arena g))" and "i = of_nat n" and "s = ar_snakes (gs_arena g) ! n"
  using assms by (auto simp: in_set_conv_nth iter_snakes_nth)

lemma iter_snakes_exists: "(i, s) \<in> set (iter_snakes g) \<Longrightarrow> snake_exists g i"
  by (erule iter_snakes_mem) (simp add: snake_exists_def unat_of_nat le_less_trans [OF mod_less_eq_dividend])

lemma iter_snakes_at:
  assumes "players_ok g" and "(i, s) \<in> set (iter_snakes g)"
  shows "snake_at g i = Some s"
  using assms(2)
proof (rule iter_snakes_mem)
  fix n
  assume "n < length (ar_snakes (gs_arena g))" and "i = of_nat n" and "s = ar_snakes (gs_arena g) ! n"
  then show ?thesis
    using assms(1) by (simp add: players_ok_def snake_at_def unat_of_nat take_bit_nat_eq_self)
qed

lemma iter_snakes_alive_not_kicked:
  assumes "playable post g" and "(i, s) \<in> set (iter_snakes g)" and "sn_alive s"
  shows "\<not> kicked_snake g (unat i)"
proof -
  have "snake_at g i = Some s"
    using assms(1,2) by (simp add: playable_def iter_snakes_at)
  then show ?thesis
    using assms(3) playable_kicked_dead [OF assms(1)] by (auto simp: snake_at_def)
qed

lemma head_ok: "sn_body s \<noteq> [] \<Longrightarrow> head s = Inr (hd (sn_body s))"
  by (cases "sn_body s") (simp_all add: head_def)

lemma hit_others_ok:
  assumes "\<forall>s \<in> set old. sn_body s \<noteq> []" and "unat i < length old"
    and "\<forall>(j, s) \<in> set others. sn_body s \<noteq> [] \<and> unat j < length old"
  shows "\<exists>hit. hit_others movers old i h others = Inr hit \<and>
    (\<forall>cause k. hit = Some cause \<longrightarrow> attributed_snake_id cause = Some k \<longrightarrow> k \<in> fst ` set others)"
  using assms(3)
proof (induction others)
  case (Cons e es)
  obtain j other where e: "e = (j, other)" by fastforce
  have "sn_body (old ! unat i) \<noteq> []" "sn_body (old ! unat j) \<noteq> []" "sn_body other \<noteq> []"
    using assms(1,2) Cons.prems e by auto
  then have heads: "head (old ! unat i) = Inr (hd (sn_body (old ! unat i)))"
    "head (old ! unat j) = Inr (hd (sn_body (old ! unat j)))" "head other = Inr (hd (sn_body other))"
    by (simp_all add: head_ok)
  obtain hit where "hit_others movers old i h es = Inr hit"
    "\<forall>cause k. hit = Some cause \<longrightarrow> attributed_snake_id cause = Some k \<longrightarrow> k \<in> fst ` set es"
    using Cons by auto
  then show ?case
    unfolding e hit_others.simps heads by (auto simp: attributed_snake_id_def)
qed (simp)

definition crash_ok :: "game_state \<Rightarrow> u32 \<times> position \<times> death_cause \<Rightarrow> bool" where
  "crash_ok g = (\<lambda>(i, h, cause). snake_exists g i \<and> \<not> kicked_snake g (unat i) \<and>
     (\<forall>k. attributed_snake_id cause = Some k \<longrightarrow> snake_exists g k))"

lemma iter_snakes_body:
  assumes "playable post g"
  shows "\<forall>(j, s) \<in> set (iter_snakes g). sn_body s \<noteq> [] \<and> unat j < length (ar_snakes (gs_arena g))"
proof -
  have "sn_body s \<noteq> []" if "s \<in> set (ar_snakes (gs_arena g))" for s
    using playable_snake [OF assms that] by (simp add: snake_mid_def)
  then show ?thesis
    using iter_snakes_exists by (fastforce elim: iter_snakes_mem simp: snake_exists_def)
qed

lemma collision_of_ok:
  assumes "playable post g" and "\<forall>s \<in> set old. sn_body s \<noteq> []"
    and "length old = length (ar_snakes (gs_arena g))" and "(i, s) \<in> set (iter_snakes g)"
  shows "\<exists>c. collision_of movers old g (i, s) = Inr c \<and> (\<forall>crash. c = Some crash \<longrightarrow> crash_ok g crash)"
proof -
  note bodies = iter_snakes_body [OF assms(1)]
  obtain hit where hit: "hit_others movers old i (hd (sn_body s)) (iter_snakes g) = Inr hit"
    "\<And>cause k. hit = Some cause \<Longrightarrow> attributed_snake_id cause = Some k \<Longrightarrow> k \<in> fst ` set (iter_snakes g)"
    using hit_others_ok [OF assms(2), of i "iter_snakes g" movers "hd (sn_body s)"] bodies assms(3,4) by fastforce
  have "snake_exists g i" and "sn_alive s \<Longrightarrow> \<not> kicked_snake g (unat i)"
    using iter_snakes_exists [OF assms(4)] iter_snakes_alive_not_kicked [OF assms(1,4)] by auto
  moreover have "snake_exists g k" if "hit = Some cause" "attributed_snake_id cause = Some k" for cause k
    using hit(2) [OF that] iter_snakes_exists by auto
  moreover have "head s = Inr (hd (sn_body s))"
    using bodies assms(4) by (auto intro: head_ok)
  ultimately show ?thesis
    using hit(1) by (auto simp: collision_of_def crash_ok_def attributed_snake_id_def)
qed

lemma collisions_ok:
  assumes "playable post g" and "\<forall>s \<in> set old. sn_body s \<noteq> []"
    and "length old = length (ar_snakes (gs_arena g))" and "set ss \<subseteq> set (iter_snakes g)"
  shows "\<exists>cs. collisions movers old g ss = Inr cs \<and> (\<forall>crash \<in> set cs. crash_ok g crash)"
  using assms(4)
proof (induction ss)
  case (Cons e ss)
  obtain i s where e: "e = (i, s)" by fastforce
  obtain c where "collision_of movers old g e = Inr c" "\<And>crash. c = Some crash \<Longrightarrow> crash_ok g crash"
    using collision_of_ok [OF assms(1-3), of i s movers] Cons.prems e by auto
  moreover obtain cs where "collisions movers old g ss = Inr cs" "\<forall>crash \<in> set cs. crash_ok g crash"
    using Cons by auto
  ultimately show ?case
    by (cases c) auto
qed simp

section \<open>Respawning\<close>

lemma gate_row_ok:
  "n = 1 \<or> gate_top \<le> gate_bottom \<Longrightarrow> \<exists>y. gate_row gate_top gate_bottom n i = Inr y"
  by (auto simp: gate_row_def Let_def)

lemma gate_rows_ok:
  assumes "n = 1 \<or> gate_top \<le> gate_bottom"
  shows "\<exists>ps. foldr (\<lambda>i acc. try_then (gate_row gate_top gate_bottom n i) (\<lambda>y.
    try_then acc (\<lambda>ps. Inr (f y # ps)))) js (Inr []) = Inr ps"
proof (induction js)
  case (Cons j js)
  obtain y where "gate_row gate_top gate_bottom n j = Inr y"
    using gate_row_ok [OF assms] by blast
  then show ?case
    using Cons by auto
qed simp

lemma gate_not_empty:
  fixes g h :: int
  assumes "0 < h" and "g \<le> h" and "0 \<le> g"
  shows "max (h div 2 - g div 2) 0 \<le> min (h div 2 + g div 2) (h - 1)"
proof -
  have "0 \<le> g div 2" "g div 2 \<le> h div 2" "h div 2 \<le> h - 1"
    using assms by (simp_all add: zdiv_mono1)
  then show ?thesis by simp
qed

lemma positions_for_side_ok:
  assumes "arena_dims_ok a" and "ar_team_zone_config a = Some c"
  shows "\<exists>ps. positions_for_side a depth n team is_left = Inr ps"
proof -
  have "0 < uint (ar_height a)" "uint (goal_width c) \<le> uint (ar_height a)" "0 \<le> uint (goal_width c)"
    using assms by (simp_all add: arena_dims_ok_def)
  then have "max (uint (ar_height a) div 2 - uint (goal_width c) div 2) 0
      \<le> min (uint (ar_height a) div 2 + uint (goal_width c) div 2) (uint (ar_height a) - 1)"
    by (rule gate_not_empty)
  moreover have "wrap_i16 (i16_of_u16 (ar_height a) - 1) = uint (ar_height a) - 1"
    using assms(1) by (simp add: arena_dims_ok_def i16_of_u16_small in_i16_def)
  ultimately show ?thesis
    unfolding positions_for_side_def Let_def goal_bounds_eq [OF assms] option.case prod.case
    by (intro gate_rows_ok) simp
qed

lemma starting_positions_ok:
  assumes "arena_dims_ok (gs_arena g)"
  shows "\<exists>ps. starting_positions g n = Inr ps"
proof (cases "ar_team_zone_config (gs_arena g)")
  case (Some c)
  obtain ps0 ps1 where
    "positions_for_side (gs_arena g) (i16_of_u16 (end_zone_depth c)) (length (team_snake_indices g 0)) 0 True = Inr ps0"
    "positions_for_side (gs_arena g) (i16_of_u16 (end_zone_depth c)) (length (team_snake_indices g 1)) 1 False = Inr ps1"
    using positions_for_side_ok [OF assms Some] by meson
  then show ?thesis
    by (simp add: starting_positions_def calculate_team_starting_positions_def Some Let_def)
qed (simp add: starting_positions_def calculate_team_starting_positions_def)

lemma respawn_event_ok:
  assumes "arena_dims_ok (gs_arena g)"
  shows "\<exists>e. respawn_event_for_snake g i = Inr e \<and> (\<forall>x. e = Some x \<longrightarrow> (\<exists>p d. x = SnakeRespawned i p d))"
  using starting_positions_ok [OF assms, of "length (gs_players g)"]
  by (auto simp: respawn_event_for_snake_def Let_def)

section \<open>Crashes\<close>

text \<open>What every phase after movement keeps of the state it starts with.\<close>

definition carried :: "u32 \<Rightarrow> game_state \<Rightarrow> game_state \<Rightarrow> bool" where
  "carried post g0 g \<longleftrightarrow> playable post g \<and> same_match g0 g \<and> same_kicked g0 g"

lemma carried_refl: "playable post g \<Longrightarrow> carried post g g"
  by (simp add: carried_def same_kicked_def)

lemma carried_trans: "carried post g0 g1 \<Longrightarrow> carried post g1 g2 \<Longrightarrow> carried post g0 g2"
  by (auto simp: carried_def same_kicked_def intro: same_match_trans)

lemma carried_emit:
  assumes "carried post g0 (fst st)" and "event_ok post (fst st) e" and "\<not> is_kick e"
  shows "carried post g0 (fst (emit e st))"
  using assms emit_step(1,2) [of post st e] emit_step(3) [of post st e]
  by (auto simp: carried_def same_kicked_def intro: same_match_trans)

lemma carried_kicked: "carried post g0 g \<Longrightarrow> kicked_snake g n = kicked_snake g0 n"
  by (simp add: carried_def same_match_def same_kicked_def kicked_snake_def)

lemma carried_exists: "carried post g0 g \<Longrightarrow> snake_exists g i = snake_exists g0 i"
  by (auto simp: carried_def same_match_exists)

lemma carried_dims: "carried post g0 g \<Longrightarrow> arena_dims_ok (gs_arena g)"
  by (simp add: carried_def playable_def env_ok_def)

lemma fold_result_ok:
  assumes "\<And>x s. x \<in> set xs \<Longrightarrow> P s \<Longrightarrow> \<exists>s'. f x s = Inr s' \<and> P s'" and "P s"
  shows "\<exists>s'. fold_result f xs s = Inr s' \<and> P s'"
  using assms
proof (induction xs arbitrary: s)
  case (Cons x xs)
  obtain s' where "f x s = Inr s'" "P s'"
    using Cons.prems by (meson list.set_intros(1))
  then show ?case
    using Cons.IH [of s'] Cons.prems(1) by (simp)
qed simp

lemma clamp_axis_ok: "0 < d \<Longrightarrow> \<exists>z'. clamp_axis d z = Inr z'"
  by (simp add: clamp_axis_def Let_def)

lemma maybe_respawn_ok:
  assumes "carried post g0 (fst st)" and "\<not> kicked_snake g0 (unat i)"
  shows "\<exists>st'. maybe_respawn i st = Inr st' \<and> carried post g0 (fst st') \<and>
    (all_funded (fst st) \<longrightarrow> all_funded (fst st'))"
proof -
  obtain e where e: "respawn_event_for_snake (fst st) i = Inr e"
    "\<And>x. e = Some x \<Longrightarrow> \<exists>p d. x = SnakeRespawned i p d"
    using respawn_event_ok [OF carried_dims [OF assms(1)]] by blast
  show ?thesis
  proof (cases e)
    case (Some x)
    then obtain p d where x: "x = SnakeRespawned i p d"
      using e(2) by blast
    have ok: "event_ok post (fst st) x" "\<not> is_kick x"
      using assms x by (simp_all add: carried_kicked)
    have "playable post (fst st)"
      using assms(1) by (simp add: carried_def)
    then show ?thesis
      using e(1) Some carried_emit [OF assms(1) ok] emit_step(4) [OF _ ok(1)] by (simp add: maybe_respawn_def)
  qed (use assms(1) e(1) in \<open>simp add: maybe_respawn_def\<close>)
qed

lemma snake_mid_same_match: "same_match g g' \<Longrightarrow> snake_mid g' s = snake_mid g s"
  by (simp add: snake_mid_cong [OF same_match_view])

lemma crash_snake_ok:
  assumes "carried post g0 (fst st)" and "crash_ok g0 crash"
    and "\<forall>s \<in> set old. snake_mid g0 s" and "length old = length (ar_snakes (gs_arena g0))"
  shows "\<exists>st'. crash_snake old crash st = Inr st' \<and> carried post g0 (fst st')"
proof -
  obtain i h cause where crash: "crash = (i, h, cause)" by (cases crash)
  obtain g out where st: "st = (g, out)" by fastforce
  let ?g = "update_snake i (\<lambda>_. old ! unat i) g"
  have g: "playable post g" "same_match g0 g"
    using assms(1) st by (simp_all add: carried_def)
  have i: "unat i < length old" "\<not> kicked_snake g (unat i)"
    using assms carried_kicked [OF assms(1)] crash st by (simp_all add: crash_ok_def snake_exists_def)
  have "snake_mid g (old ! unat i)"
    using assms(3) i(1) snake_mid_same_match [OF g(2)] by simp
  then have "playable post ?g"
    using g(1) i(2) by (intro playable_update_snake) simp_all
  then have g': "carried post g0 (?g\<lparr>gs_recent_crashes := cs\<rparr>)" for cs
    using assms(1) st by (simp add: carried_def same_match_def same_kicked_def update_snake_def)
  have dims: "0 < i16_of_u16 (ar_width (gs_arena ?g))" "0 < i16_of_u16 (ar_height (gs_arena ?g))"
    using carried_dims [OF g'] by (simp_all add: arena_dims_ok_def i16_of_u16_small)
  obtain x y where xy: "clamp_axis (i16_of_u16 (ar_width (gs_arena ?g))) (px h) = Inr x"
    "clamp_axis (i16_of_u16 (ar_height (gs_arena ?g))) (py h) = Inr y"
    using clamp_axis_ok dims by meson
  have died: "carried post g0 (fst (emit (SnakeDied i cause) (?g\<lparr>gs_recent_crashes := cs\<rparr>, out)))" for cs
    using g' assms(2) crash carried_exists [OF g', of cs] by (intro carried_emit) (simp_all add: crash_ok_def)
  have step: "\<exists>st'. (if b then maybe_respawn i st1 else Inr st1) = Inr st' \<and> carried post g0 (fst st')"
    if "carried post g0 (fst st1)" for b st1
    using that maybe_respawn_ok [OF that, of i] assms(2) crash by (cases b) (auto simp: crash_ok_def)
  show ?thesis
    unfolding crash_snake_def crash st prod.case Let_def xy try_then_Inr by (rule step [OF died])
qed

lemma crash_phase_ok:
  assumes "playable post (fst st)" and "\<forall>s \<in> set old. snake_mid (fst st) s"
    and "length old = length (ar_snakes (gs_arena (fst st)))"
  shows "\<exists>st'. crash_phase movers old st = Inr st' \<and> carried post (fst st) (fst st')"
proof -
  have "\<forall>s \<in> set old. sn_body s \<noteq> []"
    using assms(2) by (simp add: snake_mid_def)
  then obtain cs where cs: "collisions movers old (fst st) (iter_snakes (fst st)) = Inr cs"
    "\<forall>crash \<in> set cs. crash_ok (fst st) crash"
    using collisions_ok [OF assms(1) _ assms(3) order_refl] by blast
  have "\<exists>st'. fold_result (crash_snake old) (sort_key fst cs) st = Inr st' \<and> carried post (fst st) (fst st')"
    by (rule fold_result_ok) (use cs(2) assms crash_snake_ok carried_refl in auto)
  then show ?thesis
    by (simp add: crash_phase_def cs(1))
qed

section \<open>Food and packets\<close>

fun is_pickup :: "game_state \<Rightarrow> game_event \<Rightarrow> bool" where
  "is_pickup g (FoodEaten i p points chain before b) = (\<exists>s. snake_at g i = Some s \<and> sn_alive s)"
| "is_pickup g _ = False"

lemma food_pickups_ok:
  assumes "playable post g" and "set ss \<subseteq> set (iter_snakes g)"
  shows "\<exists>es. food_pickups g claimed ss = Inr es \<and> (\<forall>e \<in> set es. is_pickup g e)"
  using assms(2)
proof (induction ss arbitrary: claimed)
  case (Cons e ss)
  obtain i s where e: "e = (i, s)" by fastforce
  have mem: "(i, s) \<in> set (iter_snakes g)"
    using Cons.prems e by simp
  have head: "head s = Inr (hd (sn_body s))"
    using iter_snakes_body [OF assms(1)] mem by (auto intro: head_ok)
  have at: "snake_at g i = Some s"
    using assms(1) mem by (simp add: playable_def iter_snakes_at)
  obtain points chain before b where ctx: "combo_pickup_context g s = (points, chain, before, b)"
    by (cases "combo_pickup_context g s")
  have IH: "\<exists>es. food_pickups g cl ss = Inr es \<and> (\<forall>e \<in> set es. is_pickup g e)" for cl
    using Cons by simp
  show ?case
    using IH [of claimed] IH [of "insert (hd (sn_body s)) claimed"] at by (auto simp: e head ctx)
qed simp

lemma same_alive_at:
  assumes "same_alive g0 g" and "snake_at g0 i = Some s0" and "snake_at g i = Some s"
  shows "sn_alive s = sn_alive s0"
proof -
  have "map sn_alive (ar_snakes (gs_arena g)) ! unat i = map sn_alive (ar_snakes (gs_arena g0)) ! unat i"
    using assms(1) by (simp add: same_alive_def)
  then show ?thesis
    using assms(2,3) by (auto simp: snake_at_def split: if_splits)
qed

lemma same_alive_update:
  assumes "\<And>s. sn_alive (f s) = sn_alive s"
  shows "map sn_alive (ar_snakes (gs_arena (update_snake i f g))) = map sn_alive (ar_snakes (gs_arena g))"
  using assms by (intro nth_equalityI) (simp_all add: update_snake_def nth_upd_at)

lemma eat_one_alive:
  "is_pickup g0 e \<Longrightarrow> same_alive g0 (fst st) \<Longrightarrow> same_alive g0 (fst (eat_one st e))"
  by (cases e; cases st)
    (simp_all add: same_alive_def eat_one_def emit_def Let_def apply_food_eaten_def remove_food_def same_alive_update)

lemma eat_one_ok:
  assumes "carried post g0 (fst st)" and "same_alive g0 (fst st)" and "is_pickup g0 e"
  shows "carried post g0 (fst (eat_one st e))"
proof -
  have "event_ok post (fst st) e" "\<not> is_kick e"
    using assms(2,3) by (cases e; auto dest: same_alive_at)+
  then have "carried post g0 (fst (emit e st))"
    using assms(1) by (intro carried_emit)
  then show ?thesis
    by (simp add: eat_one_def Let_def carried_emit)
qed

lemma eat_all_ok:
  assumes "carried post g0 (fst st)" and "same_alive g0 (fst st)" and "\<forall>e \<in> set es. is_pickup g0 e"
  shows "carried post g0 (fst (foldl eat_one st es))"
  using assms by (induction es arbitrary: st) (simp_all add: eat_one_ok eat_one_alive)

lemma eat_phase_ok:
  assumes "playable post (fst st)"
  shows "\<exists>st'. eat_phase st = Inr st' \<and> carried post (fst st) (fst st')"
proof -
  obtain es where "food_pickups (fst st) {} (iter_snakes (fst st)) = Inr es" "\<forall>e \<in> set es. is_pickup (fst st) e"
    using food_pickups_ok [OF assms order_refl] by blast
  then show ?thesis
    using eat_all_ok [OF carried_refl [OF assms]] by (simp add: eat_phase_def same_alive_def)
qed

lemma collector_alive:
  assumes "players_ok g" and "collector_of g pad = Some i"
  shows "\<exists>s. snake_at g i = Some s \<and> sn_alive s"
proof -
  define ids where "ids = map fst (filter (\<lambda>(_, s). sn_alive s \<and> head_on_pad pad s) (iter_snakes g))"
  have "ids \<noteq> []" and i: "i = Min (set ids)"
    using assms(2) unfolding collector_of_def Let_def ids_def [symmetric] by (simp_all split: if_splits)
  have "i \<in> set ids"
    unfolding i by (rule Min_in) (use \<open>ids \<noteq> []\<close> in simp_all)
  then obtain s where "(i, s) \<in> set (iter_snakes g)" "sn_alive s"
    unfolding ids_def by auto
  then show ?thesis
    using iter_snakes_at [OF assms(1)] by blast
qed

lemma cooldown_future:
  fixes n post :: u32
  assumes "unat post + 1 < 2 ^ 32" and "50 \<le> unat n"
  shows "post < sat_add post (n div 50)"
proof -
  have "1 \<le> unat (n div 50)"
    using assms(2) by (simp add: unat_div)
  then show ?thesis
    using assms(1) by (simp add: word_less_nat_alt unat_sat_add)
qed

lemma collect_fields:
  "sn_alive (fst (collect_boost_charge a cap s)) = sn_alive s" "sn_body (fst (collect_boost_charge a cap s)) = sn_body s"
  "sn_credit (fst (collect_boost_charge a cap s)) = sn_credit s" "sn_speed (fst (collect_boost_charge a cap s)) = sn_speed s"
  "sn_combo (fst (collect_boost_charge a cap s)) = sn_combo s"
  "boost_on (sn_boost (fst (collect_boost_charge a cap s))) = boost_on (sn_boost s)"
  "\<not> sn_alive s \<or> charge_ms (sn_boost s) = cap \<Longrightarrow> collect_boost_charge a cap s = (s, None)"
  by (auto simp: collect_boost_charge_def Let_def)

lemma collect_mid:
  assumes "snake_mid g s" and "gp_boost (gs_properties g) = Some c"
  shows "snake_mid g (fst (collect_boost_charge a (bc_capacity_ms c) s))"
proof (cases "\<not> sn_alive s \<or> charge_ms (sn_boost s) = bc_capacity_ms c")
  case False
  have "boost_wf (bc_speed_milli c) (bc_capacity_ms c) s"
    using assms by (auto simp: snake_mid_def boost_wf_def)
  then have "boost_wf (bc_speed_milli c) (bc_capacity_ms c) (fst (collect_boost_charge a (bc_capacity_ms c) s))"
    by (rule collect_boost_charge_wf)
  then show ?thesis
    using assms False by (auto simp: snake_mid_def boost_wf_def collect_fields combo_snake_ok_def)
qed (use assms in \<open>simp add: collect_fields\<close>)

lemma respawn_interval: "boost_config_validate c = Inr () \<Longrightarrow> 50 \<le> unat (bc_pad_respawn_ms c)"
proof -
  assume "boost_config_validate c = Inr ()"
  then have "bc_pad_respawn_ms c \<noteq> 0" and "50 dvd unat (bc_pad_respawn_ms c)"
    by (simp_all add: boost_config_validate_ok_iff is_multiple_of_unat)
  then show ?thesis
    by (metis dvd_imp_le unat_gt_0)
qed

lemma carried_boost: "carried post g0 g \<Longrightarrow> gp_boost (gs_properties g) = gp_boost (gs_properties g0)"
  by (simp add: carried_def same_match_def)

lemma carried_update_snake:
  assumes "carried post g0 g" and "playable post (update_snake i f g)"
  shows "carried post g0 (update_snake i f g)"
  using assms by (simp add: carried_def same_match_def same_kicked_def update_snake_def)

lemma collect_pad_ok:
  assumes "carried post g0 (fst st)" and "gp_boost (gs_properties g0) = Some c" and "unat post + 1 < 2 ^ 32"
  shows "carried post g0 (fst (collect_pad c post st pad))"
proof -
  obtain g out where st: "st = (g, out)" by fastforce
  have g: "playable post g" "gp_boost (gs_properties g) = Some c"
    using assms(1,2) carried_boost [OF assms(1)] st by (simp_all add: carried_def)
  show ?thesis
  proof (cases "collector_of g pad")
    case (Some i)
    obtain s where s: "snake_at g i = Some s" "sn_alive s"
      using collector_alive [OF _ Some] g(1) by (auto simp: playable_def)
    define s' where "s' = fst (collect_boost_charge (bp_charge_ms pad) (bc_capacity_ms c) s)"
    define g1 where "g1 = update_snake i (\<lambda>_. s') g"
    have mid: "snake_mid g s"
      using playable_snake [OF g(1)] s(1) by (auto simp: snake_at_def split: if_splits)
    have "playable post g1"
      unfolding g1_def using collect_mid [OF mid g(2)] s
      by (intro playable_update_snake [OF g(1)]) (simp_all add: s'_def collect_fields)
    then have g1: "carried post g0 g1"
      unfolding g1_def using assms(1) st by (intro carried_update_snake) simp_all
    have "gp_boost (gs_properties g1) = Some c"
      using carried_boost [OF g1] assms(2) by simp
    then have rules: "boost_config_validate c = Inr ()" "gp_tick_duration_ms (gs_properties g1) = 50"
      using \<open>playable post g1\<close> rules_boost [of g1 c] by (simp_all add: playable_def)
    have "event_ok post g1 (BoostPacketCollected (bp_id pad) i charge
        (sat_add post (bc_pad_respawn_ms c div tick_ms g1)))"
      if "snd (collect_boost_charge (bp_charge_ms pad) (bc_capacity_ms c) s) = Some charge" for charge
    proof -
      have "\<not> bc_unlimited c"
        using that mid g(2) s(2) by (auto simp: snake_mid_def collect_fields)
      moreover have "snake_at g1 i = Some s'"
        using s(1) by (auto simp: g1_def update_snake_def snake_at_def nth_upd_at split: if_splits)
      ultimately show ?thesis
        using \<open>gp_boost (gs_properties g1) = Some c\<close> rules s(2) cooldown_future [OF assms(3) respawn_interval]
        by (simp add: tick_ms_def s'_def collect_fields)
    qed
    then have "carried post g0 (fst (case snd (collect_boost_charge (bp_charge_ms pad) (bc_capacity_ms c) s) of
        None \<Rightarrow> (g1, out) | Some charge \<Rightarrow> emit (BoostPacketCollected (bp_id pad) i charge
        (sat_add post (bc_pad_respawn_ms c div tick_ms g1))) (g1, out)))"
      using g1 by (auto intro!: carried_emit split: option.split)
    then show ?thesis
      unfolding g1_def s'_def by (simp add: collect_pad_def st Some s(1) case_prod_beta Let_def)
  qed (use assms(1) st in \<open>simp add: collect_pad_def\<close>)
qed

lemma collect_pads_ok:
  assumes "carried post g0 (fst st)" and "gp_boost (gs_properties g0) = Some c" and "unat post + 1 < 2 ^ 32"
  shows "carried post g0 (fst (foldl (collect_pad c post) st pads))"
  using assms(1) by (induction pads arbitrary: st) (simp_all add: collect_pad_ok [OF _ assms(2,3)])

lemma pad_phase_ok:
  assumes "playable post (fst st)" and "unat post + 1 < 2 ^ 32"
  shows "carried post (fst st) (fst (pad_phase post st))"
  using assms carried_refl [OF assms(1)]
  by (auto simp: pad_phase_def collect_pads_ok split: option.split)

section \<open>Depletion and new food\<close>

lemma finalize_mid: "snake_mid g s \<Longrightarrow> snake_mid g (fst (finalize_boost_depletion s))"
  by (auto simp: finalize_boost_depletion_def snake_mid_def combo_snake_ok_def snake_boost_default_def
      split: option.splits)

lemma finalize_boosts_ok:
  assumes "playable post g"
  shows "carried post g (fst (finalize_boosts g))" and "all_funded (fst (finalize_boosts g))"
proof -
  have "playable post (fst (finalize_boosts g))"
    unfolding finalize_boosts_def fst_conv using assms
    by (rule playable_map_snakes) (simp add: finalize_mid, simp add: finalize_boost_depletion_def)
  then show "carried post g (fst (finalize_boosts g))"
    by (simp add: carried_def same_kicked_def finalize_boosts_def) (simp add: map_snakes_def)
  show "all_funded (fst (finalize_boosts g))"
    by (auto simp: all_funded_def finalize_boosts_def map_snakes_def finalize_boost_depletion_def funded_def)
qed

lemma in_arena_pos:
  assumes "arena_dims_ok a" and "in_arena a p"
  shows "pos_in_i16 p"
  using assms by (auto simp: arena_dims_ok_def in_arena_def pos_in_i16_def in_i16_def)

lemma spawn_food_phase_ok:
  assumes "playable post (fst st)" and "box_muller_ok bm" and "all_funded (fst st)"
  shows "\<exists>st'. spawn_food_phase bm mo st = Inr st' \<and> carried post (fst st) (fst st') \<and> all_funded (fst st')"
proof -
  obtain g out where st: "st = (g, out)" by fastforce
  have dims: "arena_dims_ok (gs_arena g)"
    using carried_dims [OF carried_refl [OF assms(1)]] st by simp
  show ?thesis
  proof (cases "\<not> mo \<and> food_refill_due g \<and> length (ar_food (gs_arena g)) < gp_available_food_target (gs_properties g)
      \<and> gs_rng g \<noteq> None")
    case True
    then obtain r where r: "gs_rng g = Some r" by auto
    obtain p r' where p: "sample_food_position bm (gs_game_type g) (gs_arena g) r = Inr (p, r')" "in_arena (gs_arena g) p"
      using sample_food_position_ok [OF dims assms(2)] by blast
    define g1 where "g1 = g\<lparr>gs_rng := Some r'\<rparr>"
    have g1: "carried post g g1" "all_funded g1" "playable post g1"
      using assms st by (simp_all add: g1_def carried_def same_match_def same_kicked_def all_funded_def)
    have "event_ok post g1 (FoodSpawned p)" if "food_position_free g1 p"
      using that in_arena_pos [OF dims p(2)] by (simp add: food_position_free_def)
    then have "carried post g (fst (if food_position_free g1 p then emit (FoodSpawned p) (g1, out) else (g1, out)))
        \<and> all_funded (fst (if food_position_free g1 p then emit (FoodSpawned p) (g1, out) else (g1, out)))"
      using g1 carried_emit [of post g "(g1, out)"] emit_step(4) [of post "(g1, out)"] by simp
    moreover have "spawn_food_phase bm mo st
        = Inr (if food_position_free g1 p then emit (FoodSpawned p) (g1, out) else (g1, out))"
      using True r p(1) st unfolding g1_def by (simp add: spawn_food_phase_def Let_def)
    ultimately show ?thesis
      using st by (metis fst_conv)
  qed (use assms st carried_refl in \<open>auto simp: spawn_food_phase_def\<close>)
qed

section \<open>Scores and completion\<close>

lemma goal_cue_phase_ok:
  assumes "playable post g"
  shows "carried post g (goal_cue_phase movers old g)" and "all_funded (goal_cue_phase movers old g) = all_funded g"
  using assms by (simp_all add: goal_cue_phase_def carried_def same_match_def same_kicked_def all_funded_def)

lemma emit_kept:
  assumes "carried post g0 (fst st) \<and> all_funded (fst st)" and "event_ok post (fst st) e" and "\<not> is_kick e"
  shows "carried post g0 (fst (emit e st)) \<and> all_funded (fst (emit e st))"
  using assms carried_emit [of post g0 st e] emit_step(4) [of post st e] by (simp add: carried_def)

lemma bank_teams_ok:
  assumes "carried post g0 (fst st) \<and> all_funded (fst st)"
  shows "carried post g0 (fst (foldl bank_team st ts)) \<and> all_funded (fst (foldl bank_team st ts))"
  using assms
proof (induction ts arbitrary: st)
  case (Cons t ts)
  have "carried post g0 (fst (bank_team st t)) \<and> all_funded (fst (bank_team st t))"
    unfolding bank_team_def case_prod_beta Let_def by (rule emit_kept [OF Cons.prems]) simp_all
  then show ?case
    using Cons.IH by simp
qed simp

lemma bank_respawn_ok:
  assumes "carried post g0 (fst st) \<and> all_funded (fst st)" and "snake_exists g0 i" and "\<not> kicked_snake g0 (unat i)"
  shows "\<exists>st'. bank_respawn i st = Inr st' \<and> carried post g0 (fst st') \<and> all_funded (fst st')"
proof -
  have "carried post g0 (fst (emit (SnakeDied i Banked) st)) \<and> all_funded (fst (emit (SnakeDied i Banked) st))"
    using assms(1,2) carried_exists [of post g0 "fst st" i]
    by (intro emit_kept) (simp_all add: attributed_snake_id_def)
  then show ?thesis
    using maybe_respawn_ok [OF _ assms(3)] unfolding bank_respawn_def by blast
qed

lemma banking_alive:
  assumes "playable post g" and "(i, team, food) \<in> set (List.map_filter (banking g) (iter_snakes g))"
  shows "snake_exists g i" and "\<not> kicked_snake g (unat i)"
proof -
  obtain s where s: "(i, s) \<in> set (iter_snakes g)" "sn_alive s"
    using assms(2)
    by (auto simp: List.map_filter_def banking_def Let_def split: if_splits option.splits sum.splits)
  show "snake_exists g i" and "\<not> kicked_snake g (unat i)"
    using iter_snakes_exists [OF s(1)] iter_snakes_alive_not_kicked [OF assms(1) s] by auto
qed

lemma score_phase_ok:
  assumes "playable post (fst st)" and "all_funded (fst st)"
  shows "\<exists>st'. score_phase st = Inr st' \<and> carried post (fst st) (fst st') \<and> all_funded (fst st')"
proof -
  have start: "carried post (fst st) (fst st) \<and> all_funded (fst st)"
    using assms carried_refl by simp
  define banked where "banked = List.map_filter (banking (fst st)) (iter_snakes (fst st))"
  have "\<exists>st'. fold_result bank_respawn (map fst banked) (foldl bank_team st ts) = Inr st' \<and>
      (carried post (fst st) (fst st') \<and> all_funded (fst st'))" for ts
  proof (rule fold_result_ok)
    fix i and st1 :: "game_state \<times> numbered_events"
    assume "i \<in> set (map fst banked)" and "carried post (fst st) (fst st1) \<and> all_funded (fst st1)"
    then show "\<exists>st'. bank_respawn i st1 = Inr st' \<and> carried post (fst st) (fst st') \<and> all_funded (fst st')"
      using banking_alive [OF assms(1)] by (intro bank_respawn_ok) (auto simp: banked_def)
  qed (rule bank_teams_ok [OF start])
  then show ?thesis
    using start unfolding score_phase_def banked_def Let_def by (simp del: split_paired_Ex)
qed

lemma team_xp_awards_ok:
  assumes "players_ok g" and "set ps \<subseteq> set (gs_players g)"
  shows "\<exists>xp. team_xp_awards g winner ps = Inr xp"
  using assms(2)
proof (induction ps)
  case (Cons e ps)
  obtain u p where e: "e = (u, p)" by fastforce
  have "snake_exists g (pl_snake_id p)"
    using assms(1) Cons.prems e by (auto simp: players_ok_def)
  then obtain s where "snake_at g (pl_snake_id p) = Some s"
    by (simp add: snake_exists_def snake_at_def)
  then show ?case
    using Cons e by (auto simp: Let_def)
qed simp

lemma complete_with_ok:
  assumes "playable post (fst st)" and "all_funded (fst st)"
  shows "carried post (fst st) (fst (complete_with xp w st)) \<and> all_funded (fst (complete_with xp w st))"
  unfolding complete_with_def using assms by (intro emit_kept) (simp_all add: carried_refl)

lemma completion_phase_ok:
  assumes "playable post (fst st)" and "all_funded (fst st)"
  shows "\<exists>st'. completion_phase st = Inr st' \<and> carried post (fst st) (fst st') \<and> all_funded (fst st')"
proof -
  have stay: "carried post (fst st) (fst st) \<and> all_funded (fst st)"
    using assms carried_refl by simp
  have "\<exists>xp. team_xp_awards (fst st) winner (gs_players (fst st)) = Inr xp" for winner
    using assms(1) by (intro team_xp_awards_ok) (simp_all add: playable_def)
  then obtain xp where xp: "team_xp_awards (fst st) winner (gs_players (fst st)) = Inr (xp winner)" for winner
    by metis
  have "completion_phase st \<in> Inr ` ({st} \<union> {complete_with x w st | x w. True})"
    by (auto simp: completion_phase_def Let_def xp split: option.split)
  then show ?thesis
    using stay complete_with_ok [OF assms] by blast
qed

section \<open>The whole quantum\<close>

lemma playable_advance:
  assumes "playable post g" and "gs_tick g \<le> t"
  shows "playable post (g\<lparr>gs_tick := t\<rparr>)" (is "playable post ?g")
proof -
  have view: "rules_view ?g = rules_view g"
    by (simp add: rules_view_def)
  show ?thesis
    using assms rules_ok_cong [OF view] env_ok_cong [OF view] snake_mid_cong [OF view]
    by (auto simp: playable_def players_ok_def snakes_ok_def pads_ok_def refs_ok_def idle_ok_def kicked_ok_def
        snake_at_def snake_exists_def is_complete_def)
qed

lemma carried_playable: "carried post g0 g \<Longrightarrow> playable post g"
  by (simp add: carried_def)

lemma after_movement_ok:
  assumes "playable post (fst st)" and "\<forall>s \<in> set old. snake_mid (fst st) s"
    and "length old = length (ar_snakes (gs_arena (fst st)))"
    and "box_muller_ok bm" and "unat post + 1 < 2 ^ 32"
  shows "\<exists>g st' ts. after_movement bm mo post movers old st = Inr (st', ts) \<and> fst st' = g\<lparr>gs_tick := gs_tick g + 1\<rparr> \<and>
    carried post (fst st) g \<and> all_funded g"
proof -
  obtain st1 where st1: "crash_phase movers old st = Inr st1" "carried post (fst st) (fst st1)"
    using crash_phase_ok [OF assms(1-3)] by blast
  obtain st2 where st2: "eat_phase st1 = Inr st2" "carried post (fst st1) (fst st2)"
    using eat_phase_ok [OF carried_playable [OF st1(2)]] by blast
  obtain g3 out3 where pads: "pad_phase post st2 = (g3, out3)" by fastforce
  have g3: "carried post (fst st2) g3"
    using pad_phase_ok [OF carried_playable [OF st2(2)] assms(5)] pads by simp
  obtain g4 ts where fin: "finalize_boosts g3 = (g4, ts)" by fastforce
  have g4: "carried post g3 g4" "all_funded g4"
    using finalize_boosts_ok [OF carried_playable [OF g3]] fin by simp_all
  obtain g5 out5 where st5: "spawn_food_phase bm mo (g4, out3) = Inr (g5, out5)" "carried post g4 g5" "all_funded g5"
    using spawn_food_phase_ok [of post "(g4, out3)" bm mo] carried_playable [OF g4(1)] g4(2) assms(4) by auto
  let ?st6 = "(goal_cue_phase movers old g5, out5)"
  have st6: "carried post g5 (fst ?st6)" "all_funded (fst ?st6)"
    using goal_cue_phase_ok [OF carried_playable [OF st5(2)]] st5(3) by simp_all
  obtain st7 where st7: "score_phase ?st6 = Inr st7" "carried post (fst ?st6) (fst st7)" "all_funded (fst st7)"
    using score_phase_ok [OF carried_playable [OF st6(1)] st6(2)] by blast
  obtain st' where st': "completion_phase st7 = Inr st'" "carried post (fst st7) (fst st')" "all_funded (fst st')"
    using completion_phase_ok [OF carried_playable [OF st7(2)] st7(3)] by blast
  define st8 where "st8 = (if mo then ?st6 else st')"
  have st8: "(if mo then Inr ?st6 else try_then (score_phase ?st6) completion_phase) = Inr st8"
    by (simp add: st7(1) st'(1) st8_def)
  have st8': "carried post (fst ?st6) (fst st8)" "all_funded (fst st8)"
    using carried_refl [OF carried_playable [OF st6(1)]] carried_trans [OF st7(2) st'(2)] st6(2) st'(3)
    by (simp_all add: st8_def)
  have "carried post (fst st) (fst st8)"
    using st1(2) st2(2) g3 g4(1) st5(2) st6(1) st8'(1) by (meson carried_trans)
  moreover have "after_movement bm mo post movers old st = Inr (advance st8, ts)"
    unfolding after_movement_def st1(1) st2(1) try_then_Inr pads prod.case fin Let_def st5(1) st8 ..
  ultimately show ?thesis
    using st8'(2) by (intro exI [of _ "fst st8"]) (simp add: advance_def case_prod_beta)
qed

lemma play_quantum_ok:
  assumes "playable post0 (fst st)" and "box_muller_ok bm" and "unat post + 1 < 2 ^ 32"
  shows "\<exists>g st' ts. play_quantum bm mo post st = Inr (st', ts) \<and> fst st' = g\<lparr>gs_tick := gs_tick g + 1\<rparr> \<and>
    playable post g \<and> same_match (fst st) g \<and> all_funded g"
proof -
  obtain g out where st: "st = (g, out)" by fastforce
  let ?g1 = "ready_pads post (drain_combos g)"
  have "playable post0 g"
    using assms(1) st by simp
  note drained = drain_combos_ok [OF this]
  note ready = ready_pads_ok [OF drained(1), of post]
  have g1: "playable post ?g1" "same_match g ?g1"
    using ready(1) same_match_trans [OF drained(2) ready(2)] by simp_all
  obtain g2 out2 turns where pop: "pop_commands ?g1 out [] = (g2, out2, turns)"
    using prod_cases3 by blast
  have g2: "playable post g2" "same_match ?g1 g2"
    using pop_commands_ok [OF g1(1) pop] by auto
  obtain g3 resolved where res: "resolve_boosts g2 = (g3, resolved)" by fastforce
  have g3: "playable post g3" "same_match g2 g3"
    using resolve_boosts_ok [OF g2(1)] res by simp_all
  note g4 = reserve_quanta_ok [OF g3(1)]
  obtain g5 movers where acc: "accrue_credits (reserve_quanta g3) = Inr (g5, movers)"
    and g5: "playable post g5" "same_match (reserve_quanta g3) g5"
    by (rule accrue_credits_ok [OF g4(1)])
  obtain g6 out6 where turned: "apply_turns movers turns (g5, out2) = (g6, out6)" by fastforce
  have g6: "playable post g6" "same_match g5 g6"
    using apply_turns_ok [of post "(g5, out2)" movers turns] g5(1) turned by simp_all
  note g7 = move_snakes_ok [OF g6(1), of movers]
  have old: "\<forall>s \<in> set (ar_snakes (gs_arena g6)). snake_mid (move_snakes movers g6) s"
    "length (ar_snakes (gs_arena g6)) = length (ar_snakes (gs_arena (move_snakes movers g6)))"
    using playable_snake [OF g6(1)] snake_mid_same_match [OF g7(2)] g7(2) by (simp_all add: same_match_def)
  obtain g8 st8 ts where st8: "after_movement bm mo post movers (ar_snakes (gs_arena g6)) (move_snakes movers g6, out6) = Inr (st8, ts)"
    "fst st8 = g8\<lparr>gs_tick := gs_tick g8 + 1\<rparr>" "carried post (move_snakes movers g6) g8" "all_funded g8"
    using after_movement_ok [of post "(move_snakes movers g6, out6)", unfolded fst_conv, OF g7(1) old assms(2,3)] by blast
  have "same_match (move_snakes movers g6) g8"
    using st8(3) by (simp add: carried_def)
  then have "same_match g g8"
    using g1(2) g2(2) g3(2) g4(2) g5(2) g6(2) g7(2) unfolding same_match_def by simp
  moreover have "play_quantum bm mo post st = Inr (st8, resolved @ ts)"
    unfolding play_quantum_def st prod.case pop Let_def res acc try_then_Inr turned st8(1) ..
  ultimately show ?thesis
    using st8(2,4) carried_playable [OF st8(3)] st by (metis fst_conv)
qed

lemma kicks_keep_pads:
  "ar_boost_pads (gs_arena (fst (foldl (\<lambda>st (u, i). emit (PlayerIdleKicked u i) st) st ks)))
   = ar_boost_pads (gs_arena (fst st))"
  by (induction ks arbitrary: st)
    (auto simp: emit_def Let_def update_snake_def discard_commands_def split: prod.split)

lemma inactivity_keeps_pads:
  "ar_boost_pads (gs_arena (fst (fst (resolve_player_inactivity post st)))) = ar_boost_pads (gs_arena (fst st))"
proof -
  obtain g out where st: "st = (g, out)" by fastforce
  show ?thesis
    using kicks_keep_pads [of "(ensure_player_idle_tracking g, out)" "expired_players (ensure_player_idle_tracking g) post"]
    by (auto simp: resolve_player_inactivity_def st Let_def case_prod_beta emit_def ensure_player_idle_tracking_def
        split: option.split)
qed

text \<open>
  The state a tick leaves is simulable, with one exception: a match that inactivity ends in the very
  tick in which the cooldown of a pad runs out.
\<close>

definition pad_due :: "u32 \<Rightarrow> game_state \<Rightarrow> bool" where
  "pad_due t g = list_ex (\<lambda>pad. bp_respawn_at_tick pad = Some t) (ar_boost_pads (gs_arena g))"

lemma no_pad_due:
  assumes "playable t g" and "unat t + 1 < 2 ^ 32" and "\<not> pad_due (t + 1) g"
  shows "playable (t + 1) g"
proof -
  have "t + 1 < r" if "t < r" "r \<noteq> t + 1" for r
    using that assms(2) by (metis inc_le order_less_le)
  then show ?thesis
    using assms(1,3) by (fastforce simp: playable_def pads_ok_def pad_due_def list_ex_iff)
qed

lemma pad_due_advance [simp]: "pad_due t (g\<lparr>gs_tick := n\<rparr>) = pad_due t g"
  by (simp add: pad_due_def)

lemma playable_sound: "playable post g \<Longrightarrow> sound g"
  by (auto simp: playable_def sound_def snakes_ok_def snake_mid_def)

lemma tick_observing_ok:
  assumes "simulable g" and "box_muller_ok bm" and "unat (gs_tick g) + 2 < 2 ^ 32" and "\<not> is_complete g"
  shows "\<exists>st ts. tick_forward_observing_boost bm mo g = Inr (st, ts) \<and>
    gs_tick (fst st) = gs_tick g + 1 \<and> timing (fst st) = timing g \<and>
    (simulable (fst st) \<or> sound (fst st) \<and>
     gs_completed_by_inactivity (fst st) \<and> is_complete (fst st) \<and> pad_due (gs_tick g + 1) g)"
proof -
  define post where "post = sat_add (gs_tick g) 1"
  have "unat post = unat (gs_tick g) + 1"
    using assms(3) by (simp add: post_def unat_sat_add)
  then have post: "post = gs_tick g + 1" "unat post + 1 < 2 ^ 32"
    using assms(3) by (simp_all add: word_unat_eq_iff unat_word_ariths)
  have le: "gs_tick g \<le> post"
    unfolding post_def by (rule sat_add_ge)
  have g: "playable (gs_tick g) g" "all_funded g"
    using assms(1) by (simp_all add: simulable_iff all_funded_def)
  note b = begin_tick_ok [OF g(1)]
  obtain st finished where r: "resolve_player_inactivity post (begin_tick g) = (st, finished)" by fastforce
  have nc: "\<not> is_complete (fst (begin_tick g))"
    using assms(4) b(4) by (simp add: is_complete_def)
  note i = resolve_inactivity_ok [OF b(1) b(3) [OF g(2)] nc r]
  have tick: "gs_tick (fst st) = gs_tick g"
    using i(3) b(2) by (simp add: same_match_def)
  show ?thesis
  proof (cases finished)
    case True
    have pads: "ar_boost_pads (gs_arena (fst st)) = ar_boost_pads (gs_arena g)"
      using inactivity_keeps_pads [of post "begin_tick g"] r by (simp add: begin_tick_def Let_def)
    have "simulable ((fst st)\<lparr>gs_tick := post\<rparr>)" if "\<not> pad_due post g"
    proof -
      have "playable post (fst st)"
        using no_pad_due [OF i(1)] that assms(3) pads unfolding post(1) pad_due_def by simp
      then show ?thesis
        using playable_advance [of post "fst st" post] tick le i(2) by (simp add: simulable_iff all_funded_def)
    qed
    moreover have "sound (fst st)"
      using i(1) playable_sound by blast
    then have "sound ((fst st)\<lparr>gs_tick := post\<rparr>)"
      using sound_cong [of "(fst st)\<lparr>gs_tick := post\<rparr>" "fst st"] by (simp add: sound_view_def)
    moreover have "timing ((fst st)\<lparr>gs_tick := post\<rparr>) = timing g"
      using i(7) same_match_timing [OF b(2)] by (simp add: timing_def)
    ultimately show ?thesis
      using r True assms(4) i(4,5) post(1) unfolding tick_forward_observing_boost_def post_def [symmetric]
      by (auto simp: Let_def is_complete_def)
  next
    case False
    obtain g' st' ts where q: "play_quantum bm mo post st = Inr (st', ts)" "fst st' = g'\<lparr>gs_tick := gs_tick g' + 1\<rparr>"
      "playable post g'" "same_match (fst st) g'" "all_funded g'"
      using play_quantum_ok [OF i(1) assms(2) post(2)] by blast
    have t: "gs_tick g' = gs_tick g"
      using q(4) tick by (simp add: same_match_def)
    then have "simulable (fst st')"
      using q(2,5) playable_advance [OF q(3), of post] le post(1) by (simp add: simulable_iff all_funded_def)
    moreover have "timing (fst st') = timing g"
      using same_match_timing [OF q(4)] i(7) same_match_timing [OF b(2)] q(2) by (simp add: timing_def)
    ultimately show ?thesis
      using r False assms(4) q(1,2) t unfolding tick_forward_observing_boost_def post_def [symmetric]
      by (simp add: Let_def)
  qed
qed

end
