(* ===== verification/Match_Runs.thy ===== *)
theory Match_Runs
  imports Quantum_Safety
begin

text \<open>
  The life of a match as a transition system: it is created, players join, food is laid out,
  commands are scheduled, and the simulation ticks. Every state of such a run is simulable, unless
  inactivity ended the match in a tick in which a pad was due; no tick of such a run panics.
\<close>

section \<open>The transition system\<close>

text \<open>Boards on which the i16 geometry is exact and the cadence of a custom game fits its counters.\<close>

definition board_ok :: "u16 \<Rightarrow> u16 \<Rightarrow> game_type \<Rightarrow> bool" where
  "board_ok w h t \<longleftrightarrow> 0 < w \<and> w < 32768 \<and> 0 < h \<and> h < 32768 \<and>
     (case t of
        TeamMatch _ \<Rightarrow> 20 < w \<and> goal_width_for h \<le> h
      | Custom cs \<Rightarrow> cg_tick_duration_ms cs \<le> 4294967
      | _ \<Rightarrow> True)"

inductive reachable :: "box_muller \<Rightarrow> game_state \<Rightarrow> bool" for bm where
  created: "board_ok w h t \<Longrightarrow> game_state_new w h t q seed start = Inr g \<Longrightarrow> reachable bm g"
| joined: "reachable bm g \<Longrightarrow> add_player_with_team u name team g = (g', r) \<Longrightarrow> reachable bm g'"
| stocked: "reachable bm g \<Longrightarrow> spawn_initial_food bm g = Inr g' \<Longrightarrow> reachable bm g'"
| armed: "reachable bm g \<Longrightarrow> reachable bm (arm_readiness_gate deadline g)"
| readied: "reachable bm g \<Longrightarrow> e = PlayerReady u \<or> e = MatchStartScheduled t \<Longrightarrow> reachable bm (apply_event e g)"
| dressed: "reachable bm g \<Longrightarrow> reachable bm (set_team_base side base (set_player_skin u skin (add_spectator v name g)))"
| started: "reachable bm g \<Longrightarrow> gs_status g = Stopped \<Longrightarrow> reachable bm (g\<lparr>gs_status := Started server\<rparr>)"
| scheduled: "reachable bm g \<Longrightarrow> reachable bm (schedule_command m g)"
| ticked: "reachable bm g \<Longrightarrow> unat (gs_tick g) + 2 < 2 ^ 32 \<Longrightarrow>
    tick_forward bm movement_only g = Inr (g', events) \<Longrightarrow> reachable bm g'"

definition ended_idle :: "game_state \<Rightarrow> bool" where
  "ended_idle g \<longleftrightarrow> gs_completed_by_inactivity g \<and> is_complete g \<and> gs_tick g \<noteq> 0 \<and> sound g"

lemma ended_idle_cong:
  assumes "sound_view g = sound_view g'" and "gs_status g = gs_status g'" and "gs_tick g = gs_tick g'"
    and "gs_completed_by_inactivity g = gs_completed_by_inactivity g'"
  shows "ended_idle g = ended_idle g'"
  using sound_cong [OF assms(1)] assms(2-4) by (simp add: ended_idle_def is_complete_def)

section \<open>Creation\<close>

lemma simulable_cong:
  assumes "playable_view g = playable_view g'"
  shows "simulable g = simulable g'"
proof -
  have "gs_arena g = gs_arena g'" "gs_tick g = gs_tick g'"
    using assms by (simp_all add: playable_view_def)
  then show ?thesis
    using playable_cong [OF assms] by (simp add: simulable_iff)
qed

lemma initial_simulable:
  assumes "board_ok w h t"
  shows "simulable (initial_game_state w h t q seed start)"
proof -
  let ?g = "initial_game_state w h t q seed start"
  have "arena_dims_ok (gs_arena ?g)"
    using assms
    by (cases t)
      (simp_all add: board_ok_def arena_dims_ok_def initial_game_state_def Let_def initial_arena_def
        word_less_def word_le_def split: option.split)
  moreover have "tempo_ok ?g"
    using assms
    by (cases t)
      (auto simp: board_ok_def tempo_ok_def initial_game_state_def Let_def initial_properties_def tick_ms_def
        normal_movement_interval_ms_def unat_max word_le_nat_alt max_def split: option.splits)
  ultimately show ?thesis
    using initial_admitted [of w h t q seed start]
    by (simp add: simulable_def env_ok_def players_ok_def)
       (simp add: initial_game_state_def Let_def hm_wf_def initial_arena_def split: option.split)
qed

lemma game_state_new_eq: "game_state_new w h t q seed start = Inr (initial_game_state w h t q seed start)"
  using validate_admitted [THEN iffD2, OF initial_admitted]
  by (simp add: game_state_new_def Let_def is_ok_def)

section \<open>Joining\<close>

lemma snake_at_mono:
  "snake_at g i = Some s \<Longrightarrow> ar_snakes (gs_arena g') = ar_snakes (gs_arena g) @ ss \<Longrightarrow> snake_at g' i = Some s"
  by (auto simp: snake_at_def nth_append split: if_splits)

lemma enter_playable:
  assumes "playable post g" and "\<not> hm_contains (gs_players g) u" and "snake_mid g s"
    and "length (ar_snakes (gs_arena g)) < 4294967295"
    and g': "g' = g\<lparr>gs_arena := (gs_arena g)\<lparr>ar_snakes := ar_snakes (gs_arena g) @ [s]\<rparr>,
      gs_players := hm_insert (gs_players g) u \<lparr>pl_user_id = u, pl_snake_id = of_nat (length (ar_snakes (gs_arena g)))\<rparr>,
      gs_player_last_activity_ticks := hm_insert (gs_player_last_activity_ticks g) u (gs_tick g)\<rparr>"
  shows "playable post g'"
proof -
  have view: "rules_view g' = rules_view g"
    by (simp add: g' rules_view_def)
  note cong = rules_ok_cong [OF view] env_ok_cong [OF view] snake_mid_cong [OF view]
  have snakes: "ar_snakes (gs_arena g') = ar_snakes (gs_arena g) @ [s]"
    by (simp add: g')
  have mono: "snake_exists g i \<Longrightarrow> snake_exists g' i" for i
    by (simp add: snake_exists_def g')
  have "players_ok g'"
    using assms(1,4) mono hm.wf_insert
    by (auto simp: playable_def players_ok_def g' snake_exists_def unat_of_nat dest!: hm_insert_memD)
  moreover have "snakes_ok g'" and "pads_ok post g'" and "refs_ok g'"
    using assms(1,3) mono
    by (auto simp: playable_def snakes_ok_def snakes cong pads_ok_def refs_ok_def)
       (auto simp: g')
  moreover have "kicked_ok g' v" if "kicked_ok g v" for v
    using that assms(2) snake_at_mono [OF _ snakes]
    by (auto simp: kicked_ok_def g' hm_contains_get)
  then have "idle_ok g'"
    using assms(1)
    by (auto simp: playable_def idle_ok_def g' is_complete_def dest!: hm_insert_memD)
  ultimately show ?thesis
    using assms(1) by (simp add: playable_def cong)
qed

lemma newcomer_mid:
  assumes "rules_ok g"
    and "sn_body s \<noteq> []" "sn_alive s" "sn_speed s = 1000" "sn_credit s = 0" "sn_combo s = snake_combo_default"
    and "sn_boost s = snake_boost_default\<lparr>charge_ms := (case unlimited_boost_capacity_ms g of Some c \<Rightarrow> c | None \<Rightarrow> 0)\<rparr>"
  shows "snake_mid g s" and "funded s"
  using assms threshold_pos [of g] rules_boost(4) [OF assms(1)]
  by (auto simp: snake_mid_def funded_def combo_snake_ok_def snake_combo_default_def snake_boost_default_def
      unlimited_boost_capacity_ms_def is_multiple_of_def split: option.splits if_splits)

lemma placed_playable:
  assumes "playable post g" and "all_funded g" and "apply_starting_positions n g = Inr g'"
  shows "playable post g'" and "all_funded g'" and "gs_tick g' = gs_tick g"
proof -
  obtain ps where g': "g' = g\<lparr>gs_arena := (gs_arena g)\<lparr>ar_snakes := map (\<lambda>(i, s). case get_at ps i of
      Some (h, d) \<Rightarrow> s\<lparr>sn_body := [h, tail_behind (starting_snake_length g) h d], sn_direction := d\<rparr>
    | None \<Rightarrow> s) (enumerate 0 (ar_snakes (gs_arena g)))\<rparr>\<rparr>"
    using assms(3) by (auto simp: apply_starting_positions_def try_then_eq_Inr_iff Let_def)
  show "playable post g'"
    unfolding g'
  proof (rule playable_set_snakes [OF assms(1)], goal_cases)
    case (2 n)
    then have "snake_mid g (ar_snakes (gs_arena g) ! n)"
      using playable_snake [OF assms(1)] by simp
    then show ?case
      using 2 by (auto simp: nth_enumerate_eq snake_mid_def combo_snake_ok_def split: option.splits prod.splits)
  next
    case (3 n)
    then show ?case
      using playable_kicked_dead [OF assms(1), of n]
      by (auto simp: nth_enumerate_eq split: option.splits prod.splits)
  qed simp
  show "all_funded g'"
    using assms(2) by (auto simp: g' all_funded_def funded_def in_set_enumerate_eq split: option.split prod.split)
  show "gs_tick g' = gs_tick g"
    by (simp add: g')
qed

lemma add_player_simulable:
  assumes "simulable g" and "add_player_with_team u name team g = (g', r)"
  shows "simulable g'"
proof (cases "hm_contains (gs_players g) u \<or> gs_tick g \<noteq> 0")
  case False
  define g1 where "g1 = (case name of Some n \<Rightarrow> g\<lparr>gs_usernames := hm_insert (gs_usernames g) u n\<rparr> | None \<Rightarrow> g)"
  have view: "playable_view g1 = playable_view g"
    by (simp add: g1_def playable_view_def is_complete_def split: option.split)
  then have g1: "playable (gs_tick g1) g1" "all_funded g1" "gs_players g1 = gs_players g"
    using assms(1) simulable_cong [OF view] by (simp_all add: simulable_iff all_funded_def playable_view_def)
  define s where "s = \<lparr>sn_body = [\<lparr>px = 0, py = 0\<rparr>, \<lparr>px = 0, py = 0\<rparr>], sn_direction = Right, sn_alive = True,
      sn_food = 0, sn_team = (if is_team_match (gs_game_type g1)
        then (case team of Some t \<Rightarrow> Some t | None \<Rightarrow> Some (of_nat (length (gs_players g1) mod 2))) else None),
      sn_speed = 1000, sn_credit = 0, sn_boost = snake_boost_default\<lparr>charge_ms :=
        (case unlimited_boost_capacity_ms g1 of Some c \<Rightarrow> c | None \<Rightarrow> 0)\<rparr>, sn_combo = snake_combo_default\<rparr>"
  have s: "snake_mid g1 s" "funded s"
    by (rule newcomer_mid [OF playable_rules [OF g1(1)]]; simp add: s_def)+
  show ?thesis
  proof (cases "int (length (ar_snakes (gs_arena g1))) \<ge> 4294967295")
    case True
    then show ?thesis
      using assms(2) False simulable_cong [OF view] assms(1)
      unfolding add_player_with_team_def add_snake_def g1_def [symmetric] by (simp add: Let_def)
  next
    case room: False
    define g2 where "g2 = g1\<lparr>gs_arena := (gs_arena g1)\<lparr>ar_snakes := ar_snakes (gs_arena g1) @ [s]\<rparr>,
      gs_players := hm_insert (gs_players g1) u \<lparr>pl_user_id = u, pl_snake_id = of_nat (length (ar_snakes (gs_arena g1)))\<rparr>,
      gs_player_last_activity_ticks := hm_insert (gs_player_last_activity_ticks g1) u (gs_tick g1)\<rparr>"
    have g2: "playable (gs_tick g1) g2" "all_funded g2"
      using enter_playable [OF g1(1) _ s(1) _ g2_def] False g1 room s(2)
      by (simp_all add: g2_def all_funded_def)
    obtain g3 where g3: "apply_starting_positions (length (gs_players g2)) g2 = Inr g3"
      using starting_positions_ok [of g2 "length (gs_players g2)"] g2(1)
      by (auto simp: apply_starting_positions_def playable_def env_ok_def Let_def)
    have "g' = g3"
      using assms(2) False room g3
      unfolding add_player_with_team_def add_snake_def g1_def [symmetric] Let_def s_def [symmetric] g2_def
      by simp
    moreover have "gs_tick g3 = gs_tick g1"
      using placed_playable(3) [OF g2 g3] by (simp add: g2_def)
    ultimately show ?thesis
      using placed_playable(1,2) [OF g2 g3] by (simp add: simulable_iff all_funded_def)
  qed
qed (use assms in \<open>auto simp: add_player_with_team_def split: if_splits\<close>)

section \<open>Food, commands and ticks\<close>

lemma food_laid_out:
  assumes "playable post g" and "food_position_free g p" and "in_arena (gs_arena g) p"
  shows "playable post (g\<lparr>gs_arena := (gs_arena g)\<lparr>ar_food := ar_food (gs_arena g) @ [p]\<rparr>\<rparr>)"
proof -
  have "pos_in_i16 p"
    using assms(1,3) by (intro in_arena_pos) (simp_all add: playable_def env_ok_def)
  moreover have "\<not> is_boost_pad_position (gs_arena g) p" and "p \<notin> set (ar_food (gs_arena g))"
    using assms(2) by (simp_all add: food_position_free_def)
  ultimately show ?thesis
    using playable_food_spawned [OF assms(1), of p] by (simp add: has_food_def)
qed

lemma spawn_attempts_ok:
  assumes "box_muller_ok bm" and "playable post g" and "all_funded g"
  shows "\<exists>g'. spawn_food_attempts bm n g = Inr g' \<and> playable post g' \<and> all_funded g' \<and> gs_tick g' = gs_tick g"
  using assms(2,3)
proof (induction n arbitrary: g)
  case (Suc n)
  have dims: "arena_dims_ok (gs_arena g)"
    using Suc.prems(1) by (simp add: playable_def env_ok_def)
  show ?case
  proof (cases "gs_rng g")
    case (Some r)
    obtain p r' where p: "sample_food_position bm (gs_game_type g) (gs_arena g) r = Inr (p, r')" "in_arena (gs_arena g) p"
      using sample_food_position_ok [OF dims assms(1)] by blast
    define g1 where "g1 = g\<lparr>gs_rng := Some r'\<rparr>"
    define g2 where "g2 = (if food_position_free g1 p
      then g1\<lparr>gs_arena := (gs_arena g1)\<lparr>ar_food := ar_food (gs_arena g1) @ [p]\<rparr>\<rparr> else g1)"
    have g1: "playable post g1" "all_funded g1" "in_arena (gs_arena g1) p"
      using Suc.prems p(2) by (simp_all add: g1_def all_funded_def)
    then have "playable post g2" "all_funded g2" "gs_tick g2 = gs_tick g"
      using food_laid_out [of post g1 p] by (simp_all add: g2_def all_funded_def) (simp add: g1_def)
    moreover have "spawn_food_attempts bm (Suc n) g =
        (if length (ar_food (gs_arena g)) < gp_available_food_target (gs_properties g)
         then spawn_food_attempts bm n g2 else Inr g)"
      by (simp add: Some p(1) g2_def g1_def Let_def)
    ultimately show ?thesis
      using Suc.IH [of g2] Suc.prems by simp
  qed (use Suc in simp)
qed simp

lemma spawn_initial_food_ok:
  assumes "box_muller_ok bm" and "simulable g"
  shows "\<exists>g'. spawn_initial_food bm g = Inr g' \<and> simulable g'"
  using spawn_attempts_ok [OF assms(1), of "gs_tick g" g 1000] assms(2)
  by (auto simp: spawn_initial_food_def simulable_iff all_funded_def)

lemma spawn_attempts_ended:
  "spawn_food_attempts bm n g = Inr g' \<Longrightarrow> ended_idle g \<Longrightarrow> ended_idle g'"
proof (induction n arbitrary: g)
  case (Suc n)
  have rng: "ended_idle (g\<lparr>gs_rng := r\<rparr>)" for r
    using Suc.prems(2) ended_idle_cong [of "g\<lparr>gs_rng := r\<rparr>" g] by (simp add: sound_view_def)
  have "ended_idle (g\<lparr>gs_rng := r, gs_arena := (gs_arena g)\<lparr>ar_food := food\<rparr>\<rparr>)" for r food
    using Suc.prems(2) ended_idle_cong [of "g\<lparr>gs_rng := r, gs_arena := (gs_arena g)\<lparr>ar_food := food\<rparr>\<rparr>" g]
    by (simp add: sound_view_def)
  with rng show ?case
    using Suc by (auto simp: try_then_eq_Inr_iff Let_def split: if_splits option.splits)
qed simp

lemma schedule_command_simulable:
  assumes "simulable g"
  shows "simulable (schedule_command m g)"
proof -
  have "playable post (g\<lparr>gs_player_last_activity_ticks := hm_insert (gs_player_last_activity_ticks g) u (gs_tick g)\<rparr>)"
    if "playable post g" and "hm_get (gs_players g) u = Some p" for post u p
  proof -
    let ?g = "g\<lparr>gs_player_last_activity_ticks := hm_insert (gs_player_last_activity_ticks g) u (gs_tick g)\<rparr>"
    have view: "rules_view ?g = rules_view g"
      by (simp add: rules_view_def)
    have "hm_contains (gs_players g) u"
      using that(2) by (auto simp: hm_contains_get)
    then show ?thesis
      using that(1) rules_ok_cong [OF view] env_ok_cong [OF view] snake_mid_cong [OF view]
      by (auto simp: playable_def players_ok_def snakes_ok_def pads_ok_def refs_ok_def idle_ok_def kicked_ok_def
          snake_at_def snake_exists_def is_complete_def dest!: hm_insert_memD)
  qed
  then have "playable (gs_tick g) (record_player_activity_for_command m (gs_tick g) g)"
    using assms by (auto simp: simulable_iff record_player_activity_for_command_def Let_def split: option.splits)
  moreover have "gs_arena (record_player_activity_for_command m (gs_tick g) g) = gs_arena g"
    and "gs_tick (record_player_activity_for_command m (gs_tick g) g) = gs_tick g"
    by (simp_all add: record_player_activity_for_command_def Let_def split: option.split)
  ultimately show ?thesis
    using assms by (simp add: schedule_command_def simulable_iff Let_def)
qed

lemma schedule_command_ended: "ended_idle g \<Longrightarrow> ended_idle (schedule_command m g)"
  using ended_idle_cong [of "schedule_command m g" g]
  by (simp add: schedule_command_def record_player_activity_for_command_def sound_view_def Let_def split: option.split)

lemma unseen_steps:
  "playable_view (arm_readiness_gate deadline g) = playable_view g"
  "playable_view (set_team_base side base (set_player_skin u skin (add_spectator v name g))) = playable_view g"
  "e = PlayerReady u \<or> e = MatchStartScheduled t \<Longrightarrow> playable_view (apply_event e g) = playable_view g"
  by (auto simp: arm_readiness_gate_def set_team_base_def set_player_skin_def add_spectator_def playable_view_def
      is_complete_def Let_def split: option.splits if_splits)

lemma unseen_steps_ended:
  "ended_idle g \<Longrightarrow> ended_idle (arm_readiness_gate deadline g)"
  "ended_idle g \<Longrightarrow> ended_idle (set_team_base side base (set_player_skin u skin (add_spectator v name g)))"
  "ended_idle g \<Longrightarrow> e = PlayerReady u \<or> e = MatchStartScheduled t \<Longrightarrow> ended_idle (apply_event e g)"
proof -
  assume ended: "ended_idle g"
  show "ended_idle (arm_readiness_gate deadline g)"
    using ended ended_idle_cong [of "arm_readiness_gate deadline g" g]
    by (simp add: arm_readiness_gate_def sound_view_def)
  show "ended_idle (set_team_base side base (set_player_skin u skin (add_spectator v name g)))" (is "ended_idle ?g")
    using ended ended_idle_cong [of ?g g]
    by (simp add: set_team_base_def set_player_skin_def add_spectator_def sound_view_def Let_def split: option.split)
  show "ended_idle (apply_event e g)" if "e = PlayerReady u \<or> e = MatchStartScheduled t"
    using that ended ended_idle_cong [of "apply_event e g" g] by (auto simp: sound_view_def split: option.splits)
qed

lemma started_simulable:
  assumes "simulable g" and "gs_status g = Stopped"
  shows "simulable (g\<lparr>gs_status := Started server\<rparr>)"
proof -
  have "\<not> gs_completed_by_inactivity g"
    using assms by (auto simp: simulable_def admitted_def idle_ok_def is_complete_def)
  then show ?thesis
    using assms playable_status [of "gs_tick g" g] by (simp add: simulable_iff)
qed

lemma tick_forward_ok:
  assumes "simulable g" and "box_muller_ok bm" and "unat (gs_tick g) + 2 < 2 ^ 32"
  shows "\<exists>g' events. tick_forward bm movement_only g = Inr (g', events) \<and>
    gs_tick g' = (if is_complete g then gs_tick g else gs_tick g + 1) \<and>
    (simulable g' \<or> sound g' \<and> gs_completed_by_inactivity g' \<and> is_complete g' \<and> pad_due (gs_tick g + 1) g)"
proof (cases "is_complete g")
  case True
  then show ?thesis
    using assms(1) by (simp add: tick_forward_def tick_forward_observing_boost_def)
next
  case False
  then show ?thesis
    using tick_observing_ok [OF assms False, of movement_only] by (auto simp: tick_forward_def)
qed

text \<open>A tick in which inactivity ends the match leaves the pads as they were.\<close>

lemma idle_end_tick:
  assumes "\<not> is_complete g" and "snd (resolve_player_inactivity (sat_add (gs_tick g) 1) (begin_tick g))"
  shows "tick_forward bm mo g =
    (let st = fst (resolve_player_inactivity (sat_add (gs_tick g) 1) (begin_tick g))
     in Inr ((fst st)\<lparr>gs_tick := sat_add (gs_tick g) 1\<rparr>, snd st))"
  using assms by (simp add: tick_forward_def tick_forward_observing_boost_def Let_def case_prod_beta try_then_def)

lemma idle_end_pads:
  assumes "\<not> is_complete g" and "snd (resolve_player_inactivity (sat_add (gs_tick g) 1) (begin_tick g))"
    and "tick_forward bm mo g = Inr (g', events)"
  shows "ar_boost_pads (gs_arena g') = ar_boost_pads (gs_arena g)"
  using assms(3) inactivity_keeps_pads [of "sat_add (gs_tick g) 1" "begin_tick g"]
  by (auto simp: idle_end_tick [OF assms(1,2)] Let_def begin_tick_def)

lemma idle_end_completes:
  assumes "simulable g" and "\<not> is_complete g"
    and "snd (resolve_player_inactivity (sat_add (gs_tick g) 1) (begin_tick g))"
    and "tick_forward bm mo g = Inr (g', events)"
  shows "is_complete g'" and "gs_completed_by_inactivity g'"
proof -
  let ?r = "resolve_player_inactivity (sat_add (gs_tick g) 1) (begin_tick g)"
  have g: "playable (gs_tick g) g" "all_funded g"
    using assms(1) by (simp_all add: simulable_iff all_funded_def)
  note b = begin_tick_ok [OF g(1)]
  have nc: "\<not> is_complete (fst (begin_tick g))"
    using assms(2) b(4) by (simp add: is_complete_def)
  note i = resolve_inactivity_ok [OF b(1) b(3) [OF g(2)] nc prod.collapse [symmetric], of "sat_add (gs_tick g) 1"]
  have "is_complete (fst (fst ?r))" "gs_completed_by_inactivity (fst (fst ?r))"
    using i(4,5) assms(3) by blast+
  then show "is_complete g'" "gs_completed_by_inactivity g'"
    using assms(4) by (auto simp: idle_end_tick [OF assms(2,3)] Let_def is_complete_def)
qed

lemma stale_pad_not_admitted: "pad_due (gs_tick g) g \<Longrightarrow> \<not> admitted g"
  by (auto simp: pad_due_def list_ex_iff admitted_def pad_ok_def)

lemma tick_forward_ended: "ended_idle g \<Longrightarrow> tick_forward bm movement_only g = Inr (g, [])"
  by (simp add: ended_idle_def tick_forward_def tick_forward_observing_boost_def)

lemma tick_pos: "unat (t::u32) + 2 < 2 ^ 32 \<Longrightarrow> t + 1 \<noteq> 0"
  by (simp add: word_unat_eq_iff unat_word_ariths)

lemma reachable_inv:
  assumes "reachable bm g" and "box_muller_ok bm"
  shows "simulable g \<or> ended_idle g"
  using assms(1)
proof (induction rule: reachable.induct)
  case (created w h t q seed start g)
  then have "g = initial_game_state w h t q seed start"
    by (simp add: game_state_new_eq)
  then show ?case
    using initial_simulable [OF created.hyps(1)] by simp
next
  case (joined g u name team g' r)
  then show ?case
    using add_player_simulable [OF _ joined.hyps(2)]
    by (auto simp: add_player_with_team_def ended_idle_def split: if_splits)
next
  case (stocked g g')
  then show ?case
    using spawn_initial_food_ok [OF assms(2), of g] spawn_attempts_ended [of bm 1000 g g']
    by (auto simp: spawn_initial_food_def split: if_splits)
next
  case (armed g deadline)
  then show ?case
    using simulable_cong [OF unseen_steps(1)] unseen_steps_ended(1) by blast
next
  case (readied g e u t)
  then show ?case
    using simulable_cong [OF unseen_steps(3) [OF readied.hyps(2)]] unseen_steps_ended(3) by blast
next
  case (dressed g side base u skin v name)
  then show ?case
    using simulable_cong [OF unseen_steps(2)] unseen_steps_ended(2) by blast
next
  case (started g server)
  then show ?case
    using started_simulable by (auto simp: ended_idle_def is_complete_def)
next
  case (scheduled g m)
  then show ?case
    using schedule_command_simulable schedule_command_ended by blast
next
  case (ticked g mo g' events)
  have "simulable g' \<or> ended_idle g'" if s: "simulable g"
  proof (cases "is_complete g")
    case True
    then show ?thesis
      using ticked.hyps(3) s by (simp add: tick_forward_def tick_forward_observing_boost_def)
  next
    case False
    then show ?thesis
      using tick_forward_ok [OF s assms(2) ticked.hyps(2), of mo] ticked.hyps(3) tick_pos [OF ticked.hyps(2)]
      by (auto simp: ended_idle_def)
  qed
  then show ?case
    using ticked.IH ticked.hyps(3) by (auto simp: tick_forward_ended)
qed

lemma reachable_tick_returns:
  assumes "reachable bm g" and "box_muller_ok bm" and "unat (gs_tick g) + 2 < 2 ^ 32"
  shows "\<exists>g' events. tick_forward bm movement_only g = Inr (g', events)"
  using reachable_inv [OF assms(1,2)] tick_forward_ok [OF _ assms(2,3), of movement_only] tick_forward_ended
  by blast

end
