(* ===== verification/Game_Engine.thy ===== *)
theory Game_Engine
  imports Fingerprint Match_Runs
begin

text \<open>
  The engine around the simulation, \<^verbatim>\<open>common/src/game_engine.rs\<close>: an authoritative (committed) state,
  a predicted copy of it, the replication protocol between server and client, and recovery.

  A loop of the source that may not end is a \<open>partial_function\<close>: not returning is the value
  \<open>None\<close>. An operation that mutates the engine before it fails returns the engine beside its
  result; one whose caller drops the engine on failure returns a \<open>result\<close>.
\<close>

section \<open>Data\<close>

record game_event_message =
  em_game_id :: u32
  em_tick :: u32
  em_sequence :: u64
  em_stream_seq :: u64
  em_user_id :: "u32 option"
  em_event :: game_event

record sync_status =
  last_stream_seq :: u64
  stream_gap_count :: u32
  missed_messages :: u64
  stale_messages_skipped :: u64
  last_probe_tick :: "u32 option"
  last_probe_matched :: "bool option"
  consecutive_hash_mismatches :: u32
  total_probes :: u64
  total_mismatches :: u64
  first_mismatch_tick :: "u32 option"
  needs_resync :: bool
  last_server_tick :: u32
  last_server_ts_ms :: "i64 option"

definition sync_status_default :: sync_status where
  "sync_status_default =
     \<lparr>last_stream_seq = 0, stream_gap_count = 0, missed_messages = 0, stale_messages_skipped = 0,
      last_probe_tick = None, last_probe_matched = None, consecutive_hash_mismatches = 0,
      total_probes = 0, total_mismatches = 0, first_mismatch_tick = None, needs_resync = False,
      last_server_tick = 0, last_server_ts_ms = None\<rparr>"

record game_engine =
  ge_game_id :: u32
  committed_state :: game_state
  predicted_state :: "game_state option"
  event_log :: "game_event_message list"
  committed_state_lag_ms :: u32
  local_player_id :: "u32 option"
  command_counter :: u32
  local_command_seq :: u32
  speculative_commands :: "game_command_message list"
  engine_sync :: sync_status
  prediction_needs_rebuild :: bool

abbreviation (input) MAX_PREDICTION_AHEAD_MS :: u32 where "MAX_PREDICTION_AHEAD_MS \<equiv> 1000"

text \<open>i64 subtraction wraps in a release build.\<close>

definition wrap_i64 :: "int \<Rightarrow> i64" where
  "wrap_i64 x = signed_take_bit 63 x"

section \<open>Construction\<close>

definition validate_client_snapshot_state :: "game_state \<Rightarrow> unit result" where
  "validate_client_snapshot_state g =
     (case validate_boost_invariants g of
        Inr _ \<Rightarrow> Inr ()
      | Inl strict_error \<Rightarrow> if is_legacy_completed_snapshot g then Inr () else Inl strict_error)"

definition fresh_engine :: "u32 \<Rightarrow> game_state \<Rightarrow> game_state \<Rightarrow> u32 \<Rightarrow> game_engine" where
  "fresh_engine game_id committed predicted next_command_sequence =
     \<lparr>ge_game_id = game_id, committed_state = committed, predicted_state = Some predicted, event_log = [],
      committed_state_lag_ms = 500, local_player_id = None, command_counter = next_command_sequence,
      local_command_seq = 0, speculative_commands = [], engine_sync = sync_status_default,
      prediction_needs_rebuild = False\<rparr>"

definition engine_new :: "u32 \<Rightarrow> i64 \<Rightarrow> game_engine result" where
  "engine_new game_id start_ms =
     try_then (game_state_new 60 40 (TeamMatch 1) Quickmatch None start_ms) (\<lambda>committed.
     try_then (game_state_new 60 40 (TeamMatch 1) Quickmatch None start_ms) (\<lambda>predicted.
     Inr (fresh_engine game_id committed predicted 0)))"

definition engine_dimensions :: "game_type \<Rightarrow> u16 \<times> u16" where
  "engine_dimensions t =
     (case t of
        Custom cs \<Rightarrow> (cg_arena_width cs, cg_arena_height cs)
      | TeamMatch _ \<Rightarrow> (60, 40)
      | _ \<Rightarrow> (40, 40))"

definition new_with_seed_and_type :: "u32 \<Rightarrow> i64 \<Rightarrow> u64 \<Rightarrow> game_type \<Rightarrow> game_engine result" where
  "new_with_seed_and_type game_id start_ms rng_seed t =
     (let (width, height) = engine_dimensions t in
      try_then (game_state_new width height t Quickmatch (Some rng_seed) start_ms) (\<lambda>committed.
      try_then (game_state_new width height t Quickmatch None start_ms) (\<lambda>predicted.
      Inr (fresh_engine game_id committed predicted 0))))"

definition new_with_seed :: "u32 \<Rightarrow> i64 \<Rightarrow> u64 \<Rightarrow> game_engine result" where
  "new_with_seed game_id start_ms rng_seed = new_with_seed_and_type game_id start_ms rng_seed (TeamMatch 1)"

definition without_rng :: "game_state \<Rightarrow> game_state" where
  "without_rng g = g\<lparr>gs_rng := None\<rparr>"

definition from_validated_state :: "u32 \<Rightarrow> game_state \<Rightarrow> u32 \<Rightarrow> game_engine" where
  "from_validated_state game_id g next_command_sequence =
     fresh_engine game_id g (without_rng g) next_command_sequence"

definition try_new_from_state_with_command_counter :: "u32 \<Rightarrow> game_state \<Rightarrow> u32 \<Rightarrow> game_engine result" where
  "try_new_from_state_with_command_counter game_id g next_command_sequence =
     try_then (validate_boost_invariants g) (\<lambda>_.
     Inr (from_validated_state game_id g next_command_sequence))"

definition try_new_from_state :: "u32 \<Rightarrow> game_state \<Rightarrow> game_engine result" where
  "try_new_from_state game_id g = try_new_from_state_with_command_counter game_id g 0"

definition try_new_from_snapshot_state :: "u32 \<Rightarrow> game_state \<Rightarrow> game_engine result" where
  "try_new_from_snapshot_state game_id g =
     try_then (validate_client_snapshot_state g) (\<lambda>_. Inr (from_validated_state game_id g 0))"

text \<open>\<open>expect\<close> turns an error into a panic.\<close>

definition expect :: "string \<Rightarrow> 'a result \<Rightarrow> 'a result" where
  "expect msg r = (case r of Inr x \<Rightarrow> Inr x | Inl _ \<Rightarrow> Inl (Panic msg))"

definition new_from_state :: "u32 \<Rightarrow> game_state \<Rightarrow> game_engine result" where
  "new_from_state game_id g =
     expect ''restored game state must satisfy gameplay invariants'' (try_new_from_state game_id g)"

definition new_from_state_with_command_counter :: "u32 \<Rightarrow> game_state \<Rightarrow> u32 \<Rightarrow> game_engine result" where
  "new_from_state_with_command_counter game_id g next_command_sequence =
     expect ''recovered game state must satisfy gameplay invariants''
       (try_new_from_state_with_command_counter game_id g next_command_sequence)"

definition set_local_player_id :: "u32 \<Rightarrow> game_engine \<Rightarrow> game_engine" where
  "set_local_player_id player_id en = en\<lparr>local_player_id := Some player_id\<rparr>"

definition get_predicted_tick :: "game_engine \<Rightarrow> u32" where
  "get_predicted_tick en =
     (case predicted_state en of Some p \<Rightarrow> gs_tick p | None \<Rightarrow> gs_tick (committed_state en))"

definition committed_sync_hash :: "game_engine \<Rightarrow> u64" where
  "committed_sync_hash en = sync_hash (committed_state en)"

definition with_sync :: "(sync_status \<Rightarrow> sync_status) \<Rightarrow> game_engine \<Rightarrow> game_engine" where
  "with_sync f en = en\<lparr>engine_sync := f (engine_sync en)\<rparr>"

definition clear_needs_resync :: "game_engine \<Rightarrow> game_engine" where
  "clear_needs_resync = with_sync (\<lambda>s. s\<lparr>needs_resync := False\<rparr>)"

definition request_resync :: "game_engine \<Rightarrow> game_engine" where
  "request_resync = with_sync (\<lambda>s. s\<lparr>needs_resync := True\<rparr>)"

section \<open>Local input\<close>

definition apply_pre_match_readiness_event :: "game_event \<Rightarrow> game_engine \<Rightarrow> game_engine \<times> unit result" where
  "apply_pre_match_readiness_event e en =
     (if \<not> (case e of PlayerReady _ \<Rightarrow> True | MatchStartScheduled _ \<Rightarrow> True | _ \<Rightarrow> False)
      then (en, Inl (Err ''only readiness transitions may be applied outside the simulation''))
      else if gs_tick (committed_state en) \<noteq> 0
      then (en, Inl (Err ''the readiness gate cannot be touched after the simulation has started''))
      else (en\<lparr>committed_state := apply_event e (committed_state en), prediction_needs_rebuild := True\<rparr>, Inr ()))"

definition process_local_command :: "game_command \<Rightarrow> game_engine \<Rightarrow> game_engine \<times> game_command_message result" where
  "process_local_command c en =
     (case local_player_id en of
        None \<Rightarrow> (en, Inl (Err ''Local player ID not set''))
      | Some player_id \<Rightarrow>
          let predicted_tick = (case predicted_state en of Some p \<Rightarrow> gs_tick p | None \<Rightarrow> 0);
              seq = local_command_seq en + 1;
              m = \<lparr>command_id_client = CommandId predicted_tick player_id seq,
                   command_id_server = None, command = c\<rparr>
          in (en\<lparr>local_command_seq := seq,
                 speculative_commands := speculative_commands en @ [m],
                 predicted_state := map_option (schedule_command m) (predicted_state en)\<rparr>,
              Inr m))"

definition forget_speculative :: "command_id \<Rightarrow> game_engine \<Rightarrow> game_engine" where
  "forget_speculative i en =
     en\<lparr>speculative_commands := filter (\<lambda>m. command_id_client m \<noteq> i) (speculative_commands en)\<rparr>"

definition discard_local_command :: "command_id \<Rightarrow> game_engine \<Rightarrow> game_engine \<times> bool" where
  "discard_local_command i en =
     (let en' = forget_speculative i en
      in (en'\<lparr>prediction_needs_rebuild := True\<rparr>,
          length (speculative_commands en') \<noteq> length (speculative_commands en)))"

section \<open>Replicated messages\<close>

text \<open>The catch-up loop of a replicated message. It does not look at the status of the match.\<close>

partial_function (option) advance_to :: "box_muller \<Rightarrow> u32 \<Rightarrow> game_state \<Rightarrow> game_state result option" where
  "advance_to bm t g =
     (if gs_tick g < t then
        case tick_forward bm True g of
          Inl err \<Rightarrow> Some (Inl err)
        | Inr (g', _) \<Rightarrow> advance_to bm t g'
      else Some (Inr g))"

definition check_snapshot :: "game_event_message \<Rightarrow> unit result" where
  "check_snapshot m =
     (case em_event m of
        Snapshot g \<Rightarrow>
          if gs_tick g \<noteq> em_tick m then Inl (Err ''snapshot envelope tick does not match state tick'')
          else validate_client_snapshot_state g
      | _ \<Rightarrow> Inr ())"

definition advance_and_apply_replicated_message ::
  "box_muller \<Rightarrow> game_state \<Rightarrow> game_event_message \<Rightarrow> game_state result option" where
  "advance_and_apply_replicated_message bm g m =
     (case check_snapshot m of
        Inl err \<Rightarrow> Some (Inl err)
      | Inr _ \<Rightarrow>
        case em_event m of
          Snapshot g' \<Rightarrow> Some (Inr g')
        | e \<Rightarrow>
          case advance_to bm (em_tick m) g of
            None \<Rightarrow> None
          | Some (Inl err) \<Rightarrow> Some (Inl err)
          | Some (Inr candidate) \<Rightarrow>
              if (case e of TickHash _ _ \<Rightarrow> True | _ \<Rightarrow> False) then Some (Inr candidate)
              else case try_apply_replicated_event e candidate of
                (_, Inl err) \<Rightarrow> Some (Inl err)
              | (candidate, Inr _) \<Rightarrow> Some (Inr candidate))"

text \<open>Transport accounting; \<open>None\<close> is a stale or duplicate delivery, which is skipped.\<close>

definition account_stream :: "bool \<Rightarrow> u64 \<Rightarrow> sync_status \<Rightarrow> sync_status option" where
  "account_stream is_snapshot seq s =
     (let last = last_stream_seq s in
      if seq = 0 then Some s
      else if is_snapshot then Some (s\<lparr>last_stream_seq := seq\<rparr>)
      else if last = 0 then Some (s\<lparr>last_stream_seq := seq\<rparr>)
      else if seq \<le> last then None
      else
        let s = (if seq > last + 1
                 then s\<lparr>stream_gap_count := stream_gap_count s + 1,
                        missed_messages := missed_messages s + (seq - last - 1),
                        needs_resync := True\<rparr>
                 else s)
        in Some (s\<lparr>last_stream_seq := seq\<rparr>))"

definition observe_tick :: "u32 \<Rightarrow> sync_status \<Rightarrow> sync_status" where
  "observe_tick t s = (if t > last_server_tick s then s\<lparr>last_server_tick := t\<rparr> else s)"

definition probe :: "u32 \<Rightarrow> u64 \<Rightarrow> i64 \<Rightarrow> u64 \<Rightarrow> sync_status \<Rightarrow> sync_status" where
  "probe tick server_hash ts local_hash s =
     (let matched = (local_hash = server_hash);
          s = s\<lparr>last_probe_tick := Some tick, last_probe_matched := Some matched,
                total_probes := total_probes s + 1, last_server_ts_ms := Some ts\<rparr>
      in if matched then s\<lparr>consecutive_hash_mismatches := 0\<rparr>
         else
           let s = s\<lparr>total_mismatches := total_mismatches s + 1,
                     consecutive_hash_mismatches := consecutive_hash_mismatches s + 1,
                     first_mismatch_tick :=
                       (case first_mismatch_tick s of None \<Rightarrow> Some tick | Some t \<Rightarrow> Some t)\<rparr>
           in if consecutive_hash_mismatches s \<ge> 2 then s\<lparr>needs_resync := True\<rparr> else s)"

text \<open>Which speculative commands an event settles.\<close>

fun settle_commands :: "game_event \<Rightarrow> game_engine \<Rightarrow> game_engine" where
  "settle_commands (CommandScheduled m) en = forget_speculative (command_id_client m) en"
| "settle_commands (CommandScheduledV2 _ m _) en = forget_speculative (command_id_client m) en"
| "settle_commands (CommandRejected _ _ (Some i) session_rejected_from) en =
     (let en = forget_speculative i en
      in if session_rejected_from \<noteq> None then request_resync en else en)"
| "settle_commands _ en = en"

definition process_server_event ::
  "box_muller \<Rightarrow> game_event_message \<Rightarrow> game_engine \<Rightarrow> (game_engine \<times> unit result) option" where
  "process_server_event bm m en =
     (let is_snapshot = (case em_event m of Snapshot _ \<Rightarrow> True | _ \<Rightarrow> False) in
      case check_snapshot m of
        Inl err \<Rightarrow> Some (request_resync en, Inl err)
      | Inr _ \<Rightarrow>
        case account_stream is_snapshot (em_stream_seq m) (engine_sync en) of
          None \<Rightarrow>
            Some (with_sync (\<lambda>s. s\<lparr>stale_messages_skipped := stale_messages_skipped s + 1\<rparr>) en, Inr ())
        | Some s \<Rightarrow>
          let en = en\<lparr>engine_sync := observe_tick (em_tick m) s\<rparr> in
          case advance_and_apply_replicated_message bm (committed_state en) m of
            None \<Rightarrow> None
          | Some (Inl err) \<Rightarrow> Some (request_resync en, Inl err)
          | Some (Inr candidate) \<Rightarrow>
            case em_event m of
              TickHash server_hash ts \<Rightarrow>
                Some ((with_sync (probe (em_tick m) server_hash ts (sync_hash candidate)) en)
                        \<lparr>committed_state := candidate\<rparr>, Inr ())
            | e \<Rightarrow>
                let en = (settle_commands e (en\<lparr>committed_state := candidate\<rparr>))\<lparr>prediction_needs_rebuild := True\<rparr>
                in Some (if is_snapshot
                         then with_sync (\<lambda>s. s\<lparr>needs_resync := False, consecutive_hash_mismatches := 0\<rparr>)
                                (en\<lparr>speculative_commands := []\<rparr>)
                         else en, Inr ()))"

section \<open>Prediction\<close>

definition max_predicted_tick :: "game_engine \<Rightarrow> u32" where
  "max_predicted_tick en =
     (let tick_duration = max (gp_tick_duration_ms (gs_properties (committed_state en))) 1;
          ahead_ticks = (committed_state_lag_ms en + MAX_PREDICTION_AHEAD_MS) div tick_duration
      in gs_tick (committed_state en) + max ahead_ticks 1)"

text \<open>\<open>while !is_complete && current_tick < target { tick_forward(movement_only)?; }\<close>\<close>

partial_function (option) run_state ::
  "box_muller \<Rightarrow> bool \<Rightarrow> u32 \<Rightarrow> game_state \<Rightarrow> game_state result option" where
  "run_state bm movement_only target g =
     (if \<not> is_complete g \<and> gs_tick g < target then
        case tick_forward bm movement_only g of
          Inl err \<Rightarrow> Some (Inl err)
        | Inr (g', _) \<Rightarrow> run_state bm movement_only target g'
      else Some (Inr g))"

definition anchor_prediction :: "game_engine \<Rightarrow> game_engine" where
  "anchor_prediction en =
     en\<lparr>predicted_state := Some (without_rng (committed_state en)), prediction_needs_rebuild := False\<rparr>"

definition replay_speculation :: "game_engine \<Rightarrow> game_state" where
  "replay_speculation en =
     foldl (\<lambda>g m. schedule_command m g) (without_rng (committed_state en)) (speculative_commands en)"

definition rebuild_predicted_state :: "box_muller \<Rightarrow> i64 \<Rightarrow> game_engine \<Rightarrow> (game_engine \<times> unit result) option" where
  "rebuild_predicted_state bm current_ts en =
     (let elapsed_ms = (case simulation_start_ms (committed_state en) of
                          Some epoch \<Rightarrow> wrap_i64 (current_ts - epoch) | None \<Rightarrow> -1);
          tick_duration = gp_tick_duration_ms (gs_properties (committed_state en))
      in if elapsed_ms < 0 then
           Some (if prediction_needs_rebuild en then anchor_prediction en else en, Inr ())
         else if tick_duration = 0 then Some (en, Inl (Panic ''attempt to divide by zero''))
         else
           let target = min (word_of_int (elapsed_ms div uint tick_duration)) (max_predicted_tick en) in
           if is_complete (committed_state en) then Some (anchor_prediction en, Inr ())
           else if prediction_needs_rebuild en \<or>
                   (case predicted_state en of None \<Rightarrow> True | Some p \<Rightarrow> target > gs_tick p) then
             case run_state bm False target (replay_speculation en) of
               None \<Rightarrow> None
             | Some (Inl err) \<Rightarrow> Some (en, Inl err)
             | Some (Inr p) \<Rightarrow>
                 Some (en\<lparr>predicted_state := Some p, prediction_needs_rebuild := False\<rparr>, Inr ())
           else Some (en, Inr ()))"

section \<open>The authoritative clock\<close>

type_synonym published_event = "u32 \<times> u64 \<times> game_event"

definition event_label :: "u32 \<Rightarrow> game_event \<Rightarrow> u32" where
  "event_label post_tick e = (case e of Snapshot g \<Rightarrow> gs_tick g | _ \<Rightarrow> post_tick)"

definition publish :: "u32 \<Rightarrow> numbered_events \<Rightarrow> published_event list" where
  "publish post_tick events = map (\<lambda>(n, e). (event_label post_tick e, n, e)) events"

partial_function (option) run_committed ::
  "box_muller \<Rightarrow> u32 \<Rightarrow> game_state \<Rightarrow> published_event list \<Rightarrow> boost_lifecycle_transition list
   \<Rightarrow> (game_state \<times> published_event list \<times> boost_lifecycle_transition list) result option" where
  "run_committed bm target g out observed =
     (if \<not> is_complete g \<and> gs_tick g < target then
        case tick_forward_observing_boost bm False g of
          Inl err \<Rightarrow> Some (Inl err)
        | Inr ((g', events), transitions) \<Rightarrow>
            run_committed bm target g' (out @ publish (gs_tick g') events) (observed @ transitions)
      else Some (Inr (g, out, observed)))"

definition run_until_observing_boost ::
  "box_muller \<Rightarrow> i64 \<Rightarrow> game_engine
   \<Rightarrow> (game_engine \<times> published_event list \<times> boost_lifecycle_transition list) result option" where
  "run_until_observing_boost bm ts_ms en =
     (let tick_duration = gp_tick_duration_ms (gs_properties (committed_state en)) in
      case simulation_start_ms (committed_state en) of
        None \<Rightarrow> Some (Inr (en, [], []))
      | Some epoch \<Rightarrow>
        let elapsed_ms = wrap_i64 (ts_ms - epoch) in
        if elapsed_ms < 0 then Some (Inr (en, [], []))
        else if tick_duration = 0 then Some (Inl (Panic ''attempt to divide by zero''))
        else
          let wallclock_target = word_of_int (elapsed_ms div uint tick_duration);
              lagged_target = sat_sub wallclock_target (committed_state_lag_ms en div tick_duration)
          in case run_committed bm lagged_target (committed_state en) [] [] of
            None \<Rightarrow> None
          | Some (Inl err) \<Rightarrow> Some (Inl err)
          | Some (Inr (g, out, observed)) \<Rightarrow>
            let en = en\<lparr>committed_state := g\<rparr> in
            case (if prediction_needs_rebuild en then rebuild_predicted_state bm ts_ms en
                  else Some (en, Inr ())) of
              None \<Rightarrow> None
            | Some (_, Inl err) \<Rightarrow> Some (Inl err)
            | Some (en, Inr _) \<Rightarrow>
              case predicted_state en of
                None \<Rightarrow> Some (Inr (en, out, observed))
              | Some p \<Rightarrow>
                case run_state bm True (min wallclock_target (max_predicted_tick en)) p of
                  None \<Rightarrow> None
                | Some (Inl err) \<Rightarrow> Some (Inl err)
                | Some (Inr p) \<Rightarrow> Some (Inr (en\<lparr>predicted_state := Some p\<rparr>, out, observed)))"

definition run_until :: "box_muller \<Rightarrow> i64 \<Rightarrow> game_engine \<Rightarrow> (game_engine \<times> published_event list) result option" where
  "run_until bm ts_ms en =
     map_option (\<lambda>r. try_then r (\<lambda>(en, out, _). Inr (en, out))) (run_until_observing_boost bm ts_ms en)"

text \<open>\<open>u32::try_from(..).unwrap_or(u32::MAX)\<close> and the saturating i64 subtraction.\<close>

definition clamp_u32 :: "int \<Rightarrow> u32" where
  "clamp_u32 x = (if 0 \<le> x \<and> x < 2 ^ 32 then word_of_int x else -1)"

definition sat_sub_i64 :: "i64 \<Rightarrow> i64 \<Rightarrow> i64" where
  "sat_sub_i64 a b = max (- (2 ^ 63)) (min (2 ^ 63 - 1) (a - b))"

definition authoritative_scheduler_lag_ms :: "i64 \<Rightarrow> game_engine \<Rightarrow> u64" where
  "authoritative_scheduler_lag_ms ts_ms en =
     (let g = committed_state en in
      case simulation_start_ms g of
        None \<Rightarrow> 0
      | Some epoch \<Rightarrow>
          if is_complete g \<or> ts_ms < epoch then 0
          else
            let tick_duration = max (gp_tick_duration_ms (gs_properties g)) 1;
                wallclock_target = clamp_u32 (sat_sub_i64 ts_ms epoch div uint tick_duration);
                lagged_target = sat_sub wallclock_target (committed_state_lag_ms en div tick_duration)
            in ucast (sat_sub lagged_target (gs_tick g)) * ucast tick_duration)"

section \<open>Commands and recovery\<close>

definition schedule_everywhere :: "game_command_message \<Rightarrow> game_engine \<Rightarrow> game_engine" where
  "schedule_everywhere m en =
     en\<lparr>committed_state := schedule_command m (committed_state en),
        predicted_state := map_option (schedule_command m) (predicted_state en)\<rparr>"

definition process_command :: "game_command_message \<Rightarrow> game_engine \<Rightarrow> game_engine \<times> game_command_message" where
  "process_command m en =
     (let client = command_id_client m;
          scheduled = max (cid_tick client) (gs_tick (committed_state en));
          cmd = \<lparr>command_id_client = client,
                 command_id_server = Some (CommandId scheduled (cid_user_id client) (command_counter en)),
                 command = command m\<rparr>
      in (schedule_everywhere cmd (en\<lparr>command_counter := command_counter en + 1\<rparr>), cmd))"

text \<open>The catch-up of recovery stops with an error on a completed match.\<close>

partial_function (option) recover_to :: "box_muller \<Rightarrow> u32 \<Rightarrow> game_state \<Rightarrow> game_state result option" where
  "recover_to bm t g =
     (if gs_tick g < t then
        if is_complete g
        then Some (Inl (Err ''replayed command was accepted after the recovered game completed''))
        else case tick_forward bm False g of
          Inl err \<Rightarrow> Some (Inl err)
        | Inr (g', _) \<Rightarrow> recover_to bm t g'
      else Some (Inr g))"

definition replay_scheduled_command ::
  "box_muller \<Rightarrow> game_command_message \<Rightarrow> u32 \<Rightarrow> game_engine \<Rightarrow> game_engine result option" where
  "replay_scheduled_command bm m scheduled_at en =
     (let now = gs_tick (committed_state en) in
      case command_id_server m of
        None \<Rightarrow> Some (Inl (Err ''replayed server command has no server ID''))
      | Some i \<Rightarrow>
        if cid_sequence_number i \<noteq> command_counter en
        then Some (Inl (Err ''replayed server command sequence does not match next sequence''))
        else if cid_user_id i \<noteq> cid_user_id (command_id_client m)
        then Some (Inl (Err ''replayed server command user identity does not match''))
        else if cid_tick i < now
        then Some (Inl (Err ''replayed server command tick predates checkpoint tick''))
        else if scheduled_at < now \<or> scheduled_at > cid_tick i
        then Some (Inl (Err ''replayed command activity tick must be between checkpoint and scheduled tick''))
        else case recover_to bm scheduled_at (committed_state en) of
          None \<Rightarrow> None
        | Some (Inl err) \<Rightarrow> Some (Inl err)
        | Some (Inr g) \<Rightarrow>
            let en = en\<lparr>committed_state := g, predicted_state := Some (without_rng g)\<rparr> in
            case checked_add (command_counter en) 1 of
              None \<Rightarrow> Some (Inl (Err ''server command sequence overflow''))
            | Some n \<Rightarrow> Some (Inr (schedule_everywhere m (en\<lparr>command_counter := n\<rparr>))))"

end
