(* ===== verification/Engine_Safety.thy ===== *)
theory Engine_Safety
  imports Game_Engine
begin

text \<open>
  What the engine guarantees on top of the simulation: its clock loops return, an event from the
  network is applied completely or not at all, recovery reproduces the decisions of the failed
  actor, and prediction stays within its window. The one loop that can fail to return, the catch-up
  of a replicated message, is characterised exactly.
\<close>

section \<open>Loops that step a state\<close>

text \<open>
  The contract of a \<open>while\<close> loop over a fallible step: the loop unfolds to the step, and while its
  guard holds a good state steps to a good state, closer to the exit and \<open>trail\<close>-related to it.
\<close>

locale stepping_loop =
  fixes loop :: "'s \<Rightarrow> 's result option"
    and going :: "'s \<Rightarrow> bool"
    and step :: "'s \<Rightarrow> 's result"
    and good :: "'s \<Rightarrow> bool"
    and rank :: "'s \<Rightarrow> nat"
    and trail :: "'s \<Rightarrow> 's \<Rightarrow> bool"
  assumes loop_unfold: "loop s = (if going s then (case step s of Inl e \<Rightarrow> Some (Inl e) | Inr s' \<Rightarrow> loop s') else Some (Inr s))"
    and progress: "good s \<Longrightarrow> going s \<Longrightarrow> \<exists>s'. step s = Inr s' \<and> good s' \<and> rank s' < rank s \<and> trail s s'"
    and trail_refl: "trail s s"
    and trail_trans: "trail s s' \<Longrightarrow> trail s' s'' \<Longrightarrow> trail s s''"
begin

lemma loop_returns:
  "good s \<Longrightarrow> \<exists>s'. loop s = Some (Inr s') \<and> good s' \<and> \<not> going s' \<and> trail s s'"
proof (induction s rule: measure_induct_rule [of rank])
  case (less s)
  show ?case
  proof (cases "going s")
    case True
    then obtain s' where s': "step s = Inr s'" "good s'" "rank s' < rank s" "trail s s'"
      using progress [OF less.prems] by blast
    have "loop s = loop s'"
      using True s'(1) by (subst loop_unfold) simp
    then show ?thesis
      using less.IH [OF s'(3,2)] s'(4) trail_trans by metis
  next
    case False
    then show ?thesis
      using less.prems trail_refl loop_unfold [of s] by auto
  qed
qed

end

section \<open>Live states\<close>

text \<open>A state of a run: it can be simulated further, or inactivity has ended the match.\<close>

definition live :: "game_state \<Rightarrow> bool" where
  "live g \<longleftrightarrow> simulable g \<or> ended_idle g"

lemma below_max: "t \<noteq> (-1 :: u32) \<Longrightarrow> unat t + 1 < 2 ^ 32"
  by (simp add: word_order.not_eq_extremum word_less_nat_alt unsigned_minus_1_eq_mask mask_eq_exp_minus_1)

lemma live_step:
  assumes "live g" and "\<not> is_complete g" and "box_muller_ok bm" and "gs_tick g < t" and "t \<noteq> -1"
  shows "\<exists>g' events ts. tick_forward_observing_boost bm mo g = Inr ((g', events), ts) \<and>
    live g' \<and> timing g' = timing g \<and> gs_tick g < gs_tick g' \<and> gs_tick g' \<le> t"
proof -
  have s: "simulable g"
    using assms(1,2) by (auto simp: live_def ended_idle_def)
  have "unat t + 1 < 2 ^ 32"
    by (rule below_max [OF assms(5)])
  moreover have "unat (gs_tick g) < unat t"
    using assms(4) by (simp add: word_less_nat_alt)
  ultimately have room: "unat (gs_tick g) + 2 < 2 ^ 32"
    by simp
  then have succ: "unat (gs_tick g + 1) = unat (gs_tick g) + 1"
    by (simp add: unat_word_ariths)
  obtain g' events ts where g': "tick_forward_observing_boost bm mo g = Inr ((g', events), ts)"
      "gs_tick g' = gs_tick g + 1" "timing g' = timing g"
      "simulable g' \<or> sound g' \<and> gs_completed_by_inactivity g' \<and> is_complete g'"
    using tick_observing_ok [OF s assms(3) room assms(2), of mo] by auto
  then have "live g'"
    using tick_pos [OF room] by (auto simp: live_def ended_idle_def)
  then show ?thesis
    using g' succ \<open>unat (gs_tick g) < unat t\<close> by (auto simp: word_less_nat_alt word_le_nat_alt)
qed

lemma live_without_rng: "live g \<Longrightarrow> live (without_rng g)"
  using simulable_cong [of "without_rng g" g]
  using ended_idle_cong [of "without_rng g" g]
  by (auto simp: live_def without_rng_def is_complete_def playable_view_def sound_view_def)

lemma live_schedule: "live g \<Longrightarrow> live (schedule_command m g)"
  using schedule_command_simulable schedule_command_ended by (auto simp: live_def)

lemma live_replay: "live (committed_state en) \<Longrightarrow> live (replay_speculation en)"
proof -
  have "live g \<Longrightarrow> live (foldl (\<lambda>g m. schedule_command m g) g ms)" for g ms
    by (induction ms arbitrary: g) (auto intro: live_schedule)
  then show "live (committed_state en) \<Longrightarrow> live (replay_speculation en)"
    by (simp add: replay_speculation_def live_without_rng)
qed

lemma reachable_live: "reachable bm g \<Longrightarrow> box_muller_ok bm \<Longrightarrow> live g"
  using reachable_inv by (simp add: live_def)

section \<open>The clock loops return\<close>

definition clock_trail :: "u32 \<Rightarrow> game_state \<Rightarrow> game_state \<Rightarrow> bool" where
  "clock_trail t g g' \<longleftrightarrow>
     gs_tick g \<le> gs_tick g' \<and> gs_tick g' \<le> max (gs_tick g) t \<and> timing g' = timing g"

lemma clock_trail_trans: "clock_trail t g g' \<Longrightarrow> clock_trail t g' g'' \<Longrightarrow> clock_trail t g g''"
  by (auto simp: clock_trail_def max_def split: if_splits)

lemma clock_trail_refl: "clock_trail t g g"
  by (simp add: clock_trail_def)

definition loop_good :: "box_muller \<Rightarrow> u32 \<Rightarrow> game_state \<Rightarrow> bool" where
  "loop_good bm t g \<longleftrightarrow> box_muller_ok bm \<and> t \<noteq> -1 \<and> live g"

definition ticks_left :: "u32 \<Rightarrow> game_state \<Rightarrow> nat" where
  "ticks_left t g = unat t - unat (gs_tick g)"

lemma loop_progress:
  assumes "loop_good bm t g" and "\<not> is_complete g" and "gs_tick g < t"
  shows "\<exists>g' events ts. tick_forward_observing_boost bm mo g = Inr ((g', events), ts) \<and>
    loop_good bm t g' \<and> ticks_left t g' < ticks_left t g \<and> clock_trail t g g'"
proof -
  obtain g' events ts where g': "tick_forward_observing_boost bm mo g = Inr ((g', events), ts)" "live g'"
      "gs_tick g < gs_tick g'" "gs_tick g' \<le> t" "timing g' = timing g"
    using live_step [of g bm t mo] assms by (auto simp: loop_good_def)
  moreover have "ticks_left t g' < ticks_left t g"
    using g'(3,4) by (simp add: ticks_left_def word_less_nat_alt word_le_nat_alt)
  ultimately show ?thesis
    using assms(1) by (auto simp: loop_good_def clock_trail_def)
qed

interpretation prediction: stepping_loop "run_state bm mo t" "\<lambda>g. \<not> is_complete g \<and> gs_tick g < t"
  "\<lambda>g. try_then (tick_forward bm mo g) (\<lambda>(g', _). Inr g')" "loop_good bm t" "ticks_left t" "clock_trail t"
  for bm mo t
proof (unfold_locales, goal_cases)
  case (1 s)
  show ?case
    by (subst run_state.simps) (auto simp: try_then_def split: sum.split)
next
  case (2 s)
  then show ?case
    using loop_progress [of bm t s mo] by (auto simp: tick_forward_def)
qed (auto intro: clock_trail_refl clock_trail_trans)

interpretation authority: stepping_loop "\<lambda>(g, out, obs). run_committed bm t g out obs"
  "\<lambda>(g, _). \<not> is_complete g \<and> gs_tick g < t"
  "\<lambda>(g, out, obs). try_then (tick_forward_observing_boost bm False g)
     (\<lambda>((g', events), ts). Inr (g', out @ publish (gs_tick g') events, obs @ ts))"
  "\<lambda>(g, _). loop_good bm t g" "\<lambda>(g, _). ticks_left t g" "\<lambda>(g, _) (g', _). clock_trail t g g'"
  for bm t
proof (unfold_locales, goal_cases)
  case (1 s)
  obtain g out obs where s: "s = (g, out, obs)"
    by (cases s)
  show ?case
    unfolding s prod.case by (subst run_committed.simps) (auto simp: try_then_def split: sum.split)
next
  case (2 s)
  then show ?case
    using loop_progress [of bm t "fst s" False] by (auto simp: case_prod_unfold)
qed (auto intro: clock_trail_refl clock_trail_trans)

lemma run_state_returns:
  assumes "box_muller_ok bm" and "t \<noteq> -1" and "live g"
  shows "\<exists>g'. run_state bm mo t g = Some (Inr g') \<and> live g' \<and> (is_complete g' \<or> t \<le> gs_tick g') \<and> clock_trail t g g'"
  using prediction.loop_returns [of bm t g mo] assms by (auto simp: loop_good_def)

lemma run_committed_returns:
  assumes "box_muller_ok bm" and "t \<noteq> -1" and "live g"
  shows "\<exists>g' out' obs'. run_committed bm t g out obs = Some (Inr (g', out', obs')) \<and> live g' \<and>
    (is_complete g' \<or> t \<le> gs_tick g') \<and> clock_trail t g g'"
  using authority.loop_returns [of bm t "(g, out, obs)"] assms by (auto simp: loop_good_def)

section \<open>The catch-up of a replicated message\<close>

lemma tick_forward_complete: "is_complete g \<Longrightarrow> tick_forward bm mo g = Inr (g, [])"
  by (simp add: tick_forward_def tick_forward_observing_boost_def)

text \<open>A completed state behind the event is a fixed point of the loop body, so the loop spins.\<close>

lemma advance_to_spins:
  assumes "is_complete g" and "gs_tick g < t"
  shows "advance_to bm t g = None"
proof -
  have "\<not> (is_complete g \<and> gs_tick g < t)" if "advance_to bm t g = Some r" for r
    by (rule advance_to.raw_induct [OF _ that]) (auto simp: tick_forward_complete split: if_splits)
  then show ?thesis
    using assms by (cases "advance_to bm t g") auto
qed

lemma advance_to_run_state:
  assumes "run_state bm True t g = Some r"
  shows "advance_to bm t g =
    (case r of Inl err \<Rightarrow> Some (Inl err) | Inr g' \<Rightarrow> if gs_tick g' < t then None else Some (Inr g'))"
proof -
  have "mo \<longrightarrow> advance_to bm t g =
      (case r of Inl err \<Rightarrow> Some (Inl err) | Inr g' \<Rightarrow> if gs_tick g' < t then None else Some (Inr g'))"
    if "run_state bm mo t g = Some r" for mo
  proof (rule run_state.raw_induct [OF _ that], goal_cases)
    case (1 loop bm mo t g r)
    show ?case
    proof (cases "\<not> is_complete g \<and> gs_tick g < t")
      case True
      then show ?thesis
        using 1 by (subst advance_to.simps) (auto split: sum.splits)
    next
      case False
      then show ?thesis
        using 1(2) advance_to_spins [of g t bm] by (auto simp: advance_to.simps [of bm t g])
    qed
  qed
  then show ?thesis
    using assms by blast
qed

lemma advance_to_live:
  assumes "box_muller_ok bm" and "t \<noteq> -1" and "live g"
  shows "\<exists>g'. run_state bm True t g = Some (Inr g') \<and> live g' \<and>
    advance_to bm t g = (if gs_tick g' < t then None else Some (Inr g'))"
  using run_state_returns [OF assms, of True] advance_to_run_state [of bm t g] by fastforce

section \<open>Recovery\<close>

lemma recover_to_run_committed:
  assumes "run_committed bm t g out obs = Some (Inr (g', out', obs'))" and "\<not> gs_tick g' < t"
  shows "recover_to bm t g = Some (Inr g')"
proof -
  have "\<forall>x. r = Inr x \<longrightarrow> \<not> gs_tick (fst x) < t \<longrightarrow> recover_to bm t g = Some (Inr (fst x))"
    if "run_committed bm t g out obs = Some r" for r
  proof (rule run_committed.raw_induct [OF _ that], goal_cases)
    case (1 loop bm t g out obs r)
    then show ?case
      by (subst recover_to.simps) (fastforce simp: tick_forward_def split: if_splits sum.splits prod.splits)
  qed
  from this [OF assms(1)] show ?thesis
    using assms(2) by simp
qed

text \<open>
  What the failed actor did between its checkpoint and the crash: for each accepted command it had
  run its clock to a tick and then processed the command; the decisions are its journal.
\<close>

fun accept_commands ::
  "box_muller \<Rightarrow> (u32 \<times> game_command_message) list \<Rightarrow> game_engine
   \<Rightarrow> (game_engine \<times> (game_command_message \<times> u32) list) option" where
  "accept_commands bm [] en = Some (en, [])"
| "accept_commands bm ((t, m) # ms) en =
     (case run_committed bm t (committed_state en) [] [] of
        Some (Inr (g, _, _)) \<Rightarrow>
          if gs_tick g = t \<and> command_counter en \<noteq> -1 then
            let (en, cmd) = process_command m (en\<lparr>committed_state := g\<rparr>)
            in map_option (\<lambda>(en, journal). (en, (cmd, t) # journal)) (accept_commands bm ms en)
          else None
      | _ \<Rightarrow> None)"

fun replay_commands ::
  "box_muller \<Rightarrow> (game_command_message \<times> u32) list \<Rightarrow> game_engine \<Rightarrow> game_engine result option" where
  "replay_commands bm [] en = Some (Inr en)"
| "replay_commands bm ((m, t) # journal) en =
     (case replay_scheduled_command bm m t en of
        Some (Inr en) \<Rightarrow> replay_commands bm journal en
      | r \<Rightarrow> r)"

lemma run_committed_mono:
  assumes "run_committed bm t g out obs = Some (Inr (g', out', obs'))"
  shows "\<not> gs_tick g < t \<Longrightarrow> g' = g"
  using assms by (subst (asm) run_committed.simps) simp

lemma replay_reproduces_one:
  assumes "run_committed bm t (committed_state en) [] [] = Some (Inr (g, out, obs))"
    and "gs_tick g = t" and "command_counter en \<noteq> -1"
    and "process_command m (en\<lparr>committed_state := g\<rparr>) = (en1, cmd)"
    and "committed_state en' = committed_state en" and "command_counter en' = command_counter en"
  shows "\<exists>en2. replay_scheduled_command bm cmd t en' = Some (Inr en2) \<and>
    committed_state en2 = committed_state en1 \<and> command_counter en2 = command_counter en1"
proof -
  let ?tick = "max (cid_tick (command_id_client m)) t"
  have cmd: "cmd = \<lparr>command_id_client = command_id_client m, command_id_server =
      Some (CommandId ?tick (cid_user_id (command_id_client m)) (command_counter en)), command = command m\<rparr>"
    and en1: "committed_state en1 = schedule_command cmd g" "command_counter en1 = command_counter en + 1"
    using assms(2,4) by (auto simp: process_command_def schedule_everywhere_def Let_def)
  have "gs_tick (committed_state en) \<le> t"
    using run_committed_mono [OF assms(1)] assms(2) by force
  moreover have "recover_to bm t (committed_state en) = Some (Inr g)"
    using recover_to_run_committed [OF assms(1)] assms(2) by simp
  moreover have "checked_add (command_counter en) 1 = Some (command_counter en + 1)"
    using below_max [OF assms(3)] by (simp add: checked_add_def word_le_nat_alt unat_word_ariths)
  ultimately show ?thesis
    using assms(5,6) en1
    by (auto simp: replay_scheduled_command_def cmd Let_def schedule_everywhere_def not_less less_max_iff_disj le_max_iff_disj)
qed

lemma replay_reproduces:
  assumes "accept_commands bm ms en = Some (en1, journal)"
    and "committed_state en' = committed_state en" and "command_counter en' = command_counter en"
  shows "\<exists>en2. replay_commands bm journal en' = Some (Inr en2) \<and>
    committed_state en2 = committed_state en1 \<and> command_counter en2 = command_counter en1"
  using assms
proof (induction ms arbitrary: en en' journal)
  case (Cons tm ms)
  obtain t m where tm: "tm = (t, m)"
    by (cases tm)
  obtain g out obs enm cmd journal' where step: "run_committed bm t (committed_state en) [] [] = Some (Inr (g, out, obs))"
      "gs_tick g = t" "command_counter en \<noteq> -1" "process_command m (en\<lparr>committed_state := g\<rparr>) = (enm, cmd)"
      "accept_commands bm ms enm = Some (en1, journal')" "journal = (cmd, t) # journal'"
    using Cons.prems(1) by (auto simp: tm Let_def split: option.splits sum.splits if_splits prod.splits)
  obtain en2 where en2: "replay_scheduled_command bm cmd t en' = Some (Inr en2)"
      "committed_state en2 = committed_state enm" "command_counter en2 = command_counter enm"
    using replay_reproduces_one [OF step(1-4) Cons.prems(2,3)] by blast
  then show ?case
    using Cons.IH [OF step(5) en2(2,3)] step(6) by simp
qed simp

section \<open>Prediction and the authoritative clock\<close>

definition engine_live :: "game_engine \<Rightarrow> bool" where
  "engine_live en \<longleftrightarrow> live (committed_state en) \<and> pred_option live (predicted_state en)"

text \<open>The tick that the wall clock asks for, and the one the committed state may reach.\<close>

definition wallclock_tick :: "i64 \<Rightarrow> game_engine \<Rightarrow> u32" where
  "wallclock_tick ts en =
     (case simulation_start_ms (committed_state en) of
        None \<Rightarrow> 0
      | Some epoch \<Rightarrow>
          if wrap_i64 (ts - epoch) < 0 then 0
          else word_of_int (wrap_i64 (ts - epoch) div uint (gp_tick_duration_ms (gs_properties (committed_state en)))))"

definition due_tick :: "i64 \<Rightarrow> game_engine \<Rightarrow> u32" where
  "due_tick ts en = sat_sub (wallclock_tick ts en)
     (committed_state_lag_ms en div gp_tick_duration_ms (gs_properties (committed_state en)))"

definition clock_started :: "i64 \<Rightarrow> game_engine \<Rightarrow> bool" where
  "clock_started ts en \<longleftrightarrow>
     (case simulation_start_ms (committed_state en) of
        None \<Rightarrow> False | Some epoch \<Rightarrow> 0 \<le> wrap_i64 (ts - epoch))"

abbreviation (input) tick_length :: "game_engine \<Rightarrow> u32" where
  "tick_length en \<equiv> gp_tick_duration_ms (gs_properties (committed_state en))"

lemma rebuild_waiting:
  "\<not> clock_started ts en \<Longrightarrow>
   rebuild_predicted_state bm ts en = Some (if prediction_needs_rebuild en then anchor_prediction en else en, Inr ())"
  by (auto simp: rebuild_predicted_state_def clock_started_def Let_def split: option.splits)

lemma rebuild_running:
  assumes "clock_started ts en" and "tick_length en \<noteq> 0" and "target = min (wallclock_tick ts en) (max_predicted_tick en)"
  shows "rebuild_predicted_state bm ts en =
    (if is_complete (committed_state en) then Some (anchor_prediction en, Inr ())
     else if prediction_needs_rebuild en \<or>
             (case predicted_state en of None \<Rightarrow> True | Some p \<Rightarrow> target > gs_tick p) then
       case run_state bm False target (replay_speculation en) of
         None \<Rightarrow> None
       | Some (Inl err) \<Rightarrow> Some (en, Inl err)
       | Some (Inr p) \<Rightarrow> Some (en\<lparr>predicted_state := Some p, prediction_needs_rebuild := False\<rparr>, Inr ())
     else Some (en, Inr ()))"
proof (cases "simulation_start_ms (committed_state en)")
  case (Some epoch)
  then have "\<not> wrap_i64 (ts - epoch) < 0"
    using assms(1) by (simp add: clock_started_def)
  note started = this
  then have "wallclock_tick ts en = word_of_int (wrap_i64 (ts - epoch) div uint (tick_length en))"
    by (simp add: wallclock_tick_def Some)
  note clock = this [symmetric]
  show ?thesis
    unfolding rebuild_predicted_state_def Let_def Some option.case clock assms(3)
    using started assms(2) by simp
qed (use assms in \<open>simp add: clock_started_def\<close>)

lemma min_not_max: "a \<noteq> (-1 :: u32) \<Longrightarrow> min a b \<noteq> -1"
  by (metis min.absorb1 min.strict_order_iff min_def word_order.extremum word_order.not_eq_extremum)

lemma not_max_le: "a \<le> b \<Longrightarrow> b \<noteq> (-1 :: u32) \<Longrightarrow> a \<noteq> -1"
  using word_order.extremum_unique by blast

lemma anchored_live: "live (committed_state en) \<Longrightarrow> engine_live (anchor_prediction en)"
  by (simp add: engine_live_def anchor_prediction_def live_without_rng)

text \<open>When a rebuild is due, and the tick it aims for.\<close>

definition rebuild_due :: "i64 \<Rightarrow> game_engine \<Rightarrow> bool" where
  "rebuild_due ts en \<longleftrightarrow> prediction_needs_rebuild en \<or>
     clock_started ts en \<and> (is_complete (committed_state en) \<or> predicted_state en = None \<or>
       get_predicted_tick en < min (wallclock_tick ts en) (max_predicted_tick en))"

definition prediction_target :: "i64 \<Rightarrow> game_engine \<Rightarrow> u32" where
  "prediction_target ts en =
     (if clock_started ts en \<and> \<not> is_complete (committed_state en)
      then max (gs_tick (committed_state en)) (min (wallclock_tick ts en) (max_predicted_tick en))
      else gs_tick (committed_state en))"

definition in_window :: "game_engine \<Rightarrow> bool" where
  "in_window en \<longleftrightarrow> get_predicted_tick en \<le> max (gs_tick (committed_state en)) (max_predicted_tick en)"

lemma target_in_window: "prediction_target ts en \<le> max (gs_tick (committed_state en)) (max_predicted_tick en)"
  by (auto simp: prediction_target_def max_def min_def)

lemma replay_speculation_tick: "gs_tick (replay_speculation en) = gs_tick (committed_state en)"
proof -
  have "gs_tick (foldl (\<lambda>g m. schedule_command m g) g ms) = gs_tick g" for g ms
    by (induction ms arbitrary: g)
      (simp_all add: schedule_command_def record_player_activity_for_command_def Let_def split: option.split)
  then show ?thesis
    by (simp add: replay_speculation_def without_rng_def)
qed

definition rebuilt :: "i64 \<Rightarrow> game_engine \<Rightarrow> game_state \<Rightarrow> bool" where
  "rebuilt ts en p \<longleftrightarrow> gs_tick (committed_state en) \<le> gs_tick p \<and> gs_tick p \<le> prediction_target ts en \<and>
     (is_complete p \<or> gs_tick p = prediction_target ts en)"

lemma anchored: "rebuilt ts en (without_rng (committed_state en))"
  if "\<not> clock_started ts en \<or> is_complete (committed_state en)"
  using that by (auto simp: rebuilt_def prediction_target_def without_rng_def)

lemma rebuild_outcome:
  assumes "box_muller_ok bm" and "engine_live en"
    and "tick_length en \<noteq> 0" and "wallclock_tick ts en \<noteq> -1"
  shows "if rebuild_due ts en
    then \<exists>p. rebuild_predicted_state bm ts en =
        Some (en\<lparr>predicted_state := Some p, prediction_needs_rebuild := False\<rparr>, Inr ()) \<and> live p \<and> rebuilt ts en p
    else rebuild_predicted_state bm ts en = Some (en, Inr ())"
proof (cases "clock_started ts en \<and> \<not> is_complete (committed_state en)")
  case True
  let ?target = "min (wallclock_tick ts en) (max_predicted_tick en)"
  have "live (replay_speculation en)"
    using assms(2) by (simp add: engine_live_def live_replay)
  then obtain p where p: "run_state bm False ?target (replay_speculation en) = Some (Inr p)" "live p"
      "is_complete p \<or> ?target \<le> gs_tick p" "clock_trail ?target (replay_speculation en) p"
    using run_state_returns [OF assms(1) min_not_max [OF assms(4)]] by blast
  have "a \<le> t \<Longrightarrow> b \<le> t \<Longrightarrow> t \<le> max a b \<Longrightarrow> t = max a b" for a b t :: u32
    by (rule antisym) simp_all
  then have "rebuilt ts en p"
    using p(3,4) True by (auto simp: rebuilt_def prediction_target_def clock_trail_def replay_speculation_tick)
  moreover have due: "prediction_needs_rebuild en \<or>
      (case predicted_state en of None \<Rightarrow> True | Some p \<Rightarrow> ?target > gs_tick p) \<longleftrightarrow> rebuild_due ts en"
    using True by (auto simp: rebuild_due_def get_predicted_tick_def split: option.split)
  have "rebuild_predicted_state bm ts en = Some (if rebuild_due ts en
      then en\<lparr>predicted_state := Some p, prediction_needs_rebuild := False\<rparr> else en, Inr ())"
    using True p(1) unfolding rebuild_running [OF conjunct1 [OF True] assms(3) refl] due by simp
  ultimately show ?thesis
    using p(2) by (auto intro!: exI [of _ p])
next
  case False
  have "live (without_rng (committed_state en))"
    using assms(2) by (simp add: engine_live_def live_without_rng)
  moreover have "rebuild_predicted_state bm ts en =
      Some (if rebuild_due ts en then anchor_prediction en else en, Inr ())"
    using False rebuild_waiting [of ts en bm] rebuild_running [OF _ assms(3) refl, of ts bm]
    by (cases "clock_started ts en") (auto simp: rebuild_due_def)
  ultimately show ?thesis
    using anchored [of ts en] False by (auto simp: anchor_prediction_def)
qed

lemma rebuild_returns:
  assumes "box_muller_ok bm" and "engine_live en"
    and "tick_length en \<noteq> 0" and "wallclock_tick ts en \<noteq> -1"
  shows "\<exists>en'. rebuild_predicted_state bm ts en = Some (en', Inr ()) \<and> engine_live en' \<and>
    committed_state en' = committed_state en \<and> \<not> (prediction_needs_rebuild en' \<and> prediction_needs_rebuild en) \<and>
    (predicted_state en \<noteq> None \<longrightarrow> predicted_state en' \<noteq> None)"
  using rebuild_outcome [OF assms] assms(2) by (auto simp: engine_live_def rebuild_due_def split: if_splits)

lemma rebuilt_in_window:
  "rebuilt ts en p \<Longrightarrow> in_window (en\<lparr>predicted_state := Some p, prediction_needs_rebuild := b\<rparr>)"
  using target_in_window [of ts en]
  by (auto simp: rebuilt_def in_window_def get_predicted_tick_def max_predicted_tick_def)

lemma run_until_waiting:
  "\<not> clock_started ts en \<Longrightarrow> run_until_observing_boost bm ts en = Some (Inr (en, [], []))"
  by (auto simp: run_until_observing_boost_def clock_started_def Let_def split: option.splits)

lemma run_until_running:
  assumes "clock_started ts en" and "tick_length en \<noteq> 0"
    and "run_committed bm (due_tick ts en) (committed_state en) [] [] = Some (Inr (g, out, obs))"
    and "en1 = en\<lparr>committed_state := g\<rparr>"
    and "(if prediction_needs_rebuild en1 then rebuild_predicted_state bm ts en1 else Some (en1, Inr ())) = Some (en2, Inr ())"
    and "predicted_state en2 = Some p"
    and "run_state bm True (min (wallclock_tick ts en) (max_predicted_tick en2)) p = Some (Inr p')"
  shows "run_until_observing_boost bm ts en = Some (Inr (en2\<lparr>predicted_state := Some p'\<rparr>, out, obs))"
proof (cases "simulation_start_ms (committed_state en)")
  case (Some epoch)
  then have started: "\<not> wrap_i64 (ts - epoch) < 0"
    using assms(1) by (simp add: clock_started_def)
  then have "wallclock_tick ts en = word_of_int (wrap_i64 (ts - epoch) div uint (tick_length en))"
    by (simp add: wallclock_tick_def Some)
  note clock = this [symmetric]
  show ?thesis
    unfolding run_until_observing_boost_def Let_def Some option.case clock due_tick_def [symmetric]
      assms(3) sum.case prod.case assms(4) [symmetric] assms(5)
    using started assms(2,6,7) by simp
qed (use assms in \<open>simp add: clock_started_def\<close>)

text \<open>
  The clock call of a live engine returns without an error, and afterwards the committed state has reached the tick
  that is due (or the match is over).
\<close>

lemma run_until_returns:
  assumes "box_muller_ok bm" and "engine_live en" and "predicted_state en \<noteq> None"
    and "tick_length en \<noteq> 0" and "wallclock_tick ts en \<noteq> -1"
  shows "\<exists>en' out obs. run_until_observing_boost bm ts en = Some (Inr (en', out, obs)) \<and> engine_live en' \<and>
    (clock_started ts en \<longrightarrow> is_complete (committed_state en') \<or>
       gs_tick (committed_state en') = max (gs_tick (committed_state en)) (due_tick ts en))"
proof (cases "clock_started ts en")
  case True
  have due: "due_tick ts en \<noteq> -1"
    unfolding due_tick_def by (rule not_max_le [OF sat_sub_le assms(5)])
  obtain g out obs where g: "run_committed bm (due_tick ts en) (committed_state en) [] [] = Some (Inr (g, out, obs))"
      "live g" "is_complete g \<or> due_tick ts en \<le> gs_tick g" "clock_trail (due_tick ts en) (committed_state en) g"
    using run_committed_returns [OF assms(1) due] assms(2) unfolding engine_live_def by blast
  define en1 where "en1 = en\<lparr>committed_state := g\<rparr>"
  have timing: "timing g = timing (committed_state en)"
    using g(4) by (simp add: clock_trail_def)
  then have "simulation_start_ms g = simulation_start_ms (committed_state en)"
    by (simp add: timing_def simulation_start_ms_def split: option.split)
  then have same: "wallclock_tick ts en1 = wallclock_tick ts en" "tick_length en1 = tick_length en"
    using timing by (simp_all add: en1_def wallclock_tick_def timing_def split: option.split)
  have "engine_live en1"
    using assms(2) g(2) by (simp add: en1_def engine_live_def)
  obtain en2 where en2: "(if prediction_needs_rebuild en1 then rebuild_predicted_state bm ts en1
        else Some (en1, Inr ())) = Some (en2, Inr ())" "engine_live en2" "committed_state en2 = g"
      "predicted_state en2 \<noteq> None"
  proof (cases "prediction_needs_rebuild en1")
    case True
    then show ?thesis
      using rebuild_returns [OF assms(1) \<open>engine_live en1\<close>, of ts] same assms(3-5) that
      by (fastforce simp: en1_def)
  next
    case False
    then show ?thesis
      using that [of en1] \<open>engine_live en1\<close> assms(3) by (simp add: en1_def)
  qed
  then obtain p where p: "predicted_state en2 = Some p" "live p"
    by (auto simp: engine_live_def)
  obtain p' where p': "run_state bm True (min (wallclock_tick ts en) (max_predicted_tick en2)) p = Some (Inr p')" "live p'"
    using run_state_returns [OF assms(1) min_not_max [OF assms(5)] p(2)] by blast
  have "gs_tick g = max (gs_tick (committed_state en)) (due_tick ts en)" if "\<not> is_complete g"
    using that g(3,4) by (auto simp: clock_trail_def max_def split: if_splits)
  then show ?thesis
    using run_until_running [OF True assms(4) g(1) en1_def en2(1) p(1) p'(1)] en2(2,3) p'(2)
    by (auto simp: engine_live_def)
qed (use assms run_until_waiting in auto)

section \<open>Messages of the server\<close>

abbreviation (input) is_snapshot :: "game_event \<Rightarrow> bool" where
  "is_snapshot e \<equiv> (case e of Snapshot _ \<Rightarrow> True | _ \<Rightarrow> False)"

lemma sound_kept:
  "sound (g\<lparr>gs_last_death_causes := a\<rparr>) = sound g" "sound (g\<lparr>gs_idle_kicked_user_ids := b\<rparr>) = sound g"
  "sound (g\<lparr>gs_arena := (gs_arena g)\<lparr>ar_food := food\<rparr>\<rparr>) = sound g"
  "sound (g\<lparr>gs_arena := (gs_arena g)\<lparr>ar_boost_pads := pads\<rparr>\<rparr>) = sound g"
  "sound (g\<lparr>gs_scores := c, gs_food_pickups := d\<rparr>) = sound g" "sound (g\<lparr>gs_scores := c\<rparr>) = sound g"
  "sound (g\<lparr>gs_command_queue := q\<rparr>) = sound g" "sound (g\<lparr>gs_player_last_activity_ticks := l\<rparr>) = sound g"
  "sound (g\<lparr>gs_status := st\<rparr>) = sound g" "sound (g\<lparr>gs_team_scores := ts\<rparr>) = sound g"
  "sound (g\<lparr>gs_readiness := r\<rparr>) = sound g" "sound (g\<lparr>gs_readiness := r, gs_simulation_epoch_ms := e\<rparr>) = sound g"
  "sound (g\<lparr>gs_player_xp := xp\<rparr>) = sound g"
  by (rule sound_cong, simp add: sound_view_def)+

lemma sound_discard: "sound (discard_commands i g) = sound g"
  by (simp add: discard_commands_def sound_kept)

lemma sound_update_snake:
  assumes "sound g" and "\<And>s. sn_body s \<noteq> [] \<Longrightarrow> sn_body (f s) \<noteq> []"
  shows "sound (update_snake i f g)"
proof -
  have bodies: "\<forall>s \<in> set (ar_snakes (gs_arena g)). sn_body s \<noteq> []"
    using assms(1) by (simp add: sound_def)
  then have "\<forall>s \<in> set (upd_at (unat i) f (ar_snakes (gs_arena g))). sn_body s \<noteq> []"
    using assms(2) by (rule list_all_upd_at)
  then have "sound_view (update_snake i f g) = sound_view g"
    using bodies by (simp add: sound_view_def update_snake_def)
  then show ?thesis
    using sound_cong assms(1) by blast
qed

lemma sound_queue_command: "sound (queue_command m g) = sound g"
  by (simp add: queue_command_def record_player_activity_for_command_def sound_kept Let_def split: option.split)

lemma apply_event_sound: "\<not> is_snapshot e \<Longrightarrow> sound g \<Longrightarrow> sound (apply_event e g)"
  by (cases e)
    (auto simp: sound_kept sound_discard sound_queue_command kill_snake_def reset_combo_def reset_boost_and_movement_def
      apply_food_eaten_def remove_food_def apply_packet_collected_def Let_def
      intro!: sound_update_snake split: option.split)

lemma try_apply_simulable:
  assumes "try_apply_replicated_event e g = (g', Inr ())" and "\<not> is_snapshot e" and "sound g"
  shows "simulable g'"
  using assms apply_event_sound [OF assms(2,3)] validate_admitted [of g']
  by (auto simp: try_apply_replicated_event_def simulable_sound Let_def split: sum.splits)

lemma live_sound: "live g \<Longrightarrow> sound g"
  by (auto simp: live_def simulable_sound ended_idle_def)

text \<open>The three ways in which a message can come out.\<close>

lemma server_event_cases:
  assumes "process_server_event bm m en = Some (en', r)"
  obtains
    (refused) err s where "r = Inl err" "en' = request_resync (en\<lparr>engine_sync := s\<rparr>)"
  | (stale) "r = Inr ()" "account_stream (is_snapshot (em_event m)) (em_stream_seq m) (engine_sync en) = None"
      "en' = with_sync (\<lambda>s. s\<lparr>stale_messages_skipped := stale_messages_skipped s + 1\<rparr>) en"
  | (applied) "r = Inr ()"
      "advance_and_apply_replicated_message bm (committed_state en) m = Some (Inr (committed_state en'))"
proof -
  have settle: "committed_state (settle_commands e x) = committed_state x" for e x
    by (induction e x rule: settle_commands.induct)
      (simp_all add: forget_speculative_def request_resync_def with_sync_def Let_def)
  show ?thesis
  proof (cases "check_snapshot m")
    case (Inl err)
    then show ?thesis
      using assms refused [of err "engine_sync en"] by (simp add: process_server_event_def)
  next
    case (Inr u)
    then show ?thesis
      using assms that unfolding process_server_event_def
      by (auto simp: Let_def settle with_sync_def simp del: settle_commands.simps
          split: sum.splits option.splits game_event.splits)
  qed
qed

lemma message_keeps_live:
  assumes "process_server_event bm m en = Some (en', r)" and "\<not> is_snapshot (em_event m)"
    and "box_muller_ok bm" and "em_tick m \<noteq> -1" and "live (committed_state en)"
  shows "live (committed_state en')"
  using assms(1)
proof (cases rule: server_event_cases)
  case applied
  have check: "check_snapshot m = Inr ()"
    using assms(2) by (simp add: check_snapshot_def split: game_event.splits)
  obtain g' where g': "live g'" "advance_to bm (em_tick m) (committed_state en) =
      (if gs_tick g' < em_tick m then None else Some (Inr g'))"
    using advance_to_live [OF assms(3-5)] by blast
  show ?thesis
  proof (cases "\<exists>a b. em_event m = TickHash a b")
    case True
    then show ?thesis
      using applied(2) check g' by (auto simp: advance_and_apply_replicated_message_def split: if_splits)
  next
    case False
    then have "try_apply_replicated_event (em_event m) g' = (committed_state en', Inr ())"
      using applied(2) check g'(2) assms(2) unfolding advance_and_apply_replicated_message_def
      by (auto split: if_splits game_event.splits prod.splits sum.splits)
    then show ?thesis
      using try_apply_simulable [OF _ assms(2) live_sound [OF g'(1)]] by (auto simp: live_def)
  qed
qed (use assms(5) in \<open>simp_all add: request_resync_def with_sync_def\<close>)

lemma message_spins_iff:
  assumes "\<not> is_snapshot (em_event m)" and "account_stream False (em_stream_seq m) (engine_sync en) \<noteq> None"
    and "box_muller_ok bm" and "em_tick m \<noteq> -1" and "live (committed_state en)"
  shows "process_server_event bm m en = None \<longleftrightarrow>
    (\<exists>g'. run_state bm True (em_tick m) (committed_state en) = Some (Inr g') \<and> is_complete g' \<and> gs_tick g' < em_tick m)"
proof -
  have check: "check_snapshot m = Inr ()"
    using assms(1) by (simp add: check_snapshot_def split: game_event.splits)
  obtain g' where g': "run_state bm True (em_tick m) (committed_state en) = Some (Inr g')"
      "is_complete g' \<or> em_tick m \<le> gs_tick g'" "advance_to bm (em_tick m) (committed_state en) =
      (if gs_tick g' < em_tick m then None else Some (Inr g'))"
    using run_state_returns [OF assms(3-5), of True] advance_to_run_state [of bm "em_tick m" "committed_state en"]
    by fastforce
  have "advance_and_apply_replicated_message bm (committed_state en) m = None \<longleftrightarrow> gs_tick g' < em_tick m"
    using assms(1) check g'(3) unfolding advance_and_apply_replicated_message_def
    by (auto split: game_event.splits prod.splits sum.splits)
  moreover have "process_server_event bm m en = None \<longleftrightarrow>
      advance_and_apply_replicated_message bm (committed_state en) m = None"
    using assms(1,2) check unfolding process_server_event_def
    by (auto simp: Let_def split: option.splits sum.splits game_event.splits)
  ultimately show ?thesis
    using g'(1,2) by auto
qed

lemma account_stream_watermark:
  "account_stream False n s = Some s' \<Longrightarrow> n \<noteq> 0 \<Longrightarrow> last_stream_seq s' = n"
  by (auto simp: account_stream_def Let_def split: if_splits)

lemma account_stream_repeat: "last_stream_seq s = n \<Longrightarrow> n \<noteq> 0 \<Longrightarrow> account_stream False n s = None"
  by (simp add: account_stream_def Let_def)

lemma settle_keeps_watermark: "last_stream_seq (engine_sync (settle_commands e en)) = last_stream_seq (engine_sync en)"
  by (induction e en rule: settle_commands.induct)
    (simp_all add: forget_speculative_def request_resync_def with_sync_def Let_def)

lemma processed_watermark:
  assumes "process_server_event bm m en = Some (en', r)" and "\<not> is_snapshot (em_event m)"
    and "em_stream_seq m \<noteq> 0" and "account_stream False (em_stream_seq m) (engine_sync en) = Some s"
  shows "last_stream_seq (engine_sync en') = em_stream_seq m"
proof -
  have check: "check_snapshot m = Inr ()"
    using assms(2) by (simp add: check_snapshot_def split: game_event.splits)
  have mark: "last_stream_seq (observe_tick t s) = em_stream_seq m" for t
    using account_stream_watermark [OF assms(4,3)] by (simp add: observe_tick_def)
  then show ?thesis
    using assms(1,2,4) check unfolding process_server_event_def
    by (auto simp: Let_def request_resync_def with_sync_def probe_def settle_keeps_watermark simp del: settle_commands.simps
        split: sum.splits option.splits game_event.splits if_splits)
qed

lemma stale_event:
  assumes "account_stream False (em_stream_seq m) (engine_sync en) = None" and "\<not> is_snapshot (em_event m)"
  shows "process_server_event bm m en =
    Some (with_sync (\<lambda>s. s\<lparr>stale_messages_skipped := stale_messages_skipped s + 1\<rparr>) en, Inr ())"
proof -
  have "check_snapshot m = Inr ()"
    using assms(2) by (simp add: check_snapshot_def split: game_event.splits)
  then show ?thesis
    using assms by (simp add: process_server_event_def Let_def split: game_event.splits)
qed

lemma redelivery_is_stale:
  assumes "process_server_event bm m en = Some (en', r)" and "\<not> is_snapshot (em_event m)" and "em_stream_seq m \<noteq> 0"
  shows "process_server_event bm m en' =
    Some (with_sync (\<lambda>s. s\<lparr>stale_messages_skipped := stale_messages_skipped s + 1\<rparr>) en', Inr ())"
proof (rule stale_event [OF _ assms(2)])
  show "account_stream False (em_stream_seq m) (engine_sync en') = None"
  proof (cases "account_stream False (em_stream_seq m) (engine_sync en)")
    case None
    then have "engine_sync en' = (engine_sync en)\<lparr>stale_messages_skipped := stale_messages_skipped (engine_sync en) + 1\<rparr>"
      using assms(1) stale_event [OF None assms(2), of bm] by (auto simp: with_sync_def)
    then show ?thesis
      using None by (simp add: account_stream_def Let_def split: if_splits)
  next
    case (Some s)
    then show ?thesis
      using account_stream_repeat [OF processed_watermark [OF assms Some] assms(3)] by simp
  qed
qed

end
