(* ===== verification/Computer_Player.thy ===== *)
theory Computer_Player
  imports Snake_Geometry Spawning Validate
begin

text \<open>
  The built-in opponent, \<^verbatim>\<open>common/src/ai.rs\<close>: breadth-first search for a target, one step of
  look-ahead, and the decision to bank carried points. Scores are i32; with u16 distances they stay
  far inside that range, so they are \<open>int\<close> here. The breadth-first search is proved to find a
  nearest target.
\<close>

section \<open>Geometry of the search\<close>

definition is_ai_player :: "u32 \<Rightarrow> bool" where
  "is_ai_player user_id \<longleftrightarrow> user_id \<ge> -1 - 10"

definition get_new_position :: "position \<Rightarrow> direction \<Rightarrow> position" where
  "get_new_position p d =
     (case d of
        Up \<Rightarrow> \<lparr>px = px p, py = wrap_i16 (py p - 1)\<rparr>
      | Down \<Rightarrow> \<lparr>px = px p, py = wrap_i16 (py p + 1)\<rparr>
      | Left \<Rightarrow> \<lparr>px = wrap_i16 (px p - 1), py = py p\<rparr>
      | Right \<Rightarrow> \<lparr>px = wrap_i16 (px p + 1), py = py p\<rparr>)"

definition is_within_bounds :: "position \<Rightarrow> i16 \<Rightarrow> i16 \<Rightarrow> bool" where
  "is_within_bounds p width height \<longleftrightarrow> px p \<ge> 0 \<and> px p < width \<and> py p \<ge> 0 \<and> py p < height"

definition would_collide_with_snake :: "game_state \<Rightarrow> position \<Rightarrow> bool" where
  "would_collide_with_snake g p = list_ex (\<lambda>s. sn_alive s \<and> contains_point s p False) (ar_snakes (gs_arena g))"

definition manhattan_distance :: "position \<Rightarrow> position \<Rightarrow> u16" where
  "manhattan_distance p1 p2 =
     word_of_int (wrap_i16 (wrap_i16 \<bar>wrap_i16 (px p1 - px p2)\<bar> + wrap_i16 \<bar>wrap_i16 (py p1 - py p2)\<bar>))"

abbreviation (input) all_directions :: "direction list" where
  "all_directions \<equiv> [Up, Down, Left, Right]"

section \<open>Breadth-first search\<close>

text \<open>The neighbours of one cell are marked and queued in the order of the directions.\<close>

fun push_neighbours ::
  "i16 \<Rightarrow> i16 \<Rightarrow> position list \<Rightarrow> position set \<times> position list \<Rightarrow> position set \<times> position list" where
  "push_neighbours width height [] st = st"
| "push_neighbours width height (p # ps) (visited, queue) =
     push_neighbours width height ps
       (if is_within_bounds p width height \<and> p \<notin> visited then (insert p visited, queue @ [p]) else (visited, queue))"

definition cells :: "i16 \<Rightarrow> i16 \<Rightarrow> position set" where
  "cells width height = {p. is_within_bounds p width height}"

lemma finite_cells: "finite (cells width height)"
proof -
  have "cells width height \<subseteq> (\<lambda>(x, y). \<lparr>px = x, py = y\<rparr>) ` ({0..<width} \<times> {0..<height})"
  proof
    fix p :: position
    assume "p \<in> cells width height"
    then show "p \<in> (\<lambda>(x, y). \<lparr>px = x, py = y\<rparr>) ` ({0..<width} \<times> {0..<height})"
      by (intro image_eqI [of _ _ "(px p, py p)"]) (simp_all add: cells_def is_within_bounds_def)
  qed
  then show ?thesis
    by (rule finite_subset) simp
qed

lemma push_neighbours_shape:
  "push_neighbours w h ps (v, q) = (v', q') \<Longrightarrow>
   \<exists>new. q' = q @ new \<and> distinct new \<and> set new = {p \<in> set ps. is_within_bounds p w h \<and> p \<notin> v} \<and> v' = v \<union> set new"
proof (induction ps arbitrary: v q)
  case (Cons p ps)
  show ?case
  proof (cases "is_within_bounds p w h \<and> p \<notin> v")
    case True
    then have "push_neighbours w h ps (insert p v, q @ [p]) = (v', q')"
      using Cons.prems by simp
    then obtain new where "q' = (q @ [p]) @ new" "distinct new"
        "set new = {x \<in> set ps. is_within_bounds x w h \<and> x \<notin> insert p v}" "v' = insert p v \<union> set new"
      using Cons.IH by blast
    then show ?thesis
      using True by (intro exI [of _ "p # new"]) auto
  next
    case False
    then have "push_neighbours w h ps (v, q) = (v', q')"
      using Cons.prems by auto
    then obtain new where "q' = q @ new" "distinct new"
        "set new = {x \<in> set ps. is_within_bounds x w h \<and> x \<notin> v}" "v' = v \<union> set new"
      using Cons.IH by blast
    then show ?thesis
      using False by (intro exI [of _ new]) auto
  qed
qed simp

function bfs :: "(position \<Rightarrow> bool) \<Rightarrow> i16 \<Rightarrow> i16 \<Rightarrow> position set \<Rightarrow> position list \<Rightarrow> position option" where
  "bfs goal width height visited [] = None"
| "bfs goal width height visited (p # queue) =
     (if goal p then Some p
      else
        let (visited', queue') =
          push_neighbours width height (map (get_new_position p) all_directions) (visited, queue)
        in bfs goal width height visited' queue')"
  by pat_completeness auto

termination
proof (relation "measures [\<lambda>(goal, w, h, v, q). card (cells w h - v), \<lambda>(goal, w, h, v, q). length q]", goal_cases)
  case (2 goal w h v p q st v' q')
  then obtain new where new: "q' = q @ new" "set new \<subseteq> cells w h - v" "v' = v \<union> set new"
    using push_neighbours_shape [of w h "map (get_new_position p) all_directions" v q v' q'] by (auto simp: cells_def)
  show ?case
  proof (cases new)
    case Nil
    then show ?thesis
      using new by simp
  next
    case (Cons n ns)
    then have "cells w h - v' \<subset> cells w h - v"
      using new by auto
    then show ?thesis
      using psubset_card_mono [OF finite_Diff [OF finite_cells]] by simp
  qed
qed simp

definition find_nearest_food :: "game_state \<Rightarrow> position \<Rightarrow> i16 \<Rightarrow> i16 \<Rightarrow> position option" where
  "find_nearest_food g start width height =
     (if ar_food (gs_arena g) = [] then Some \<lparr>px = div_i16 width 2, py = div_i16 height 2\<rparr>
      else case bfs (\<lambda>p. p \<in> set (ar_food (gs_arena g))) width height {start} [start] of
        Some p \<Rightarrow> Some p
      | None \<Rightarrow> Some (hd (ar_food (gs_arena g))))"

definition find_path_to_base :: "game_state \<Rightarrow> position \<Rightarrow> team_id \<Rightarrow> i16 \<Rightarrow> i16 \<Rightarrow> position option" where
  "find_path_to_base g start team width height =
     (case goal_bounds (gs_arena g) team of
        None \<Rightarrow> None
      | Some (goal_x, goal_y_start, goal_y_end) \<Rightarrow>
        case bfs (\<lambda>p. px p = goal_x \<and> py p \<ge> goal_y_start \<and> py p \<le> goal_y_end) width height {start} [start] of
          Some p \<Rightarrow> Some p
        | None \<Rightarrow> Some \<lparr>px = goal_x, py = div_i16 (wrap_i16 (goal_y_start + goal_y_end)) 2\<rparr>)"

section \<open>Choosing a move\<close>

definition count_escape_routes :: "game_state \<Rightarrow> position \<Rightarrow> i16 \<Rightarrow> i16 \<Rightarrow> nat" where
  "count_escape_routes g p width height =
     length (filter (\<lambda>d. let q = get_new_position p d
        in is_within_bounds q width height \<and> \<not> would_collide_with_snake g q) all_directions)"

abbreviation (input) MATCH_POINT_MARGIN :: u32 where "MATCH_POINT_MARGIN \<equiv> 3"

definition best_opponent :: "(team_id, u32) hash_map \<Rightarrow> team_id \<Rightarrow> u32" where
  "best_opponent scores team = foldl max 0 (map snd (filter (\<lambda>(other, _). other \<noteq> team) scores))"

definition score_race_pressure :: "game_state \<Rightarrow> team_id \<Rightarrow> u32 \<Rightarrow> int" where
  "score_race_pressure g team carried_points =
     (case (gp_score_limit (gs_properties g), gs_team_scores g) of
        (Some score_limit, Some team_scores) \<Rightarrow>
          if hm_get_or team_scores team 0 + carried_points \<ge> score_limit then 100
          else if best_opponent team_scores team + MATCH_POINT_MARGIN \<ge> score_limit then 100
          else 0
      | _ \<Rightarrow> 0)"

text \<open>The casts to i32 and their difference wrap.\<close>

definition i32_of_u32 :: "u32 \<Rightarrow> int" where
  "i32_of_u32 w = sint w"

definition get_score_differential :: "game_state \<Rightarrow> team_id \<Rightarrow> int" where
  "get_score_differential g team =
     (case gs_team_scores g of
        Some scores \<Rightarrow>
          i32_of_u32 (hm_get_or scores team 0 - hm_get_or scores (if team = 0 then 1 else 0) 0)
      | None \<Rightarrow> 0)"

definition should_return_to_base :: "game_state \<Rightarrow> snake \<Rightarrow> team_id \<Rightarrow> bool" where
  "should_return_to_base g s team =
     (let carried_points = carried_food g s in
      if carried_points = 0 then False
      else if (case head s of Inr h \<Rightarrow> is_in_team_base (gs_arena g) h team | Inl _ \<Rightarrow> False) then False
      else
        let race_pressure_score = score_race_pressure g team carried_points;
            score_differential_bonus = (if get_score_differential g team < -10 then -20 else 0)
        in i32_of_u32 (carried_points * 10 + word_of_int (race_pressure_score + score_differential_bonus)) \<ge> 40)"

definition move_target :: "game_state \<Rightarrow> snake \<Rightarrow> position \<Rightarrow> i16 \<Rightarrow> i16 \<Rightarrow> position option" where
  "move_target g s h width height =
     (case sn_team s of
        Some team \<Rightarrow>
          if is_team_match (gs_game_type g) \<and> should_return_to_base g s team
          then find_path_to_base g h team width height
          else find_nearest_food g h width height
      | None \<Rightarrow> find_nearest_food g h width height)"

text \<open>The score of one direction; \<open>None\<close> is a \<open>continue\<close>.\<close>

definition direction_score :: "game_state \<Rightarrow> position \<Rightarrow> position \<Rightarrow> i16 \<Rightarrow> i16 \<Rightarrow> direction \<Rightarrow> int option" where
  "direction_score g h target width height d =
     (let new_pos = get_new_position h d in
      if \<not> is_within_bounds new_pos width height then None
      else if would_collide_with_snake g new_pos then None
      else
        let centre = \<lparr>px = div_i16 width 2, py = div_i16 height 2\<rparr>;
            score = - (uint (manhattan_distance new_pos target) * 10) - uint (manhattan_distance new_pos centre);
            escape_routes = count_escape_routes g new_pos width height
        in if escape_routes = 0 then None else Some (score + int escape_routes * 5))"

definition best_step :: "(direction \<Rightarrow> int option) \<Rightarrow> (direction \<times> int) option \<Rightarrow> direction \<Rightarrow> (direction \<times> int) option" where
  "best_step score best d =
     (case score d of
        None \<Rightarrow> best
      | Some n \<Rightarrow>
          (case best of Some (_, m) \<Rightarrow> if n > m then Some (d, n) else best | None \<Rightarrow> Some (d, n)))"

definition possible_directions :: "direction \<Rightarrow> direction list" where
  "possible_directions current_direction = filter (\<lambda>d. \<not> is_opposite current_direction d) all_directions"

definition calculate_ai_move :: "game_state \<Rightarrow> u32 \<Rightarrow> direction \<Rightarrow> direction option" where
  "calculate_ai_move g i current_direction =
     (case snake_at g i of
        None \<Rightarrow> None
      | Some s \<Rightarrow>
        if \<not> sn_alive s then None
        else case head s of
          Inl _ \<Rightarrow> None
        | Inr h \<Rightarrow>
          let width = i16_of_u16 (ar_width (gs_arena g));
              height = i16_of_u16 (ar_height (gs_arena g))
          in case move_target g s h width height of
            None \<Rightarrow> None
          | Some target \<Rightarrow>
              (case foldl (best_step (direction_score g h target width height)) None (possible_directions current_direction) of
                 None \<Rightarrow> Some current_direction
               | Some (d, _) \<Rightarrow> Some d))"

definition calculate_ai_command :: "game_state \<Rightarrow> u32 \<Rightarrow> game_command option" where
  "calculate_ai_command g i =
     (case snake_at g i of
        None \<Rightarrow> None
      | Some s \<Rightarrow>
          if \<not> sn_alive s then None
          else if gp_boost (gs_properties g) \<noteq> None \<and> charge_ms (sn_boost s) > 0 \<and> \<not> boost_on (sn_boost s)
          then Some (ActivateBoost i)
          else Some (Turn i (case calculate_ai_move g i (sn_direction s) of Some d \<Rightarrow> d | None \<Rightarrow> sn_direction s)))"

section \<open>The search finds a nearest target\<close>

definition steps_between :: "position \<Rightarrow> position \<Rightarrow> int" where
  "steps_between p q = \<bar>px p - px q\<bar> + \<bar>py p - py q\<bar>"

definition board :: "i16 \<Rightarrow> i16 \<Rightarrow> bool" where
  "board w h \<longleftrightarrow> w \<le> 32767 \<and> h \<le> 32767"

text \<open>On the board a step does not wrap, and the four steps are the cells at distance one.\<close>

lemma new_position_shift:
  assumes "board w h" and "is_within_bounds p w h"
  shows "get_new_position p d = shift d 1 p"
  using assms
  by (cases d) (auto simp: get_new_position_def shift_def board_def is_within_bounds_def intro!: wrap_i16_id simp: in_i16_def)

lemma neighbours_iff:
  assumes "board w h" and "is_within_bounds p w h"
  shows "q \<in> set (map (get_new_position p) all_directions) \<longleftrightarrow> steps_between p q = 1"
proof
  assume "q \<in> set (map (get_new_position p) all_directions)"
  then obtain d where "q = shift d 1 p"
    using new_position_shift [OF assms] by auto
  then show "steps_between p q = 1"
    by (cases d) (simp_all add: steps_between_def shift_def)
next
  assume "steps_between p q = 1"
  then consider "px q = px p" "py q = py p - 1" | "px q = px p" "py q = py p + 1"
    | "px q = px p - 1" "py q = py p" | "px q = px p + 1" "py q = py p"
    unfolding steps_between_def by linarith
  then have "\<exists>d \<in> set all_directions. q = shift d 1 p"
    by cases (simp_all add: position_eq_iff shift_def)
  then show "q \<in> set (map (get_new_position p) all_directions)"
    using new_position_shift [OF assms] by auto
qed

lemma step_changes_distance:
  assumes "steps_between p x = 1"
  shows "\<bar>steps_between s x - steps_between s p\<bar> = 1"
proof -
  have unit: "\<bar>\<bar>a - (b + 1)\<bar> - \<bar>a - b\<bar>\<bar> = 1" "\<bar>\<bar>a - (b - 1)\<bar> - \<bar>a - b\<bar>\<bar> = 1" for a b :: int
    by arith+
  consider "px x = px p" "py x = py p + 1" | "px x = px p" "py x = py p - 1"
    | "py x = py p" "px x = px p + 1" | "py x = py p" "px x = px p - 1"
    using assms unfolding steps_between_def by linarith
  then show ?thesis
    by cases (simp_all add: steps_between_def unit)
qed

text \<open>A cell other than the start has a neighbour on the board that is one step closer.\<close>

lemma closer_neighbour:
  assumes "is_within_bounds s w h" and "is_within_bounds q w h" and "q \<noteq> s"
  shows "\<exists>p. is_within_bounds p w h \<and> steps_between p q = 1 \<and> steps_between s p = steps_between s q - 1"
proof -
  consider (left) "px s < px q" | (right) "px q < px s" | (up) "py s < py q" | (down) "py q < py s"
    using assms(3) unfolding position_eq_iff by linarith
  then show ?thesis
  proof cases
    case left
    then show ?thesis
      using assms(1,2) by (intro exI [of _ "q\<lparr>px := px q - 1\<rparr>"]) (simp add: is_within_bounds_def steps_between_def)
  next
    case right
    then show ?thesis
      using assms(1,2) by (intro exI [of _ "q\<lparr>px := px q + 1\<rparr>"]) (simp add: is_within_bounds_def steps_between_def)
  next
    case up
    then show ?thesis
      using assms(1,2) by (intro exI [of _ "q\<lparr>py := py q - 1\<rparr>"]) (simp add: is_within_bounds_def steps_between_def)
  next
    case down
    then show ?thesis
      using assms(1,2) by (intro exI [of _ "q\<lparr>py := py q + 1\<rparr>"]) (simp add: is_within_bounds_def steps_between_def)
  qed
qed

text \<open>
  The invariant: visited cells are on the board; those no longer queued are not targets and have
  their neighbours visited; the queue is ordered by distance, over at most two values.
\<close>

definition bfs_inv :: "(position \<Rightarrow> bool) \<Rightarrow> i16 \<Rightarrow> i16 \<Rightarrow> position \<Rightarrow> position set \<Rightarrow> position list \<Rightarrow> bool" where
  "bfs_inv goal w h s v q \<longleftrightarrow>
     s \<in> v \<and> set q \<subseteq> v \<and> v \<subseteq> cells w h \<and>
     (\<forall>p \<in> v - set q. \<not> goal p \<and> (\<forall>x. steps_between p x = 1 \<longrightarrow> is_within_bounds x w h \<longrightarrow> x \<in> v)) \<and>
     sorted (map (steps_between s) q) \<and> (q \<noteq> [] \<longrightarrow> steps_between s (last q) \<le> steps_between s (hd q) + 1)"

lemma bfs_closed:
  assumes "bfs_inv goal w h s v q" and "is_within_bounds s w h" and "is_within_bounds x w h"
    and "q = [] \<or> steps_between s x \<le> steps_between s (hd q)"
  shows "x \<in> v"
  using assms(3,4)
proof (induction "nat (steps_between s x)" arbitrary: x rule: less_induct)
  case less
  show ?case
  proof (cases "x = s")
    case False
    obtain p where p: "is_within_bounds p w h" "steps_between p x = 1" "steps_between s p = steps_between s x - 1"
      using closer_neighbour [OF assms(2) less.prems(1) False] by blast
    have "0 \<le> steps_between s p"
      by (simp add: steps_between_def)
    then have "p \<in> v"
      using less.hyps [of p] p less.prems(2) by auto
    moreover have "p \<notin> set q"
    proof
      assume "p \<in> set q"
      then obtain y ys where "q = y # ys" "p = y \<or> p \<in> set ys"
        by (cases q) auto
      then have "steps_between s (hd q) \<le> steps_between s p"
        using assms(1) by (auto simp: bfs_inv_def)
      then show False
        using p(3) less.prems(2) \<open>q = y # ys\<close> by auto
    qed
    ultimately show ?thesis
      using assms(1) p(2) less.prems(1) by (auto simp: bfs_inv_def)
  qed (use assms(1) in \<open>simp add: bfs_inv_def\<close>)
qed

lemma sorted_last: "sorted (map f xs) \<Longrightarrow> x \<in> set xs \<Longrightarrow> f x \<le> f (last xs)"
  by (cases xs rule: rev_cases) (auto simp: sorted_append)

lemma bfs_step:
  assumes "board w h" and "is_within_bounds s w h" and "bfs_inv goal w h s v (p # q)" and "\<not> goal p"
    and "push_neighbours w h (map (get_new_position p) all_directions) (v, q) = (v', q')"
  shows "bfs_inv goal w h s v' q'"
proof -
  have p: "is_within_bounds p w h"
    using assms(3) by (auto simp: bfs_inv_def cells_def)
  obtain new where new: "q' = q @ new" "v' = v \<union> set new"
      "set new = {x. steps_between p x = 1 \<and> is_within_bounds x w h \<and> x \<notin> v}"
    using push_neighbours_shape [OF assms(5)] neighbours_iff [OF assms(1) p] by blast
  let ?n = "steps_between s p"
  have far: "steps_between s x = ?n + 1" if "x \<in> set new" for x
  proof -
    have "\<bar>steps_between s x - ?n\<bar> = 1"
      using that new(3) step_changes_distance by blast
    moreover have "\<not> steps_between s x \<le> ?n"
      using bfs_closed [OF assms(3,2), of x] that new(3) by auto
    ultimately show ?thesis
      by linarith
  qed
  have near: "steps_between s x \<le> ?n + 1" if "x \<in> set q" for x
  proof -
    have "steps_between s x \<le> steps_between s (last (p # q))"
      using assms(3) that sorted_last [of "steps_between s" "p # q" x] by (simp add: bfs_inv_def)
    then show ?thesis
      using assms(3) by (auto simp: bfs_inv_def)
  qed
  have lower: "?n \<le> steps_between s x" if "x \<in> set q" for x
    using assms(3) that by (auto simp: bfs_inv_def)
  have "sorted (map (steps_between s) (q @ new))"
  proof -
    have "map (steps_between s) new = replicate (length new) (?n + 1)"
      using far by (induction new) auto
    then show ?thesis
      using assms(3) near by (auto simp: bfs_inv_def sorted_append sorted_replicate)
  qed
  moreover have "steps_between s (last q') \<le> steps_between s (hd q') + 1" if "q' \<noteq> []"
  proof -
    have "\<forall>x \<in> set q'. ?n \<le> steps_between s x \<and> steps_between s x \<le> ?n + 1"
      using near lower far new(1) by auto
    then have "steps_between s (last q') \<le> ?n + 1" "?n \<le> steps_between s (hd q')"
      using that by auto
    then show ?thesis
      by linarith
  qed
  moreover have "\<not> goal x \<and> (\<forall>y. steps_between x y = 1 \<longrightarrow> is_within_bounds y w h \<longrightarrow> y \<in> v')"
    if "x \<in> v' - set q'" for x
  proof (cases "x = p")
    case True
    then show ?thesis
      using assms(4) new(2,3) by blast
  next
    case False
    then have "x \<in> v - set (p # q)"
      using that new(1,2) by auto
    then show ?thesis
      using assms(3) new(2) unfolding bfs_inv_def by blast
  qed
  moreover have "s \<in> v'" "set q' \<subseteq> v'" "v' \<subseteq> cells w h"
    using assms(3) new by (auto simp: bfs_inv_def cells_def)
  ultimately show ?thesis
    unfolding bfs_inv_def new(1) by blast
qed

text \<open>The search returns a target that no other target on the board beats, and finds one if there is one.\<close>

lemma bfs_nearest:
  assumes "board w h" and "is_within_bounds s w h" and "bfs_inv goal w h s v q"
  shows "case bfs goal w h v q of
      None \<Rightarrow> \<forall>x. is_within_bounds x w h \<longrightarrow> \<not> goal x
    | Some p \<Rightarrow> goal p \<and> is_within_bounds p w h \<and>
        (\<forall>x. is_within_bounds x w h \<longrightarrow> goal x \<longrightarrow> steps_between s p \<le> steps_between s x)"
  using assms
proof (induction goal w h v q rule: bfs.induct)
  case (1 goal w h v)
  then show ?case
    using bfs_closed [OF 1(3,2)] by (auto simp: bfs_inv_def)
next
  case (2 goal w h v p q)
  show ?case
  proof (cases "goal p")
    case True
    have "steps_between s p \<le> steps_between s x" if "is_within_bounds x w h" "goal x" for x
    proof (rule ccontr)
      assume closer: "\<not> steps_between s p \<le> steps_between s x"
      then have "x \<in> v"
        using bfs_closed [OF 2(4,3) that(1)] by simp
      moreover have "x \<notin> set (p # q)"
        using closer 2(4) by (auto simp: bfs_inv_def)
      ultimately show False
        using 2(4) that(2) by (auto simp: bfs_inv_def)
    qed
    then show ?thesis
      using True 2(4) by (auto simp: bfs_inv_def cells_def)
  next
    case False
    obtain v' q' where st: "push_neighbours w h (map (get_new_position p) all_directions) (v, q) = (v', q')"
      by fastforce
    then have "bfs goal w h v (p # q) = bfs goal w h v' q'"
      using False by simp
    then show ?thesis
      using 2(1) [OF False refl st [symmetric] 2(2,3) bfs_step [OF 2(2,3,4) False st]] by simp
  qed
qed

lemma bfs_start:
  assumes "board w h" and "is_within_bounds s w h"
  shows "case bfs goal w h {s} [s] of
      None \<Rightarrow> \<forall>x. is_within_bounds x w h \<longrightarrow> \<not> goal x
    | Some p \<Rightarrow> goal p \<and> is_within_bounds p w h \<and>
        (\<forall>x. is_within_bounds x w h \<longrightarrow> goal x \<longrightarrow> steps_between s p \<le> steps_between s x)"
proof (rule bfs_nearest [OF assms])
  show "bfs_inv goal w h s {s} [s]"
    using assms(2) by (simp add: bfs_inv_def cells_def)
qed

section \<open>The chosen move\<close>

lemma best_step_fold:
  "(case foldl (best_step score) best ds of
      None \<Rightarrow> best = None \<and> (\<forall>d \<in> set ds. score d = None)
    | Some (d, n) \<Rightarrow> (best = Some (d, n) \<or> d \<in> set ds \<and> score d = Some n) \<and>
        (\<forall>d' m. d' \<in> set ds \<longrightarrow> score d' = Some m \<longrightarrow> m \<le> n) \<and> (\<forall>d' m. best = Some (d', m) \<longrightarrow> m \<le> n))"
proof (induction ds arbitrary: best)
  case (Cons d ds)
  show ?case
    using Cons.IH [of "best_step score best d"]
    by (fastforce simp: best_step_def split: option.splits if_splits)
qed (simp split: option.split)

text \<open>A step that stays on the board, hits no living snake, and leaves a way out.\<close>

definition safe_step :: "game_state \<Rightarrow> position \<Rightarrow> direction \<Rightarrow> bool" where
  "safe_step g h d =
     (let width = i16_of_u16 (ar_width (gs_arena g)); height = i16_of_u16 (ar_height (gs_arena g));
          p = get_new_position h d
      in is_within_bounds p width height \<and> \<not> would_collide_with_snake g p \<and> count_escape_routes g p width height \<noteq> 0)"

lemma direction_score_safe:
  "direction_score g h target (i16_of_u16 (ar_width (gs_arena g))) (i16_of_u16 (ar_height (gs_arena g))) d \<noteq> None
   \<longleftrightarrow> safe_step g h d"
  by (auto simp: direction_score_def safe_step_def Let_def)

lemma opposite_irrefl: "\<not> is_opposite d d"
  by (cases d) simp_all

text \<open>A snake in the corner of a small board, for concrete instances.\<close>

definition pen :: game_state where
  "pen = (let g = initial_game_state 40 40 Solo Quickmatch None 0
     in g\<lparr>gs_arena := (gs_arena g)\<lparr>ar_width := 4, ar_height := 4,
          ar_snakes := [snake_new [\<lparr>px = 0, py = 0\<rparr>, \<lparr>px = 1, py = 0\<rparr>] Left True 0 None],
          ar_food := [\<lparr>px = 0, py = 2\<rparr>, \<lparr>px = 2, py = 2\<rparr>]\<rparr>\<rparr>)"

text \<open>
  C27. The computer player never turns back into its own neck, and it steps to a cell that is on the
  board, free of every living snake and not a dead end whenever one of its three directions offers
  such a cell. Only when none does it keep its course.
\<close>

theorem ai_moves_safely:
  assumes "calculate_ai_move g i current = Some d"
  shows "\<exists>s h. snake_at g i = Some s \<and> sn_alive s \<and> head s = Inr h \<and> \<not> is_opposite current d \<and>
    (safe_step g h d \<or> d = current \<and> (\<forall>d'. \<not> is_opposite current d' \<longrightarrow> \<not> safe_step g h d'))"
proof -
  obtain s h target where s: "snake_at g i = Some s" "sn_alive s" "head s = Inr h"
      "move_target g s h (i16_of_u16 (ar_width (gs_arena g))) (i16_of_u16 (ar_height (gs_arena g))) = Some target"
    using assms by (auto simp: calculate_ai_move_def Let_def split: option.splits if_splits sum.splits)
  let ?score = "direction_score g h target (i16_of_u16 (ar_width (gs_arena g))) (i16_of_u16 (ar_height (gs_arena g)))"
  have member: "d' \<in> set (possible_directions current) \<longleftrightarrow> \<not> is_opposite current d'" for d'
    by (cases d') (auto simp: possible_directions_def)
  have d: "d = (case foldl (best_step ?score) None (possible_directions current) of None \<Rightarrow> current | Some (d, _) \<Rightarrow> d)"
    using assms s by (auto simp: calculate_ai_move_def Let_def split: option.splits)
  have "\<not> is_opposite current d \<and>
      (safe_step g h d \<or> d = current \<and> (\<forall>d'. \<not> is_opposite current d' \<longrightarrow> \<not> safe_step g h d'))"
  proof (cases "foldl (best_step ?score) None (possible_directions current)")
    case None
    then have "d = current" "\<forall>d' \<in> set (possible_directions current). ?score d' = None"
      using best_step_fold [where score = ?score and best = None and ds = "possible_directions current"] d by simp_all
    then show ?thesis
      using opposite_irrefl member direction_score_safe [of g h target] by blast
  next
    case (Some dn)
    then have "d \<in> set (possible_directions current)" "?score d \<noteq> None"
      using best_step_fold [where score = ?score and best = None and ds = "possible_directions current"] d by (auto split: prod.splits)
    then show ?thesis
      using member direction_score_safe [of g h target d] by blast
  qed
  then show ?thesis
    using s by blast
qed

theorem ai_moves_safely_witness:
  "calculate_ai_move pen 0 Left = Some Down \<and> (\<exists>h. safe_step pen h Down)"
proof -
  have "calculate_ai_move pen 0 Left = Some Down"
    by code_simp
  then show ?thesis
    using ai_moves_safely [of pen 0 Left Down] by auto
qed

text \<open>
  C28. The food search returns a pellet, and one with the fewest steps from the head: breadth-first
  search over the board is exact.
\<close>

theorem nearest_food_is_found:
  assumes "board w h" and "is_within_bounds start w h" and "ar_food (gs_arena g) \<noteq> []"
    and "\<forall>p \<in> set (ar_food (gs_arena g)). is_within_bounds p w h"
  shows "\<exists>p. find_nearest_food g start w h = Some p \<and> p \<in> set (ar_food (gs_arena g)) \<and>
    (\<forall>x \<in> set (ar_food (gs_arena g)). steps_between start p \<le> steps_between start x)"
  using bfs_start [OF assms(1,2), of "\<lambda>p. p \<in> set (ar_food (gs_arena g))"] assms(3,4)
  by (cases "bfs (\<lambda>p. p \<in> set (ar_food (gs_arena g))) w h {start} [start]")
    (auto simp: find_nearest_food_def neq_Nil_conv)

theorem nearest_food_is_found_witness:
  "\<exists>p. find_nearest_food pen \<lparr>px = 0, py = 0\<rparr> 4 4 = Some p \<and>
     steps_between \<lparr>px = 0, py = 0\<rparr> p \<le> steps_between \<lparr>px = 0, py = 0\<rparr> \<lparr>px = 0, py = 2\<rparr>"
proof -
  have food: "ar_food (gs_arena pen) = [\<lparr>px = 0, py = 2\<rparr>, \<lparr>px = 2, py = 2\<rparr>]"
    by (simp add: pen_def Let_def)
  have "board 4 4" "is_within_bounds \<lparr>px = 0, py = 0\<rparr> 4 4"
    by (simp_all add: board_def is_within_bounds_def)
  from nearest_food_is_found [OF this, of pen] show ?thesis
    by (auto simp: food is_within_bounds_def)
qed

end
