(* ===== verification/Event_Log.thy ===== *)
theory Event_Log
  imports Tick
begin

text \<open>
  The events of one tick: they are numbered without gaps, continuing the sequence of the state, and
  they are of the kinds that the simulation itself authors. No invariant of the state is needed.
\<close>

fun simulated :: "game_event \<Rightarrow> bool" where
  "simulated (SnakeTurned _ _) = True"
| "simulated (SnakeDied _ _) = True"
| "simulated (PlayerIdleKicked _ _) = True"
| "simulated (FoodSpawned _) = True"
| "simulated (FoodEaten _ _ _ _ _ _) = True"
| "simulated (BoostPacketCollected _ _ _ _) = True"
| "simulated (StatusUpdated _) = True"
| "simulated (ScoreUpdated _ _) = True"
| "simulated (TeamScoreUpdated _ _) = True"
| "simulated (SnakeRespawned _ _ _) = True"
| "simulated (XPAwarded _) = True"
| "simulated _ = False"

definition logged :: "u64 \<Rightarrow> game_state \<times> numbered_events \<Rightarrow> bool" where
  "logged n st \<longleftrightarrow>
     map fst (snd st) = map (\<lambda>k. n + 1 + of_nat k) [0..<length (snd st)] \<and>
     gs_event_sequence (fst st) = n + of_nat (length (snd st)) \<and>
     (\<forall>(_, e) \<in> set (snd st). simulated e \<or> (\<exists>g. e = Snapshot g))"

lemma logged_state: "gs_event_sequence g' = gs_event_sequence g \<Longrightarrow> logged n (g', out) = logged n (g, out)"
  by (simp add: logged_def)

lemma logged_start: "logged (gs_event_sequence g) (g, [])"
  by (simp add: logged_def)

lemma apply_event_sequence: "simulated e \<Longrightarrow> gs_event_sequence (apply_event e g) = gs_event_sequence g"
  by (cases e)
    (auto simp: discard_commands_def update_snake_def apply_food_eaten_def remove_food_def apply_packet_collected_def Let_def
      split: option.split)

lemma logged_emit:
  assumes "logged n st" and "simulated e"
  shows "logged n (emit e st)"
proof -
  obtain g out where st: "st = (g, out)"
    by fastforce
  have "emit e st = (apply_event e (g\<lparr>gs_event_sequence := gs_event_sequence g + 1\<rparr>), out @ [(gs_event_sequence g + 1, e)])"
    by (simp add: emit_def st Let_def)
  then show ?thesis
    using assms by (simp add: logged_def st apply_event_sequence)
qed

lemma logged_append:
  assumes "logged n (g, out)" and "logged (gs_event_sequence g) (g', events)"
  shows "logged n (g', out @ events)"
proof -
  have "map (\<lambda>k. n + 1 + of_nat k) [0..<a + b] =
      map (\<lambda>k. n + 1 + of_nat k) [0..<a] @ map (\<lambda>k. n + of_nat a + 1 + of_nat k :: u64) [0..<b]" for a b
    by (induction b) (simp_all add: algebra_simps)
  then show ?thesis
    using assms unfolding logged_def by auto
qed

lemma logged_foldl:
  "(\<And>x st. logged n st \<Longrightarrow> x \<in> set xs \<Longrightarrow> logged n (f st x)) \<Longrightarrow> logged n st \<Longrightarrow> logged n (foldl f st xs)"
  by (induction xs arbitrary: st) simp_all

lemma logged_fold_result:
  assumes "\<And>x st st'. logged n st \<Longrightarrow> f x st = Inr st' \<Longrightarrow> logged n st'"
    and "logged n st" and "fold_result f xs st = Inr st'"
  shows "logged n st'"
  using assms(2,3)
proof (induction xs arbitrary: st)
  case (Cons x xs)
  obtain st1 where "f x st = Inr st1" "fold_result f xs st1 = Inr st'"
    using Cons.prems(2) by (auto simp: try_then_eq_Inr_iff)
  then show ?case
    using Cons.IH assms(1) Cons.prems(1) by blast
qed simp

section \<open>Commands\<close>

lemma action_sequence: "gs_event_sequence (record_player_action_for_snake i g) = gs_event_sequence g"
  by (simp add: record_player_action_for_snake_def Let_def split: option.split)

lemma latch_sequence: "gs_event_sequence (latch_boost_intent i b g) = gs_event_sequence g"
  by (simp add: latch_boost_intent_def update_snake_def action_sequence Let_def split: option.split prod.split)

lemma logged_command:
  assumes "exec_command c g = Inr (g', events)"
  shows "logged (gs_event_sequence g) (g', events)"
proof (cases c)
  case (Turn i d)
  have "logged (gs_event_sequence g) (emit (SnakeTurned i d) (g, []))"
    by (intro logged_emit logged_start) simp
  then have "logged (gs_event_sequence g) (record_player_action_for_snake i (fst (emit (SnakeTurned i d) (g, []))),
      snd (emit (SnakeTurned i d) (g, [])))"
    using logged_state [OF action_sequence] by (metis prod.collapse)
  then show ?thesis
    using assms Turn logged_start [of g]
    by (auto simp: exec_turn_def Let_def case_prod_beta split: option.splits if_splits)
qed (use assms in \<open>auto simp: logged_def latch_sequence\<close>)

lemma logged_exec_now: "logged n st \<Longrightarrow> logged n (exec_now c st)"
  by (cases st) (auto simp: exec_now_def split: sum.split intro: logged_append logged_command)

lemma logged_pop:
  "logged n (g, out) \<Longrightarrow> pop_commands g out turns = (g', out', turns') \<Longrightarrow> logged n (g', out')"
proof (induction g out turns rule: pop_commands.induct)
  case (1 g out turns)
  obtain q m where p: "pop (gs_tick g) (gs_command_queue g) = (q, m)"
    by fastforce
  define g1 where "g1 = g\<lparr>gs_command_queue := q\<rparr>"
  have g1: "logged n (g1, out)"
    using 1(3) logged_state [of g1 g n out] by (simp add: g1_def)
  show ?case
  proof (cases m)
    case None
    then show ?thesis
      using 1(4) p g1 by (simp add: pop_commands.simps [of g] g1_def)
  next
    case (Some c)
    show ?thesis
    proof (cases "is_turn (command c)")
      case True
      then show ?thesis
        using 1(1) [OF p [symmetric] Some g1_def True g1] 1(4) p Some
        by (simp add: pop_commands.simps [of g] g1_def)
    next
      case False
      define st where "st = exec_now (command c) (g1, out)"
      have "logged n (fst st, snd st)"
        using logged_exec_now [OF g1] by (simp add: st_def)
      then show ?thesis
        using 1(2) [OF p [symmetric] Some g1_def False st_def] 1(4) p Some False
        by (simp add: pop_commands.simps [of g] g1_def st_def Let_def)
    qed
  qed
qed

lemma logged_turn_step:
  assumes "logged n (tp_state ph, tp_out ph)"
  shows "logged n (tp_state (turn_step movers ph m), tp_out (turn_step movers ph m))"
proof -
  have "logged n (g, tp_out ph @ events)" if "exec_command c (tp_state ph) = Inr (g, events)" for c g events
    using logged_append [OF assms logged_command [OF that]] .
  then show ?thesis
    using assms
    by (auto simp: turn_step_def Let_def simp del: exec_command.simps split: game_command.split option.split sum.split)
qed

lemma logged_apply_turns:
  assumes "logged n st"
  shows "logged n (apply_turns movers turns st)"
proof -
  obtain g out where st: "st = (g, out)"
    by fastforce
  have "logged n (tp_state (foldl (turn_step movers) ph turns), tp_out (foldl (turn_step movers) ph turns))"
    if "logged n (tp_state ph, tp_out ph)" for ph
    using that by (induction turns arbitrary: ph) (simp_all add: logged_turn_step)
  from this [of "\<lparr>tp_state = g, tp_out = out, tp_turned = {}, tp_deferred = []\<rparr>"] show ?thesis
    using assms by (simp add: st apply_turns_def Let_def logged_def)
qed

section \<open>Phases\<close>

lemma logged_inactivity:
  assumes "logged n st" and "resolve_player_inactivity post st = (st', finished)"
  shows "logged n st'"
proof -
  obtain g out where st: "st = (g, out)"
    by fastforce
  define g1 where "g1 = ensure_player_idle_tracking g"
  have g1: "logged n (g1, out)"
    using assms(1) by (simp add: st g1_def ensure_player_idle_tracking_def logged_def)
  define kicked where "kicked = foldl (\<lambda>st (u, i). emit (PlayerIdleKicked u i) st) (g1, out) (expired_players g1 post)"
  have kicked: "logged n kicked"
    unfolding kicked_def by (rule logged_foldl [OF _ g1]) (auto intro: logged_emit)
  then have "logged n (emit (StatusUpdated (Complete w)) (emit (XPAwarded xp)
      ((fst kicked)\<lparr>gs_completed_by_inactivity := True\<rparr>, snd kicked)))" for w xp
    by (intro logged_emit) (simp_all add: logged_def)
  then show ?thesis
    using assms g1 kicked unfolding st resolve_player_inactivity_def g1_def [symmetric]
    by (auto simp: Let_def kicked_def [symmetric] g1_def [symmetric] case_prod_beta split: if_splits option.splits)
qed

lemma logged_maybe_respawn: "logged n st \<Longrightarrow> maybe_respawn i st = Inr st' \<Longrightarrow> logged n st'"
  by (auto simp: maybe_respawn_def respawn_event_for_snake_def try_then_eq_Inr_iff Let_def
      intro!: logged_emit split: option.splits)

lemma logged_crash_snake:
  assumes "logged n st" and "crash_snake old c st = Inr st'"
  shows "logged n st'"
proof -
  obtain g out i h cause where st: "st = (g, out)" "c = (i, h, cause)"
    by (metis prod.exhaust)
  have "logged n (emit (SnakeDied i cause) (g', out))" if "gs_event_sequence g' = gs_event_sequence g" for g'
    using assms(1) logged_state [OF that] by (intro logged_emit) (simp_all add: st)
  then show ?thesis
    using assms(2)
    by (auto simp: st crash_snake_def Let_def try_then_eq_Inr_iff update_snake_def
        elim!: logged_maybe_respawn [rotated] split: if_splits)
qed

lemma logged_crash_phase: "logged n st \<Longrightarrow> crash_phase movers old st = Inr st' \<Longrightarrow> logged n st'"
  by (auto simp: crash_phase_def try_then_eq_Inr_iff elim!: logged_fold_result [rotated 2] intro: logged_crash_snake)

lemma food_pickups_simulated: "food_pickups g claimed ss = Inr events \<Longrightarrow> e \<in> set events \<Longrightarrow> simulated e"
  by (induction g claimed ss arbitrary: events rule: food_pickups.induct)
    (fastforce simp: try_then_eq_Inr_iff Let_def split: if_splits prod.splits)+

lemma logged_eat_phase: "logged n st \<Longrightarrow> eat_phase st = Inr st' \<Longrightarrow> logged n st'"
  by (auto simp: eat_phase_def try_then_eq_Inr_iff eat_one_def Let_def
      intro!: logged_foldl logged_emit dest: food_pickups_simulated)

lemma logged_collect_pad: "logged n st \<Longrightarrow> logged n (collect_pad c post st pad)"
  by (cases st) (auto simp: collect_pad_def update_snake_def Let_def logged_def [of n "(_, _)"]
      intro!: logged_emit split: option.split prod.split)

lemma logged_pad_phase: "logged n st \<Longrightarrow> logged n (pad_phase post st)"
  by (auto simp: pad_phase_def intro!: logged_foldl logged_collect_pad split: option.split)

lemma logged_spawn_food: "logged n st \<Longrightarrow> spawn_food_phase bm mo st = Inr st' \<Longrightarrow> logged n st'"
  by (cases st) (auto simp: spawn_food_phase_def try_then_eq_Inr_iff Let_def logged_def [of n "(_, _)"]
      intro!: logged_emit split: if_splits option.splits)

lemma logged_bank_respawn: "logged n st \<Longrightarrow> bank_respawn i st = Inr st' \<Longrightarrow> logged n st'"
  unfolding bank_respawn_def by (erule logged_maybe_respawn [rotated]) (simp add: logged_emit)

lemma logged_bank_teams: "logged n st \<Longrightarrow> logged n (foldl bank_team st ds)"
  by (rule logged_foldl) (auto simp: bank_team_def Let_def intro: logged_emit)

lemma logged_score_phase:
  assumes "logged n st" and "score_phase st = Inr st'"
  shows "logged n st'"
proof (cases "is_team_match (gs_game_type (fst st)) \<and> gs_team_scores (fst st) \<noteq> None")
  case True
  then obtain xs ds where banked: "fold_result bank_respawn xs (foldl bank_team st ds) = Inr st'"
    using assms(2) by (auto simp: score_phase_def Let_def)
  show ?thesis
    by (rule logged_fold_result [OF _ logged_bank_teams [OF assms(1)] banked]) (rule logged_bank_respawn)
qed (use assms in \<open>auto simp: score_phase_def\<close>)

lemma logged_completion: "logged n st \<Longrightarrow> completion_phase st = Inr st' \<Longrightarrow> logged n st'"
  by (auto simp: completion_phase_def complete_with_def try_then_eq_Inr_iff Let_def
      intro!: logged_emit split: if_splits option.splits)

section \<open>The whole tick\<close>

lemma logged_after_movement:
  assumes "logged n st" and "after_movement bm mo post movers old st = Inr (st', ts)"
  shows "logged n st'"
  using assms(2) unfolding after_movement_def Let_def case_prod_beta
proof (elim try_thenE, goal_cases)
  case (1 st1 st2 st4 st5)
  let ?cued = "(goal_cue_phase movers old (fst st4), snd st4)"
  have "logged n (pad_phase post st2)"
    by (rule logged_pad_phase [OF logged_eat_phase [OF logged_crash_phase [OF assms(1) 1(1)] 1(2)]])
  then have "logged n (fst (finalize_boosts (fst (pad_phase post st2))), snd (pad_phase post st2))"
    by (simp add: finalize_boosts_def map_snakes_def logged_def)
  then have "logged n st4"
    by (rule logged_spawn_food [OF _ 1(3)])
  then have "logged n ?cued"
    by (simp add: goal_cue_phase_def logged_def)
  then have "logged n st5"
    using 1(4) by (cases mo) (auto elim!: try_thenE logged_completion [rotated] logged_score_phase [rotated])
  moreover have "st' = advance st5"
    using 1(5) by simp
  ultimately show ?case
    by (simp add: advance_def logged_def case_prod_beta)
qed

lemma logged_play_quantum:
  assumes "logged n st" and "play_quantum bm mo post st = Inr (st', ts)"
  shows "logged n st'"
proof -
  obtain g out where st: "st = (g, out)"
    by fastforce
  obtain g1 out1 turns where pop: "pop_commands (ready_pads post (drain_combos g)) out [] = (g1, out1, turns)"
    by (metis prod_cases3)
  obtain g2 resolved where boosts: "resolve_boosts g1 = (g2, resolved)"
    by fastforce
  obtain g3 movers d where credits: "accrue_credits (reserve_quanta g2) = Inr (g3, movers)"
    and moved: "after_movement bm mo post movers (ar_snakes (gs_arena (fst (apply_turns movers turns (g3, out1)))))
      (move_snakes movers (fst (apply_turns movers turns (g3, out1))), snd (apply_turns movers turns (g3, out1))) = Inr (st', d)"
    using assms(2) unfolding st play_quantum_def Let_def pop prod.case boosts
    unfolding case_prod_beta by (elim try_thenE) auto
  obtain g4 out4 where turned: "apply_turns movers turns (g3, out1) = (g4, out4)"
    by fastforce
  have "logged n (ready_pads post (drain_combos g), out)"
    using assms(1) by (simp add: st ready_pads_def drain_combos_def map_snakes_def logged_def)
  then have "logged n (g1, out1)"
    using logged_pop pop by blast
  then have "logged n (g3, out1)"
    using boosts credits
    by (auto simp: resolve_boosts_def reserve_quanta_def accrue_credits_def map_snakes_def try_then_eq_Inr_iff Let_def logged_def
        split: option.splits)
  then have "logged n (g4, out4)"
    using logged_apply_turns turned by metis
  then have "logged n (move_snakes movers g4, out4)"
    by (simp add: move_snakes_def logged_def)
  then show ?thesis
    using logged_after_movement moved turned by simp
qed

lemma logged_tick:
  assumes "tick_forward_observing_boost bm mo g = Inr (st, ts)"
  shows "logged (gs_event_sequence g) st"
proof (cases "is_complete g")
  case True
  then show ?thesis
    using assms logged_start [of g] by (simp add: tick_forward_observing_boost_def)
next
  case False
  define post where "post = sat_add (gs_tick g) 1"
  obtain st1 finished where r: "resolve_player_inactivity post (begin_tick g) = (st1, finished)"
    by fastforce
  have "logged (gs_event_sequence g) (begin_tick g)"
    by (auto simp: begin_tick_def Let_def logged_def)
  then have st1: "logged (gs_event_sequence g) st1"
    by (rule logged_inactivity [OF _ r])
  show ?thesis
  proof (cases finished)
    case True
    then have "st = ((fst st1)\<lparr>gs_tick := post\<rparr>, snd st1)"
      using assms False r by (simp add: tick_forward_observing_boost_def post_def)
    then show ?thesis
      using st1 by (simp add: logged_def)
  next
    case unfinished: False
    then have "play_quantum bm mo post st1 = Inr (st, ts)"
      using assms False r by (simp add: tick_forward_observing_boost_def post_def)
    then show ?thesis
      by (rule logged_play_quantum [OF st1])
  qed
qed

end
