(* ===== verification/Sorted_Map.thy ===== *)
theory Sorted_Map
  imports Prelude
begin

text \<open>
  Rust's \<open>BTreeMap\<close>: the list of its entries in ascending order of their keys. \<open>bt_sorted\<close> is its
  invariant; insertion, the insertion of a default (\<open>entry(k).or_insert(v)\<close>) and removal keep it and
  satisfy the contract of a map.
\<close>

fun bt_insert :: "'k::linorder \<Rightarrow> 'v \<Rightarrow> ('k \<times> 'v) list \<Rightarrow> ('k \<times> 'v) list" where
  "bt_insert k v [] = [(k, v)]"
| "bt_insert k v ((k', v') # m) =
     (if k < k' then (k, v) # (k', v') # m
      else if k = k' then (k, v) # m
      else (k', v') # bt_insert k v m)"

definition bt_or_insert :: "'k::linorder \<Rightarrow> 'v \<Rightarrow> ('k \<times> 'v) list \<Rightarrow> ('k \<times> 'v) list" where
  "bt_or_insert k v m = (if map_of m k = None then bt_insert k v m else m)"

definition bt_remove :: "'k::linorder \<Rightarrow> ('k \<times> 'v) list \<Rightarrow> ('k \<times> 'v) list" where
  "bt_remove k m = filter (\<lambda>(k', _). k' \<noteq> k) m"

abbreviation bt_sorted :: "('k::linorder \<times> 'v) list \<Rightarrow> bool" where
  "bt_sorted m \<equiv> sorted_wrt (<) (map fst m)"

lemma bt_insert_keys: "fst ` set (bt_insert k v m) = insert k (fst ` set m)"
  by (induction k v m rule: bt_insert.induct) auto

lemma bt_insert_sorted: "bt_sorted m \<Longrightarrow> bt_sorted (bt_insert k v m)"
proof (induction k v m rule: bt_insert.induct)
  case (2 k v k' v' m)
  then show ?case
    using bt_insert_keys [of k v m] by (auto simp flip: set_map)
qed simp

lemma map_of_bt_insert: "map_of (bt_insert k v m) x = (if x = k then Some v else map_of m x)"
  by (induction k v m rule: bt_insert.induct) auto

lemma map_of_bt_or_insert:
  "map_of (bt_or_insert k v m) x = (case map_of m x of Some y \<Rightarrow> Some y | None \<Rightarrow> if x = k then Some v else None)"
  by (auto simp: bt_or_insert_def map_of_bt_insert split: option.split)

lemma bt_or_insert_sorted: "bt_sorted m \<Longrightarrow> bt_sorted (bt_or_insert k v m)"
  by (simp add: bt_or_insert_def bt_insert_sorted split: option.split)

lemma map_of_bt_remove: "map_of (bt_remove k m) x = (if x = k then None else map_of m x)"
  by (induction m) (auto simp: bt_remove_def)

lemma bt_sorted_distinct: "bt_sorted m \<Longrightarrow> distinct (map fst m)"
  by (simp add: strict_sorted_iff)

text \<open>Two maps with the same lookups are the same list.\<close>

lemma bt_canonical:
  assumes "bt_sorted m"
  shows "m = map (\<lambda>k. (k, the (map_of m k))) (sorted_list_of_set (dom (map_of m)))"
proof -
  have d: "sorted (map fst m)" "distinct (map fst m)"
    using assms by (simp_all add: strict_sorted_iff)
  have "sorted_list_of_set (dom (map_of m)) = map fst m"
    using d by (metis dom_map_of_conv_image_fst set_map sorted_list_of_set.idem_if_sorted_distinct)
  moreover have "map (\<lambda>k. (k, the (map_of m k))) (map fst m) = m"
    using d(2) by (auto intro: map_idI)
  ultimately show ?thesis
    by simp
qed

lemma bt_sorted_ext: "bt_sorted m \<Longrightarrow> bt_sorted m' \<Longrightarrow> map_of m = map_of m' \<Longrightarrow> m = m'"
  using bt_canonical by metis

interpretation btree: hash_map_ops bt_sorted "[]" map_of "\<lambda>m k v. bt_insert k v m" "\<lambda>m k. bt_remove k m" "map fst"
proof (unfold_locales, goal_cases)
  case (3 m k)
  then show ?case
    by (simp add: bt_remove_def sorted_wrt_map sorted_wrt_filter)
next
  case (8 m k)
  then show ?case
    by (simp add: map_of_eq_None_iff)
qed (simp_all add: bt_insert_sorted map_of_bt_insert map_of_bt_remove bt_sorted_distinct)

end
