(* ===== verification/Trace_Replay.thy ===== *)
theory Trace_Replay
  imports Engine_Safety Sorted_Map
begin

text \<open>
  Traces and their offline analysis: \<^verbatim>\<open>common/src/trace.rs\<close> (the record format) and
  \<^verbatim>\<open>common/src/replay.rs\<close> (replay of a server trace, replay of a client trace, and the comparison of the
  two sides).

  The evidence of a divergence is formatted text in the source; here it is the data that the text
  shows. Events are compared there as JSON values, in which the order of a map is immaterial. Clock
  samples are finite f64 numbers, hence rationals; the two means of a summary are only rendered and
  are left out.
\<close>

section \<open>Records\<close>

datatype trace_side = Server | Client

abbreviation (input) TRACE_FORMAT_VERSION :: u32 where "TRACE_FORMAT_VERSION \<equiv> 5"

datatype trace_record =
    Meta (meta_version: u32) (meta_side: trace_side) (meta_game_id: u32) (meta_session: string)
      (meta_ts_ms: i64) (meta_build: string) (meta_tick_duration_ms: u32)
  | StateRec i64 u32 game_state
  | EventOut i64 game_event_message
  | EventIn i64 u32 game_event_message
  | CmdIn i64 game_command_message
  | CmdOut i64 u32 game_command_message
  | FingerprintRec i64 u32 u64
  | ClockRec i64 rat rat
  | Note i64 string

fun record_ts_ms :: "trace_record \<Rightarrow> i64" where
  "record_ts_ms (Meta _ _ _ _ ts _ _) = ts"
| "record_ts_ms (StateRec ts _ _) = ts"
| "record_ts_ms (EventOut ts _) = ts"
| "record_ts_ms (EventIn ts _ _) = ts"
| "record_ts_ms (CmdIn ts _) = ts"
| "record_ts_ms (CmdOut ts _ _) = ts"
| "record_ts_ms (FingerprintRec ts _ _) = ts"
| "record_ts_ms (ClockRec ts _ _) = ts"
| "record_ts_ms (Note ts _) = ts"

fun find_map :: "('a \<Rightarrow> 'b option) \<Rightarrow> 'a list \<Rightarrow> 'b option" where
  "find_map f [] = None"
| "find_map f (x # xs) = (case f x of Some y \<Rightarrow> Some y | None \<Rightarrow> find_map f xs)"

definition trace_side :: "trace_record list \<Rightarrow> trace_side option" where
  "trace_side = find_map (\<lambda>r. case r of Meta _ side _ _ _ _ _ \<Rightarrow> Some side | _ \<Rightarrow> None)"

definition trace_game_id :: "trace_record list \<Rightarrow> u32 option" where
  "trace_game_id = find_map (\<lambda>r. case r of Meta _ _ game_id _ _ _ _ \<Rightarrow> Some game_id | _ \<Rightarrow> None)"

definition require_current_trace_format :: "trace_record list \<Rightarrow> unit result" where
  "require_current_trace_format records =
     (case find_map (\<lambda>r. case r of Meta version _ _ _ _ _ _ \<Rightarrow> Some version | _ \<Rightarrow> None) records of
        None \<Rightarrow> Inl (Err ''trace has no Meta record'')
      | Some version \<Rightarrow>
          if version \<noteq> TRACE_FORMAT_VERSION
          then Inl (Err ''trace format version is incompatible with fingerprint format'') else Inr ())"

section \<open>Divergences\<close>

datatype evidence =
    HashEvidence u64
  | TickEvidence u32
  | EventEvidence u32 u64 game_event
  | CommandEvidence game_command_message
  | TextEvidence string

datatype divergence_kind =
    Fingerprint_mismatch
  | Fingerprint_tick_mismatch
  | Tick_hash_tick_mismatch
  | Tick_hash_mismatch
  | Unexpected_command_scheduled
  | Command_schedule_mismatch
  | Missing_event
  | Event_mismatch
  | Extra_event

record divergence =
  dv_tick :: u32
  dv_kind :: divergence_kind
  dv_expected :: evidence
  dv_actual :: evidence

record replay_outcome =
  deterministic :: bool
  ticks_replayed :: u32
  events_compared :: nat
  first_divergence :: "divergence option"

fun event_value :: "game_event \<Rightarrow> game_event" where
  "event_value (XPAwarded xp) = XPAwarded (sort_key fst xp)"
| "event_value e = e"

section \<open>Server replay\<close>

datatype server_item =
    ServerCmd i64 game_command_message
  | ServerEvent i64 game_event_message
  | ServerProbe i64 u32 u64

record server_replay =
  srp_game_id :: u32
  srp_anchor :: game_state
  srp_timeline :: "server_item list"

fun server_item_of :: "trace_record \<Rightarrow> server_item option" where
  "server_item_of (CmdIn ts cmd) = Some (ServerCmd ts cmd)"
| "server_item_of (EventOut ts msg) = Some (ServerEvent ts msg)"
| "server_item_of (FingerprintRec ts tick hash) = Some (ServerProbe ts tick hash)"
| "server_item_of _ = None"

text \<open>Records before the anchor are skipped.\<close>

fun server_timeline :: "game_state option \<Rightarrow> trace_record list \<Rightarrow> (game_state \<times> server_item list) option" where
  "server_timeline anchor [] = map_option (\<lambda>a. (a, [])) anchor"
| "server_timeline anchor (r # rs) =
     (case r of
        StateRec _ _ g \<Rightarrow> server_timeline (case anchor of None \<Rightarrow> Some g | Some a \<Rightarrow> Some a) rs
      | _ \<Rightarrow>
        (case (anchor, server_item_of r) of
           (Some _, Some item) \<Rightarrow> map_option (\<lambda>(a, items). (a, item # items)) (server_timeline anchor rs)
         | _ \<Rightarrow> server_timeline anchor rs))"

definition server_replay_from_records :: "trace_record list \<Rightarrow> server_replay result" where
  "server_replay_from_records records =
     try_then (require_current_trace_format records) (\<lambda>_.
     case (trace_side records, trace_game_id records) of
       (Some side, Some game_id) \<Rightarrow>
         if side \<noteq> Server then Inl (Err ''trace Meta.side, expected Server'')
         else (case server_timeline None records of
             None \<Rightarrow> Inl (Err ''server trace has no State record to anchor the replay'')
           | Some (anchor, timeline) \<Rightarrow>
               Inr \<lparr>srp_game_id = game_id, srp_anchor = anchor, srp_timeline = timeline\<rparr>)
     | _ \<Rightarrow> Inl (Err ''trace has no Meta record''))"

text \<open>The state of the replay loop: engine, unmatched events and commands, count, divergence.\<close>

record replay_state =
  rp_engine :: game_engine
  rp_emitted :: "published_event list"
  rp_scheduled :: "game_command_message list"
  rp_compared :: nat
  rp_divergence :: "divergence option"

definition replay_advance :: "box_muller \<Rightarrow> i64 \<Rightarrow> replay_state \<Rightarrow> replay_state result option" where
  "replay_advance bm ts st =
     (case run_until bm ts (rp_engine st) of
        None \<Rightarrow> None
      | Some (Inl err) \<Rightarrow> Some (Inl err)
      | Some (Inr (en, out)) \<Rightarrow>
          Some (Inr (st\<lparr>rp_engine := en,
            rp_emitted := rp_emitted st @ filter (\<lambda>(_, _, e). \<not> is_snapshot e) out\<rparr>)))"

definition diverge :: "u32 \<Rightarrow> divergence_kind \<Rightarrow> evidence \<Rightarrow> evidence \<Rightarrow> replay_state \<Rightarrow> replay_state" where
  "diverge tick kind expected actual st =
     st\<lparr>rp_divergence := Some \<lparr>dv_tick = tick, dv_kind = kind, dv_expected = expected, dv_actual = actual\<rparr>\<rparr>"

definition compare_tick_hash :: "u32 \<Rightarrow> u64 \<Rightarrow> replay_state \<Rightarrow> replay_state" where
  "compare_tick_hash tick hash st =
     (let g = committed_state (rp_engine st) in
      if gs_tick g \<noteq> tick then diverge tick Tick_hash_tick_mismatch (TickEvidence tick) (TickEvidence (gs_tick g)) st
      else if sync_hash g \<noteq> hash then diverge tick Tick_hash_mismatch (HashEvidence hash) (HashEvidence (sync_hash g)) st
      else st)"

definition compare_scheduled :: "u32 \<Rightarrow> game_command_message \<Rightarrow> replay_state \<Rightarrow> replay_state" where
  "compare_scheduled tick m st =
     (case rp_scheduled st of
        [] \<Rightarrow> diverge tick Unexpected_command_scheduled (CommandEvidence m)
            (TextEvidence ''<replay scheduled no command>'') st
      | ours # rest \<Rightarrow>
          let st = st\<lparr>rp_scheduled := rest\<rparr>
          in if ours \<noteq> m then diverge tick Command_schedule_mismatch (CommandEvidence m) (CommandEvidence ours) st else st)"

definition compare_emitted :: "game_event_message \<Rightarrow> replay_state \<Rightarrow> replay_state" where
  "compare_emitted msg st =
     (let recorded = EventEvidence (em_tick msg) (em_sequence msg) (em_event msg) in
      case rp_emitted st of
        [] \<Rightarrow> diverge (em_tick msg) Missing_event recorded (TextEvidence ''<engine emitted no event>'') st
      | (tick, sequence, e) # rest \<Rightarrow>
          let st = st\<lparr>rp_emitted := rest\<rparr>
          in if tick \<noteq> em_tick msg \<or> sequence \<noteq> em_sequence msg \<or> event_value e \<noteq> event_value (em_event msg)
             then diverge (em_tick msg) Event_mismatch recorded (EventEvidence tick sequence e) st else st)"

definition replay_event :: "game_event_message \<Rightarrow> replay_state \<Rightarrow> replay_state result" where
  "replay_event msg st =
     (case em_event msg of
        Snapshot _ \<Rightarrow> Inr st
      | PlayerReady _ \<Rightarrow>
          (case apply_pre_match_readiness_event (em_event msg) (rp_engine st) of
             (_, Inl err) \<Rightarrow> Inl err | (en, Inr _) \<Rightarrow> Inr (st\<lparr>rp_engine := en\<rparr>))
      | MatchStartScheduled _ \<Rightarrow>
          (case apply_pre_match_readiness_event (em_event msg) (rp_engine st) of
             (_, Inl err) \<Rightarrow> Inl err | (en, Inr _) \<Rightarrow> Inr (st\<lparr>rp_engine := en\<rparr>))
      | TickHash hash _ \<Rightarrow> Inr (compare_tick_hash (em_tick msg) hash (st\<lparr>rp_compared := rp_compared st + 1\<rparr>))
      | CommandScheduled m \<Rightarrow> Inr (compare_scheduled (em_tick msg) m (st\<lparr>rp_compared := rp_compared st + 1\<rparr>))
      | _ \<Rightarrow> Inr (compare_emitted msg (st\<lparr>rp_compared := rp_compared st + 1\<rparr>)))"

fun replay_item :: "box_muller \<Rightarrow> server_item \<Rightarrow> replay_state \<Rightarrow> replay_state result option" where
  "replay_item bm (ServerCmd ts cmd) st =
     (case replay_advance bm ts st of
        Some (Inr st) \<Rightarrow>
          let (en, scheduled) = process_command cmd (rp_engine st)
          in Some (Inr (st\<lparr>rp_engine := en, rp_scheduled := rp_scheduled st @ [scheduled]\<rparr>))
      | r \<Rightarrow> r)"
| "replay_item bm (ServerProbe ts tick hash) st =
     (case replay_advance bm ts st of
        Some (Inr st) \<Rightarrow>
          let g = committed_state (rp_engine st)
          in Some (Inr (if gs_tick g = tick \<and> sync_hash g \<noteq> hash
             then diverge tick Fingerprint_mismatch (HashEvidence hash) (HashEvidence (sync_hash g)) st else st))
      | r \<Rightarrow> r)"
| "replay_item bm (ServerEvent ts msg) st =
     (case replay_advance bm ts st of
        Some (Inr st) \<Rightarrow> Some (replay_event msg st)
      | r \<Rightarrow> r)"

fun replay_items :: "box_muller \<Rightarrow> server_item list \<Rightarrow> replay_state \<Rightarrow> replay_state result option" where
  "replay_items bm [] st = Some (Inr st)"
| "replay_items bm (item # items) st =
     (if rp_divergence st \<noteq> None then Some (Inr st)
      else case replay_item bm item st of
        Some (Inr st) \<Rightarrow> replay_items bm items st
      | r \<Rightarrow> r)"

definition replay_finish :: "u32 \<Rightarrow> replay_state \<Rightarrow> replay_outcome" where
  "replay_finish anchor_tick st =
     (let st = (case (rp_divergence st, rp_emitted st) of
          (None, (tick, sequence, e) # rest) \<Rightarrow>
            diverge tick Extra_event (TextEvidence ''<no further recorded events>'') (EventEvidence tick sequence e) st
        | _ \<Rightarrow> st)
      in \<lparr>deterministic = (rp_divergence st = None),
          ticks_replayed = sat_sub (gs_tick (committed_state (rp_engine st))) anchor_tick,
          events_compared = rp_compared st, first_divergence = rp_divergence st\<rparr>)"

definition server_replay_replay :: "box_muller \<Rightarrow> server_replay \<Rightarrow> replay_outcome result option" where
  "server_replay_replay bm r =
     (case new_from_state (srp_game_id r) (srp_anchor r) of
        Inl err \<Rightarrow> Some (Inl err)
      | Inr en \<Rightarrow>
          map_option (\<lambda>res. try_then res (\<lambda>st. Inr (replay_finish (gs_tick (srp_anchor r)) st)))
            (replay_items bm (srp_timeline r)
               \<lparr>rp_engine = en, rp_emitted = [], rp_scheduled = [], rp_compared = 0, rp_divergence = None\<rparr>))"

section \<open>Client replay\<close>

datatype client_item =
    ClientEvent game_event_message
  | ClientCmd game_command_message
  | ClientProbe u32 u64

record client_replay =
  crp_game_id :: u32
  crp_anchor :: game_state
  crp_timeline :: "client_item list"

record client_replay_outcome =
  reproduces :: bool
  client_ticks_replayed :: u32
  fingerprints_compared :: nat
  client_first_divergence :: "divergence option"

fun client_item_of :: "trace_record \<Rightarrow> client_item option" where
  "client_item_of (EventIn _ _ msg) = Some (ClientEvent msg)"
| "client_item_of (CmdOut _ _ cmd) = Some (ClientCmd cmd)"
| "client_item_of (FingerprintRec _ tick hash) = Some (ClientProbe tick hash)"
| "client_item_of _ = None"

text \<open>The anchor is the first recorded state, or the first received snapshot, which stays in the timeline.\<close>

definition anchor_of :: "trace_record \<Rightarrow> game_state option" where
  "anchor_of r =
     (case r of
        StateRec _ _ g \<Rightarrow> Some g
      | EventIn _ _ msg \<Rightarrow> (case em_event msg of Snapshot g \<Rightarrow> Some g | _ \<Rightarrow> None)
      | _ \<Rightarrow> None)"

fun client_timeline :: "game_state option \<Rightarrow> trace_record list \<Rightarrow> (game_state \<times> client_item list) option" where
  "client_timeline anchor [] = map_option (\<lambda>a. (a, [])) anchor"
| "client_timeline anchor (r # rs) =
     (let anchor = (case anchor of None \<Rightarrow> anchor_of r | Some a \<Rightarrow> Some a) in
      case (anchor, client_item_of r) of
        (Some _, Some item) \<Rightarrow> map_option (\<lambda>(a, items). (a, item # items)) (client_timeline anchor rs)
      | _ \<Rightarrow> client_timeline anchor rs)"

definition client_replay_from_records :: "trace_record list \<Rightarrow> client_replay result" where
  "client_replay_from_records records =
     try_then (require_current_trace_format records) (\<lambda>_.
     case (trace_side records, trace_game_id records) of
       (Some side, Some game_id) \<Rightarrow>
         if side \<noteq> Client then Inl (Err ''trace Meta.side, expected Client'')
         else (case client_timeline None records of
             None \<Rightarrow> Inl (Err ''client trace has no State record and no Snapshot EventIn to anchor'')
           | Some (anchor, timeline) \<Rightarrow>
               Inr \<lparr>crp_game_id = game_id, crp_anchor = anchor, crp_timeline = timeline\<rparr>)
     | _ \<Rightarrow> Inl (Err ''trace has no Meta record''))"

definition recorded_command_message :: "u32 \<Rightarrow> game_command_message \<Rightarrow> game_event_message" where
  "recorded_command_message game_id cmd =
     \<lparr>em_game_id = game_id, em_tick = 0, em_sequence = 0, em_stream_seq = 0,
      em_user_id = Some (cid_user_id (command_id_client cmd)), em_event = CommandScheduled cmd\<rparr>"

definition schedule_recorded_client_command ::
  "box_muller \<Rightarrow> u32 \<Rightarrow> game_command_message \<Rightarrow> game_engine \<Rightarrow> (game_engine \<times> unit result) option" where
  "schedule_recorded_client_command bm game_id cmd en =
     process_server_event bm (recorded_command_message game_id cmd) en"

definition probe_divergence :: "u32 \<Rightarrow> u64 \<Rightarrow> game_state \<Rightarrow> divergence option" where
  "probe_divergence tick hash g =
     (if gs_tick g \<noteq> tick
      then Some \<lparr>dv_tick = tick, dv_kind = Fingerprint_tick_mismatch, dv_expected = TickEvidence tick,
                 dv_actual = TickEvidence (gs_tick g)\<rparr>
      else if sync_hash g \<noteq> hash
      then Some \<lparr>dv_tick = tick, dv_kind = Fingerprint_mismatch, dv_expected = HashEvidence hash,
                 dv_actual = HashEvidence (sync_hash g)\<rparr>
      else None)"

text \<open>The client loop: engine, number of probes compared, first divergence.\<close>

fun client_items ::
  "box_muller \<Rightarrow> u32 \<Rightarrow> client_item list \<Rightarrow> game_engine \<Rightarrow> nat
   \<Rightarrow> (game_engine \<times> nat \<times> divergence option) result option" where
  "client_items bm game_id [] en n = Some (Inr (en, n, None))"
| "client_items bm game_id (item # items) en n =
     (case item of
        ClientEvent msg \<Rightarrow>
          (case process_server_event bm msg en of
             None \<Rightarrow> None
           | Some (_, Inl err) \<Rightarrow> Some (Inl err)
           | Some (en, Inr _) \<Rightarrow> client_items bm game_id items en n)
      | ClientCmd cmd \<Rightarrow>
          (case schedule_recorded_client_command bm game_id cmd en of
             None \<Rightarrow> None
           | Some (_, Inl err) \<Rightarrow> Some (Inl err)
           | Some (en, Inr _) \<Rightarrow> client_items bm game_id items en n)
      | ClientProbe tick hash \<Rightarrow>
          (case probe_divergence tick hash (committed_state en) of
             Some d \<Rightarrow> Some (Inr (en, n + 1, Some d))
           | None \<Rightarrow> client_items bm game_id items en (n + 1)))"

definition client_replay_replay :: "box_muller \<Rightarrow> client_replay \<Rightarrow> client_replay_outcome result option" where
  "client_replay_replay bm r =
     (case new_from_state (crp_game_id r) (crp_anchor r) of
        Inl err \<Rightarrow> Some (Inl err)
      | Inr en \<Rightarrow>
          map_option (\<lambda>res. try_then res (\<lambda>(en, n, d). Inr
              \<lparr>reproduces = (d = None),
               client_ticks_replayed = sat_sub (gs_tick (committed_state en)) (gs_tick (crp_anchor r)),
               fingerprints_compared = n, client_first_divergence = d\<rparr>))
            (client_items bm (crp_game_id r) (crp_timeline r) en 0))"

section \<open>Comparing the two sides\<close>

record seq_range =
  range_start :: u64
  range_end :: u64

fun push_seq :: "seq_range list \<Rightarrow> u64 \<Rightarrow> seq_range list" where
  "push_seq ranges seq =
     (if ranges \<noteq> [] \<and> range_end (last ranges) + 1 = seq
      then butlast ranges @ [(last ranges)\<lparr>range_end := seq\<rparr>]
      else ranges @ [\<lparr>range_start = seq, range_end = seq\<rparr>])"

definition seqs_to_ranges :: "u64 list \<Rightarrow> seq_range list" where
  "seqs_to_ranges seqs = foldl push_seq [] seqs"

record fingerprint_mismatch =
  fm_tick :: u32
  fm_server_hash :: u64
  fm_client_hash :: u64

record command_latency_entry =
  cl_user_id :: u32
  cl_client_tick :: u32
  cl_wire_latency_ms :: "i64 option"
  cl_server_tick :: "u32 option"
  cl_tick_delta :: "i64 option"

record clock_drift_summary =
  drift_samples :: nat
  drift_min_ms :: rat
  drift_max_ms :: rat
  drift_max_abs_ms :: rat

record tagged_note =
  tn_side :: trace_side
  tn_ts_ms :: i64
  tn_note :: string

record divergence_report =
  missing_stream_seqs :: "seq_range list"
  first_missing_seq_tick :: "u32 option"
  first_fingerprint_mismatch :: "fingerprint_mismatch option"
  command_latency :: "command_latency_entry list"
  drift_summary :: "clock_drift_summary option"
  report_notes :: "tagged_note list"
  report_tick_duration_ms :: u32

datatype verdict = TRANSPORT_LOSS | ENGINE_NONDETERMINISM | CLOCK_DRIFT | IN_SYNC

definition verdict :: "divergence_report \<Rightarrow> verdict" where
  "verdict r =
     (let mismatch_tick = map_option fm_tick (first_fingerprint_mismatch r);
          loss_precedes_mismatch = (case (first_missing_seq_tick r, mismatch_tick) of
            (_, None) \<Rightarrow> True
          | (Some loss, Some mismatch) \<Rightarrow> loss \<le> mismatch
          | (None, Some _) \<Rightarrow> False);
          rescheduled = list_ex (\<lambda>c. case cl_tick_delta c of Some d \<Rightarrow> d \<noteq> 0 | None \<Rightarrow> False) (command_latency r);
          drift_exceeds_half_tick = (case drift_summary r of
            Some d \<Rightarrow> drift_max_abs_ms d > of_int (uint (report_tick_duration_ms r)) / 2 | None \<Rightarrow> False)
      in if missing_stream_seqs r \<noteq> [] \<and> loss_precedes_mismatch then TRANSPORT_LOSS
         else if mismatch_tick \<noteq> None then ENGINE_NONDETERMINISM
         else if drift_exceeds_half_tick \<and> rescheduled then CLOCK_DRIFT
         else IN_SYNC)"

record server_view =
  sv_seq_ticks :: "(u64 \<times> u32) list"
  sv_fingerprints :: "(u32 \<times> u64) list"
  sv_cmd_in_ts :: "(command_id, i64) hash_map"
  sv_assigned :: "(command_id, u32) hash_map"
  sv_notes :: "tagged_note list"

fun server_record :: "server_view \<Rightarrow> trace_record \<Rightarrow> server_view" where
  "server_record v (EventOut _ msg) =
     (let v = (if em_stream_seq msg > 0
               then v\<lparr>sv_seq_ticks := bt_insert (em_stream_seq msg) (em_tick msg) (sv_seq_ticks v)\<rparr> else v)
      in case em_event msg of
        CommandScheduled m \<Rightarrow>
          (case command_id_server m of
             Some i \<Rightarrow> v\<lparr>sv_assigned := hm_insert (sv_assigned v) (command_id_client m) (cid_tick i)\<rparr>
           | None \<Rightarrow> v)
      | _ \<Rightarrow> v)"
| "server_record v (CmdIn ts cmd) =
     (let v = v\<lparr>sv_cmd_in_ts := hm_insert (sv_cmd_in_ts v) (command_id_client cmd) ts\<rparr>
      in case command_id_server cmd of
        Some i \<Rightarrow> v\<lparr>sv_assigned := hm_insert (sv_assigned v) (command_id_client cmd) (cid_tick i)\<rparr>
      | None \<Rightarrow> v)"
| "server_record v (FingerprintRec _ tick hash) = v\<lparr>sv_fingerprints := bt_or_insert tick hash (sv_fingerprints v)\<rparr>"
| "server_record v (Note ts note) =
     v\<lparr>sv_notes := sv_notes v @ [\<lparr>tn_side = Server, tn_ts_ms = ts, tn_note = note\<rparr>]\<rparr>"
| "server_record v _ = v"

definition server_view_of :: "trace_record list \<Rightarrow> server_view" where
  "server_view_of records = foldl server_record
     \<lparr>sv_seq_ticks = [], sv_fingerprints = [], sv_cmd_in_ts = [], sv_assigned = [], sv_notes = []\<rparr> records"

record client_view =
  cv_seqs :: "u64 set"
  cv_first_seq :: "u64 option"
  cv_fingerprints :: "(u32 \<times> u64) list"
  cv_cmd_outs :: "(i64 \<times> u32 \<times> game_command_message) list"
  cv_drift :: "(rat \<times> rat) list"
  cv_notes :: "tagged_note list"

fun client_record :: "client_view \<Rightarrow> trace_record \<Rightarrow> client_view" where
  "client_record v (EventIn _ _ msg) =
     (if em_stream_seq msg > 0
      then v\<lparr>cv_first_seq := (case cv_first_seq v of None \<Rightarrow> Some (em_stream_seq msg) | Some s \<Rightarrow> Some s),
             cv_seqs := insert (em_stream_seq msg) (cv_seqs v)\<rparr>
      else v)"
| "client_record v (CmdOut ts predicted_tick cmd) = v\<lparr>cv_cmd_outs := cv_cmd_outs v @ [(ts, predicted_tick, cmd)]\<rparr>"
| "client_record v (FingerprintRec _ tick hash) = v\<lparr>cv_fingerprints := bt_or_insert tick hash (cv_fingerprints v)\<rparr>"
| "client_record v (ClockRec _ drift rtt) = v\<lparr>cv_drift := cv_drift v @ [(drift, rtt)]\<rparr>"
| "client_record v (Note ts note) =
     v\<lparr>cv_notes := cv_notes v @ [\<lparr>tn_side = Client, tn_ts_ms = ts, tn_note = note\<rparr>]\<rparr>"
| "client_record v _ = v"

definition client_view_of :: "trace_record list \<Rightarrow> client_view" where
  "client_view_of records = foldl client_record
     \<lparr>cv_seqs = {}, cv_first_seq = None, cv_fingerprints = [], cv_cmd_outs = [], cv_drift = [], cv_notes = []\<rparr> records"

definition set_max :: "u64 set \<Rightarrow> u64" where
  "set_max s = (if s = {} then 0 else Max s)"

text \<open>Only sequences within the window in which the client was attached can be missing.\<close>

definition missing_seqs :: "server_view \<Rightarrow> client_view \<Rightarrow> u64 list" where
  "missing_seqs sv cv =
     (let client_min_seq = (case cv_first_seq cv of Some s \<Rightarrow> s | None \<Rightarrow> 0);
          client_max_seq = set_max (cv_seqs cv)
      in filter (\<lambda>seq. seq > client_min_seq \<and> seq \<le> client_max_seq \<and> seq \<notin> cv_seqs cv) (map fst (sv_seq_ticks sv)))"

definition first_mismatch :: "server_view \<Rightarrow> client_view \<Rightarrow> fingerprint_mismatch option" where
  "first_mismatch sv cv =
     find_map (\<lambda>(tick, server_hash).
       case map_of (cv_fingerprints cv) tick of
         Some client_hash \<Rightarrow>
           if client_hash \<noteq> server_hash
           then Some \<lparr>fm_tick = tick, fm_server_hash = server_hash, fm_client_hash = client_hash\<rparr> else None
       | None \<Rightarrow> None) (sv_fingerprints sv)"

definition latency_of :: "server_view \<Rightarrow> i64 \<times> u32 \<times> game_command_message \<Rightarrow> command_latency_entry" where
  "latency_of sv = (\<lambda>(ts, predicted_tick, cmd).
     let client_id = command_id_client cmd;
         server_tick = hm_get (sv_assigned sv) client_id
     in \<lparr>cl_user_id = cid_user_id client_id, cl_client_tick = predicted_tick,
         cl_wire_latency_ms = map_option (\<lambda>received. wrap_i64 (received - ts)) (hm_get (sv_cmd_in_ts sv) client_id),
         cl_server_tick = server_tick,
         cl_tick_delta = map_option (\<lambda>t. uint t - uint predicted_tick) server_tick\<rparr>)"

definition drift_summary_of :: "(rat \<times> rat) list \<Rightarrow> clock_drift_summary option" where
  "drift_summary_of samples =
     (case map fst samples of
        [] \<Rightarrow> None
      | d # ds \<Rightarrow> Some \<lparr>drift_samples = length samples, drift_min_ms = foldl min d ds, drift_max_ms = foldl max d ds,
          drift_max_abs_ms = foldl max 0 (map abs (d # ds))\<rparr>)"

definition trace_tick_duration :: "trace_record list \<Rightarrow> u32 option" where
  "trace_tick_duration = find_map (\<lambda>r. case r of Meta _ _ _ _ _ _ d \<Rightarrow> Some d | _ \<Rightarrow> None)"

definition diff_traces :: "trace_record list \<Rightarrow> trace_record list \<Rightarrow> divergence_report" where
  "diff_traces server client =
     (let sv = server_view_of server; cv = client_view_of client; missing = missing_seqs sv cv
      in \<lparr>missing_stream_seqs = seqs_to_ranges missing,
          first_missing_seq_tick = (case missing of [] \<Rightarrow> None | seq # _ \<Rightarrow> map_of (sv_seq_ticks sv) seq),
          first_fingerprint_mismatch = first_mismatch sv cv,
          command_latency = map (latency_of sv) (cv_cmd_outs cv),
          drift_summary = drift_summary_of (cv_drift cv),
          report_notes = sort_key tn_ts_ms (sv_notes sv @ cv_notes cv),
          report_tick_duration_ms = (case find_map trace_tick_duration [server, client] of
            Some d \<Rightarrow> d | None \<Rightarrow> DEFAULT_TICK_INTERVAL_MS)\<rparr>)"

end
