(* ===== verification/Replay_Laws.thy ===== *)
theory Replay_Laws
  imports Trace_Replay
begin

text \<open>
  What the comparison of two traces guarantees: ranges of sequence numbers spell out the list they are
  made from, the loss report of \<open>diff_traces\<close> is exact, and its verdict is justified by the traces.
\<close>

section \<open>Ranges of sequence numbers\<close>

definition range_seqs :: "seq_range \<Rightarrow> u64 list" where
  "range_seqs r = map of_nat [unat (range_start r)..<Suc (unat (range_end r))]"

lemma range_seqs_single: "range_seqs \<lparr>range_start = s, range_end = s\<rparr> = [s]"
  by (simp add: range_seqs_def)

lemma range_seqs_extend:
  assumes "range_start r \<le> range_end r" and "range_end r < s" and "range_end r + 1 = s"
  shows "range_seqs (r\<lparr>range_end := s\<rparr>) = range_seqs r @ [s]"
proof -
  have "unat s = Suc (unat (range_end r))"
    using assms(2,3) by (metis Suc_eq_plus1 add.commute unatSuc word_not_simps(1) word_order.extremum_strict)
  moreover have "unat (range_start r) \<le> unat (range_end r)"
    using assms(1) by (simp add: word_le_nat_alt)
  ultimately have "map of_nat [unat (range_start r)..<Suc (unat s)] =
      map of_nat [unat (range_start r)..<Suc (unat (range_end r))] @ [of_nat (unat s) :: u64]"
    by simp
  then show ?thesis
    by (simp add: range_seqs_def)
qed

text \<open>The ranges of an ascending list spell out that list, and no two of them could be joined.\<close>

definition ranges_ok :: "seq_range list \<Rightarrow> bool" where
  "ranges_ok rs \<longleftrightarrow> (\<forall>r \<in> set rs. range_start r \<le> range_end r) \<and>
     sorted_wrt (\<lambda>r r'. range_end r < range_start r' \<and> range_end r + 1 \<noteq> range_start r') rs"

lemma seqs_to_ranges_snoc: "seqs_to_ranges (seqs @ [s]) = push_seq (seqs_to_ranges seqs) s"
  by (simp add: seqs_to_ranges_def)

lemma seqs_to_ranges_ok:
  assumes "sorted_wrt (<) seqs"
  shows "concat (map range_seqs (seqs_to_ranges seqs)) = seqs \<and> ranges_ok (seqs_to_ranges seqs) \<and>
    (seqs \<noteq> [] \<longrightarrow> seqs_to_ranges seqs \<noteq> [] \<and> range_end (last (seqs_to_ranges seqs)) = last seqs)"
  using assms
proof (induction seqs rule: rev_induct)
  case Nil
  then show ?case
    by (simp add: seqs_to_ranges_def ranges_ok_def)
next
  case (snoc s seqs)
  let ?rs = "seqs_to_ranges seqs"
  have IH: "concat (map range_seqs ?rs) = seqs" "ranges_ok ?rs"
      "seqs \<noteq> [] \<Longrightarrow> ?rs \<noteq> [] \<and> range_end (last ?rs) = last seqs"
    using snoc by (auto simp: sorted_wrt_append)
  show ?case
  proof (cases "seqs = []")
    case True
    then show ?thesis
      by (simp add: seqs_to_ranges_def ranges_ok_def range_seqs_single)
  next
    case False
    then obtain rs r where rs: "?rs = rs @ [r]" "range_end r = last seqs"
      using IH(3) by (cases ?rs rule: rev_cases) auto
    have less: "range_end r < s"
      using snoc.prems False rs(2) by (simp add: sorted_wrt_append)
    have r: "range_start r \<le> range_end r"
      using IH(2) rs(1) by (simp add: ranges_ok_def)
    have below: "range_end q < s" if "q \<in> set rs" for q
      using IH(2) rs(1) that r less by (auto simp: ranges_ok_def sorted_wrt_append)
    show ?thesis
    proof (cases "range_end r + 1 = s")
      case True
      have "range_seqs (r\<lparr>range_end := s\<rparr>) = range_seqs r @ [s]"
        using range_seqs_extend [OF r less True] .
      then show ?thesis
        using IH(1,2) rs r less True unfolding seqs_to_ranges_snoc
        by (auto simp: ranges_ok_def sorted_wrt_append)
    next
      case False
      have "range_end q + 1 \<noteq> s" if "q \<in> set rs" for q
      proof -
        have "range_end q < range_start r"
          using IH(2) rs(1) that by (auto simp: ranges_ok_def sorted_wrt_append)
        then have "range_end q + 1 \<le> range_end r"
          using r by (metis inc_le order_trans)
        then show ?thesis
          using less by auto
      qed
      then show ?thesis
        using IH(1,2) rs r less below False unfolding seqs_to_ranges_snoc
        by (auto simp: ranges_ok_def sorted_wrt_append range_seqs_single)
    qed
  qed
qed

section \<open>The loss report\<close>

definition published :: "trace_record list \<Rightarrow> u64 set" where
  "published rs = {em_stream_seq msg | ts msg. EventOut ts msg \<in> set rs \<and> em_stream_seq msg > 0}"

definition received :: "trace_record list \<Rightarrow> u64 set" where
  "received rs = {em_stream_seq msg | ts tick msg. EventIn ts tick msg \<in> set rs \<and> em_stream_seq msg > 0}"

definition first_received :: "trace_record list \<Rightarrow> u64 option" where
  "first_received = find_map (\<lambda>r. case r of
     EventIn _ _ msg \<Rightarrow> if em_stream_seq msg > 0 then Some (em_stream_seq msg) else None | _ \<Rightarrow> None)"

lemma server_record_seqs:
  "fst ` set (sv_seq_ticks (server_record v r)) = fst ` set (sv_seq_ticks v) \<union> published [r]"
  "sorted_wrt (<) (map fst (sv_seq_ticks v)) \<Longrightarrow> sorted_wrt (<) (map fst (sv_seq_ticks (server_record v r)))"
  by (cases r; auto simp: published_def bt_insert_keys bt_insert_sorted Let_def split: game_event.splits option.splits)+

lemma server_fold_seqs:
  "fst ` set (sv_seq_ticks (foldl server_record v rs)) = fst ` set (sv_seq_ticks v) \<union> published rs \<and>
   (sorted_wrt (<) (map fst (sv_seq_ticks v)) \<longrightarrow> sorted_wrt (<) (map fst (sv_seq_ticks (foldl server_record v rs))))"
proof (induction rs arbitrary: v)
  case (Cons r rs)
  have "published (r # rs) = published [r] \<union> published rs"
    by (auto simp: published_def)
  then show ?case
    using Cons.IH [of "server_record v r"] server_record_seqs [of v r] by auto
qed (simp add: published_def)

lemma client_record_seqs:
  "cv_seqs (client_record v r) = cv_seqs v \<union> received [r]"
  "cv_first_seq (client_record v r) = (case cv_first_seq v of Some s \<Rightarrow> Some s | None \<Rightarrow> first_received [r])"
  by (cases r; auto simp: received_def first_received_def split: option.splits)+

lemma client_fold_seqs:
  "cv_seqs (foldl client_record v rs) = cv_seqs v \<union> received rs \<and>
   cv_first_seq (foldl client_record v rs) = (case cv_first_seq v of Some s \<Rightarrow> Some s | None \<Rightarrow> first_received rs)"
proof (induction rs arbitrary: v)
  case (Cons r rs)
  have "received (r # rs) = received [r] \<union> received rs"
    by (auto simp: received_def)
  moreover have "first_received (r # rs) = (case first_received [r] of Some s \<Rightarrow> Some s | None \<Rightarrow> first_received rs)"
    by (simp add: first_received_def split: option.split)
  ultimately show ?case
    using Cons.IH [of "client_record v r"] client_record_seqs [of v r] by (auto split: option.splits)
qed (simp add: received_def first_received_def split: option.split)

lemma finite_received: "finite (received rs)"
proof -
  have "received rs \<subseteq> (\<lambda>r. case r of EventIn _ _ msg \<Rightarrow> em_stream_seq msg | _ \<Rightarrow> 0) ` set rs"
    by (force simp: received_def)
  then show ?thesis
    by (rule finite_subset) simp
qed

text \<open>A message is lost when it was published after the client attached and before its last message.\<close>

definition lost :: "trace_record list \<Rightarrow> trace_record list \<Rightarrow> u64 \<Rightarrow> bool" where
  "lost server client seq \<longleftrightarrow> seq \<in> published server \<and> seq \<notin> received client \<and>
     (\<exists>s. first_received client = Some s \<and> s < seq) \<and> (\<exists>s \<in> received client. seq \<le> s)"

lemma missing_seqs_iff:
  "seq \<in> set (missing_seqs (server_view_of server) (client_view_of client)) \<longleftrightarrow> lost server client seq"
  "sorted_wrt (<) (missing_seqs (server_view_of server) (client_view_of client))"
proof -
  let ?sv = "server_view_of server" and ?cv = "client_view_of client"
  have sv: "fst ` set (sv_seq_ticks ?sv) = published server" "sorted_wrt (<) (map fst (sv_seq_ticks ?sv))"
    using server_fold_seqs [of "\<lparr>sv_seq_ticks = [], sv_fingerprints = [], sv_cmd_in_ts = [], sv_assigned = [], sv_notes = []\<rparr>" server]
    by (simp_all add: server_view_of_def)
  have cv: "cv_seqs ?cv = received client" "cv_first_seq ?cv = first_received client"
    using client_fold_seqs [of "\<lparr>cv_seqs = {}, cv_first_seq = None, cv_fingerprints = [], cv_cmd_outs = [], cv_drift = [], cv_notes = []\<rparr>" client]
    by (simp_all add: client_view_of_def)
  have max: "seq \<le> set_max (received client) \<longleftrightarrow> (\<exists>s \<in> received client. seq \<le> s)" if "0 < seq"
    using that finite_received [of client] Max_ge_iff [of "received client" seq] by (auto simp: set_max_def)
  have first: "first_received client \<noteq> None" if got: "s \<in> received client" for s
  proof -
    obtain ts tick msg where "EventIn ts tick msg \<in> set client" "em_stream_seq msg > 0"
      using got by (auto simp: received_def)
    then show ?thesis
      by (induction client) (auto simp: first_received_def split: option.splits trace_record.splits)
  qed
  have pos: "0 < seq" if "seq \<in> published server"
    using that by (auto simp: published_def)
  have "set (missing_seqs ?sv ?cv) = {s \<in> published server. s > (case first_received client of Some s \<Rightarrow> s | None \<Rightarrow> 0) \<and>
      s \<le> set_max (received client) \<and> s \<notin> received client}"
    unfolding missing_seqs_def Let_def cv set_filter set_map sv(1) by blast
  then show "seq \<in> set (missing_seqs ?sv ?cv) \<longleftrightarrow> lost server client seq"
    using max pos first by (auto simp: lost_def split: option.splits)
  show "sorted_wrt (<) (missing_seqs ?sv ?cv)"
    using sv(2) by (simp add: missing_seqs_def Let_def sorted_wrt_filter)
qed

text \<open>The reported ranges list exactly the messages that were published and lost on the way.\<close>

lemma missing_ranges:
  "seq \<in> set (concat (map range_seqs (missing_stream_seqs (diff_traces server client)))) \<longleftrightarrow> lost server client seq"
  using seqs_to_ranges_ok [OF missing_seqs_iff(2) [of server client]] missing_seqs_iff(1) [of seq server client]
  by (simp add: diff_traces_def Let_def del: set_concat)

section \<open>The verdict\<close>

definition fingerprint_at :: "trace_record list \<Rightarrow> u32 \<Rightarrow> u64 option" where
  "fingerprint_at rs tick =
     find_map (\<lambda>r. case r of FingerprintRec _ t h \<Rightarrow> if t = tick then Some h else None | _ \<Rightarrow> None) rs"

lemma fingerprint_at_Cons:
  "fingerprint_at (r # rs) tick = (case fingerprint_at [r] tick of Some h \<Rightarrow> Some h | None \<Rightarrow> fingerprint_at rs tick)"
  by (simp add: fingerprint_at_def split: option.split)

lemma server_fold_fingerprints:
  "map_of (sv_fingerprints (foldl server_record v rs)) tick =
   (case map_of (sv_fingerprints v) tick of Some h \<Rightarrow> Some h | None \<Rightarrow> fingerprint_at rs tick)"
proof (induction rs arbitrary: v)
  case (Cons r rs)
  have "map_of (sv_fingerprints (server_record v r)) tick =
      (case map_of (sv_fingerprints v) tick of Some h \<Rightarrow> Some h | None \<Rightarrow> fingerprint_at [r] tick)"
    by (cases r) (auto simp: fingerprint_at_def map_of_bt_or_insert Let_def split: option.splits game_event.splits)
  then show ?case
    using Cons.IH [of "server_record v r"] fingerprint_at_Cons [of r rs tick] by (auto split: option.splits)
qed (simp add: fingerprint_at_def split: option.split)

lemma client_fold_fingerprints:
  "map_of (cv_fingerprints (foldl client_record v rs)) tick =
   (case map_of (cv_fingerprints v) tick of Some h \<Rightarrow> Some h | None \<Rightarrow> fingerprint_at rs tick)"
proof (induction rs arbitrary: v)
  case (Cons r rs)
  have "map_of (cv_fingerprints (client_record v r)) tick =
      (case map_of (cv_fingerprints v) tick of Some h \<Rightarrow> Some h | None \<Rightarrow> fingerprint_at [r] tick)"
    by (cases r) (auto simp: fingerprint_at_def map_of_bt_or_insert split: option.splits)
  then show ?case
    using Cons.IH [of "client_record v r"] fingerprint_at_Cons [of r rs tick] by (auto split: option.splits)
qed (simp add: fingerprint_at_def split: option.split)

lemma find_map_None: "find_map f xs = None \<longleftrightarrow> (\<forall>x \<in> set xs. f x = None)"
  by (induction xs) (auto split: option.split)

lemma find_map_SomeD: "find_map f xs = Some y \<Longrightarrow> \<exists>x \<in> set xs. f x = Some y"
  by (induction xs) (auto split: option.splits)

lemma server_fold_distinct:
  "sorted_wrt (<) (map fst (sv_fingerprints v)) \<Longrightarrow> distinct (map fst (sv_fingerprints (foldl server_record v rs)))"
proof (induction rs arbitrary: v)
  case (Cons r rs)
  have "sorted_wrt (<) (map fst (sv_fingerprints (server_record v r)))"
    using Cons.prems
    by (cases r) (auto simp: bt_or_insert_sorted Let_def split: game_event.splits option.splits)
  then show ?case
    by (simp add: Cons.IH)
qed (simp add: strict_sorted_iff)

lemma no_mismatch:
  assumes "first_mismatch (server_view_of server) (client_view_of client) = None"
    and "fingerprint_at server tick = Some h" and "fingerprint_at client tick = Some h'"
  shows "h = h'"
proof -
  have "map_of (sv_fingerprints (server_view_of server)) tick = Some h"
    and c: "map_of (cv_fingerprints (client_view_of client)) tick = Some h'"
    using assms(2,3) by (simp_all add: server_view_of_def client_view_of_def server_fold_fingerprints client_fold_fingerprints)
  then have "(tick, h) \<in> set (sv_fingerprints (server_view_of server))"
    by (simp add: map_of_SomeD)
  then show ?thesis
    using assms(1) c by (auto simp: first_mismatch_def find_map_None split: if_splits)
qed

lemma mismatch_found:
  assumes "first_mismatch (server_view_of server) (client_view_of client) = Some m"
  shows "fingerprint_at server (fm_tick m) = Some (fm_server_hash m) \<and>
    fingerprint_at client (fm_tick m) = Some (fm_client_hash m) \<and> fm_server_hash m \<noteq> fm_client_hash m"
proof -
  obtain tick h where h: "(tick, h) \<in> set (sv_fingerprints (server_view_of server))"
      "map_of (cv_fingerprints (client_view_of client)) tick = Some (fm_client_hash m)"
      "fm_client_hash m \<noteq> h" "fm_tick m = tick" "fm_server_hash m = h"
    using find_map_SomeD [OF assms [unfolded first_mismatch_def]] by (auto split: option.splits if_splits)
  have "distinct (map fst (sv_fingerprints (server_view_of server)))"
    using server_fold_distinct by (simp add: server_view_of_def)
  then have "map_of (sv_fingerprints (server_view_of server)) tick = Some h"
    using h(1) by simp
  then show ?thesis
    using h by (simp add: server_view_of_def client_view_of_def server_fold_fingerprints client_fold_fingerprints)
qed

lemma verdict_cases:
  "case verdict r of
     TRANSPORT_LOSS \<Rightarrow> missing_stream_seqs r \<noteq> []
   | ENGINE_NONDETERMINISM \<Rightarrow> first_fingerprint_mismatch r \<noteq> None
   | _ \<Rightarrow> missing_stream_seqs r = [] \<and> first_fingerprint_mismatch r = None"
  unfolding verdict_def Let_def
  by (cases "first_fingerprint_mismatch r"; cases "first_missing_seq_tick r"; simp split: if_splits)

lemma no_missing_ranges:
  "missing_stream_seqs (diff_traces server client) = [] \<longleftrightarrow> (\<nexists>seq. lost server client seq)"
proof -
  let ?m = "missing_seqs (server_view_of server) (client_view_of client)"
  have "seqs_to_ranges ?m = [] \<longleftrightarrow> ?m = []"
    using seqs_to_ranges_ok [OF missing_seqs_iff(2) [of server client]] by (auto simp: seqs_to_ranges_def)
  then have "missing_stream_seqs (diff_traces server client) = [] \<longleftrightarrow> set ?m = {}"
    by (simp add: diff_traces_def Let_def)
  moreover have "set ?m = {seq. lost server client seq}"
    by (simp add: set_eq_iff missing_seqs_iff(1))
  ultimately show ?thesis
    by simp
qed

end
