(* ===== verification/Partition_Assignment.thy ===== *)
theory Partition_Assignment
  imports Sorted_Map "HOL-Library.List_Lexorder" "HOL-Library.Char_ord" "HOL-Library.Product_Lexorder"
begin

text \<open>
  Desired placement of executor partitions, \<^verbatim>\<open>server/src/partition_assignment.rs\<close>, with the task
  memberships of \<^verbatim>\<open>server/src/cluster_membership.rs\<close> it is computed from. A boot identity is a
  string, and strings are ordered by their bytes. The balancing loop is a partial function; every
  \<open>expect\<close> of the source is a branch that panics.
\<close>

section \<open>Memberships\<close>

type_synonym boot_identity = string

datatype task_lifecycle = Warming | Active | Draining

record task_membership =
  tm_schema_version :: u16
  tm_boot_id :: boot_identity
  tm_server_id :: u64
  tm_ecs_task_id :: "string option"
  tm_task_definition :: "string option"
  tm_executor_protocol_version :: u16
  tm_lifecycle :: task_lifecycle
  tm_heartbeat_at_ms :: i64
  tm_expires_at_ms :: i64

abbreviation (input) MEMBERSHIP_SCHEMA_VERSION :: u16 where "MEMBERSHIP_SCHEMA_VERSION \<equiv> 2"
abbreviation (input) EXECUTOR_PROTOCOL_VERSION :: u16 where "EXECUTOR_PROTOCOL_VERSION \<equiv> 13"

definition i64_saturating_add :: "i64 \<Rightarrow> i64 \<Rightarrow> i64" where
  "i64_saturating_add a b = max (- (2 ^ 63)) (min (2 ^ 63 - 1) (a + b))"

text \<open>The lifetime is given in milliseconds.\<close>

definition task_membership_new ::
  "boot_identity \<Rightarrow> u64 \<Rightarrow> string option \<Rightarrow> string option \<Rightarrow> task_lifecycle \<Rightarrow> i64 \<Rightarrow> i64 \<Rightarrow> task_membership" where
  "task_membership_new boot_id server_id ecs_task_id task_definition lifecycle now_ms ttl_ms =
     \<lparr>tm_schema_version = MEMBERSHIP_SCHEMA_VERSION, tm_boot_id = boot_id, tm_server_id = server_id,
      tm_ecs_task_id = ecs_task_id, tm_task_definition = task_definition,
      tm_executor_protocol_version = EXECUTOR_PROTOCOL_VERSION, tm_lifecycle = lifecycle,
      tm_heartbeat_at_ms = now_ms, tm_expires_at_ms = i64_saturating_add now_ms ttl_ms\<rparr>"

definition is_assignment_eligible :: "task_membership \<Rightarrow> i64 \<Rightarrow> bool" where
  "is_assignment_eligible m now_ms \<longleftrightarrow>
     tm_lifecycle m = Active \<and> tm_expires_at_ms m > now_ms \<and>
     tm_executor_protocol_version m = EXECUTOR_PROTOCOL_VERSION"

section \<open>Assignment documents\<close>

type_synonym owner_map = "(u32 \<times> boot_identity) list"

record assignment_document =
  ad_schema_version :: u16
  ad_version :: u64
  ad_region :: string
  ad_computed_at_ms :: i64
  ad_eligible_members :: "boot_identity list"
  ad_owners :: owner_map

abbreviation (input) ASSIGNMENT_SCHEMA_VERSION :: u16 where "ASSIGNMENT_SCHEMA_VERSION \<equiv> 2"

definition desired_owner :: "assignment_document \<Rightarrow> u32 \<Rightarrow> boot_identity option" where
  "desired_owner d p = map_of (ad_owners d) p"

definition partitions :: "u32 \<Rightarrow> u32 list" where
  "partitions partition_count = map of_nat [0..<unat partition_count]"

definition count_owner :: "(boot_identity \<times> nat) list \<Rightarrow> boot_identity \<Rightarrow> (boot_identity \<times> nat) list" where
  "count_owner counts owner =
     (case map_of counts owner of Some n \<Rightarrow> bt_insert owner (Suc n) counts | None \<Rightarrow> counts)"

definition owner_counts :: "owner_map \<Rightarrow> boot_identity list \<Rightarrow> (boot_identity \<times> nat) list" where
  "owner_counts owners eligible =
     foldl count_owner (foldl (\<lambda>counts member. bt_insert member 0 counts) [] eligible) (map snd owners)"

definition min_count :: "(boot_identity \<times> nat) list \<Rightarrow> nat" where
  "min_count counts = Min (set (map snd counts))"

definition max_count :: "(boot_identity \<times> nat) list \<Rightarrow> nat" where
  "max_count counts = Max (set (map snd counts))"

definition check_owner :: "assignment_document \<Rightarrow> u32 \<Rightarrow> unit result" where
  "check_owner d p =
     (case map_of (ad_owners d) p of
        None \<Rightarrow> Inl (Err ''partition has no desired owner'')
      | Some owner \<Rightarrow>
          if owner \<notin> set (ad_eligible_members d)
          then Inl (Err ''partition is assigned to an ineligible task'') else Inr ())"

definition assignment_validate :: "assignment_document \<Rightarrow> u32 \<Rightarrow> unit result" where
  "assignment_validate d partition_count =
     (if ad_schema_version d \<noteq> ASSIGNMENT_SCHEMA_VERSION
      then Inl (Err ''unsupported assignment schema version'')
      else if length (remdups (ad_eligible_members d)) \<noteq> length (ad_eligible_members d)
      then Inl (Err ''assignment contains duplicate eligible members'')
      else if ad_eligible_members d = []
      then if ad_owners d \<noteq> [] then Inl (Err ''assignment without eligible members must not have owners'') else Inr ()
      else try_then (check_all (check_owner d) (partitions partition_count)) (\<lambda>_.
        if list_ex (\<lambda>(p, _). p \<ge> partition_count) (ad_owners d)
        then Inl (Err ''assignment contains an out-of-range partition'')
        else
          let counts = owner_counts (ad_owners d) (ad_eligible_members d)
          in if counts \<noteq> [] \<and> max_count counts - min_count counts > 1
             then Inl (Err ''assignment owner counts differ by more than one'') else Inr ()))"

section \<open>Placement\<close>

text \<open>The member with the least count, and among these the first in the order of members.\<close>

definition least_loaded :: "(boot_identity \<times> nat) list \<Rightarrow> boot_identity result" where
  "least_loaded counts =
     (case counts of
        [] \<Rightarrow> Inl (Panic ''eligible is non-empty'')
      | c # cs \<Rightarrow>
          Inr (fst (foldl (\<lambda>best x. if (snd x, fst x) < (snd best, fst best) then x else best) c cs)))"

definition assign_orphan :: "boot_identity list \<Rightarrow> u32 \<Rightarrow> owner_map \<Rightarrow> owner_map result" where
  "assign_orphan eligible p owners =
     (if map_of owners p \<noteq> None then Inr owners
      else try_then (least_loaded (owner_counts owners eligible)) (\<lambda>target.
        Inr (bt_insert p target owners)))"

text \<open>One move: from the last member with the greatest count, its last partition, to the first with the least.\<close>

definition last_or_panic :: "string \<Rightarrow> 'a list \<Rightarrow> 'a result" where
  "last_or_panic message xs = (if xs = [] then Inl (Panic message) else Inr (last xs))"

definition move_one :: "(boot_identity \<times> nat) list \<Rightarrow> owner_map \<Rightarrow> owner_map result" where
  "move_one counts owners =
     try_then (last_or_panic ''max owner exists'' (map fst (filter (\<lambda>(_, count). count = max_count counts) counts)))
       (\<lambda>donor.
     try_then (case find (\<lambda>(_, count). count = min_count counts) counts of
         Some (member, _) \<Rightarrow> Inr member | None \<Rightarrow> Inl (Panic ''min owner exists'')) (\<lambda>recipient.
     try_then (last_or_panic ''donor owns a partition'' (map fst (filter (\<lambda>(_, owner). owner = donor) owners)))
       (\<lambda>p. Inr (bt_insert p recipient owners))))"

partial_function (option) rebalance :: "boot_identity list \<Rightarrow> owner_map \<Rightarrow> owner_map result option" where
  "rebalance eligible owners =
     (let counts = owner_counts owners eligible
      in if counts = [] then Some (Inl (Panic ''eligible is non-empty''))
         else if max_count counts - min_count counts \<le> 1 then Some (Inr owners)
         else case move_one counts owners of
                Inl e \<Rightarrow> Some (Inl e)
              | Inr owners' \<Rightarrow> rebalance eligible owners')"

definition retained :: "u32 \<Rightarrow> assignment_document option \<Rightarrow> boot_identity list \<Rightarrow> owner_map" where
  "retained partition_count previous eligible =
     (case previous of
        Some document \<Rightarrow>
          filter (\<lambda>(p, owner). p < partition_count \<and> owner \<in> set eligible) (ad_owners document)
      | None \<Rightarrow> [])"

definition place :: "u32 \<Rightarrow> boot_identity list \<Rightarrow> owner_map \<Rightarrow> owner_map result option" where
  "place partition_count eligible owners =
     (if eligible = [] then Some (Inr owners)
      else case fold_result (assign_orphan eligible) (partitions partition_count) owners of
             Inl e \<Rightarrow> Some (Inl e)
           | Inr owners' \<Rightarrow> rebalance eligible owners')"

definition balanced_minimal_movement ::
  "u32 \<Rightarrow> assignment_document option \<Rightarrow> boot_identity list \<Rightarrow> string \<Rightarrow> u64 \<Rightarrow> i64 \<Rightarrow> assignment_document result option"
where
  "balanced_minimal_movement partition_count previous members region version now_ms =
     (let eligible = sorted_list_of_set (set members)
      in map_option (\<lambda>r. try_then r (\<lambda>owners. Inr
           \<lparr>ad_schema_version = ASSIGNMENT_SCHEMA_VERSION, ad_version = version, ad_region = region,
            ad_computed_at_ms = now_ms, ad_eligible_members = eligible, ad_owners = owners\<rparr>))
         (place partition_count eligible (retained partition_count previous eligible)))"

end
