(* ===== verification/Placement_Laws.thy ===== *)
theory Placement_Laws
  imports Partition_Assignment
begin

text \<open>
  What placement guarantees. The computation returns, its document passes its own validator, and it
  moves as few partitions as any balanced placement on the same members can. The argument is about
  maps from partitions to members; the owner lists of the model refine them.
\<close>

section \<open>Placements as maps\<close>

definition held :: "('p \<Rightarrow> 'm option) \<Rightarrow> 'm \<Rightarrow> 'p set" where
  "held f m = {p. f p = Some m}"

definition load :: "('p \<Rightarrow> 'm option) \<Rightarrow> 'm \<Rightarrow> nat" where
  "load f m = card (held f m)"

text \<open>Members that took over partitions, and members that gave some away, since \<open>keep\<close>.\<close>

definition took :: "('p \<Rightarrow> 'm option) \<Rightarrow> ('p \<Rightarrow> 'm option) \<Rightarrow> 'm \<Rightarrow> bool" where
  "took keep f m \<longleftrightarrow> \<not> held f m \<subseteq> held keep m"

definition gave :: "('p \<Rightarrow> 'm option) \<Rightarrow> ('p \<Rightarrow> 'm option) \<Rightarrow> 'm \<Rightarrow> bool" where
  "gave keep f m \<longleftrightarrow> \<not> held keep m \<subseteq> held f m"

text \<open>
  The invariant of both loops: nobody both takes and gives, a taker is among the least loaded and a
  giver among the most loaded up to one, and no taker has more than a giver.
\<close>

definition fair :: "('p \<Rightarrow> 'm option) \<Rightarrow> 'm set \<Rightarrow> ('p \<Rightarrow> 'm option) \<Rightarrow> bool" where
  "fair keep E f \<longleftrightarrow>
     (\<forall>m \<in> E. \<not> (took keep f m \<and> gave keep f m)) \<and>
     (\<forall>g \<in> E. \<forall>m \<in> E. took keep f g \<longrightarrow> load f g \<le> load f m + 1) \<and>
     (\<forall>d \<in> E. \<forall>m \<in> E. gave keep f d \<longrightarrow> load f m \<le> load f d + 1) \<and>
     (\<forall>g \<in> E. \<forall>d \<in> E. took keep f g \<longrightarrow> gave keep f d \<longrightarrow> load f g \<le> load f d)"

lemma fairD:
  assumes "fair keep E f"
  shows "m \<in> E \<Longrightarrow> took keep f m \<Longrightarrow> \<not> gave keep f m"
    and "g \<in> E \<Longrightarrow> m \<in> E \<Longrightarrow> took keep f g \<Longrightarrow> load f g \<le> load f m + 1"
    and "d \<in> E \<Longrightarrow> m \<in> E \<Longrightarrow> gave keep f d \<Longrightarrow> load f m \<le> load f d + 1"
    and "g \<in> E \<Longrightarrow> d \<in> E \<Longrightarrow> took keep f g \<Longrightarrow> gave keep f d \<Longrightarrow> load f g \<le> load f d"
  using assms by (simp_all add: fair_def)

lemma held_upd:
  "held (f(p \<mapsto> t)) m = (if m = t then insert p (held f m) else held f m - {p})"
  by (auto simp: held_def)

lemma load_fill:
  fixes f :: "'p::finite \<Rightarrow> 'm option"
  assumes "f p = None"
  shows "load (f(p \<mapsto> t)) m = (if m = t then load f m + 1 else load f m)"
proof -
  have "p \<notin> held f m"
    using assms by (simp add: held_def)
  then show ?thesis
    by (auto simp: load_def held_upd)
qed

lemma load_move:
  fixes f :: "'p::finite \<Rightarrow> 'm option"
  assumes "f p = Some d" and "d \<noteq> r"
  shows "load (f(p \<mapsto> r)) m = (if m = d then load f d - 1 else if m = r then load f r + 1 else load f m)"
proof -
  have "p \<in> held f m \<longleftrightarrow> m = d"
    using assms(1) by (auto simp: held_def)
  then show ?thesis
    using assms(2) by (auto simp: load_def held_upd card_Diff_singleton)
qed

lemma load_fill_ge: "f p = None \<Longrightarrow> load f m \<le> load (f(p \<mapsto> t)) m" for f :: "'p::finite \<Rightarrow> 'm option"
  by (simp add: load_fill)

lemma fair_start: "fair keep E keep"
  by (simp add: fair_def took_def gave_def)

lemma fair_fill:
  fixes f :: "'p::finite \<Rightarrow> 'm option"
  assumes fair: "fair keep E f" and all: "\<forall>m. \<not> gave keep f m" and new: "f p = None"
    and least: "t \<in> E" "\<forall>m \<in> E. load f t \<le> load f m"
  shows "fair keep E (f(p \<mapsto> t)) \<and> (\<forall>m. \<not> gave keep (f(p \<mapsto> t)) m)"
proof -
  have none: "\<not> gave keep (f(p \<mapsto> t)) m" for m
    using all [THEN spec, of m] new by (auto simp: gave_def held_upd held_def)
  have took: "took keep f g" if "took keep (f(p \<mapsto> t)) g" "g \<noteq> t" for g
    using that by (auto simp: took_def held_upd)
  have "load (f(p \<mapsto> t)) g \<le> load (f(p \<mapsto> t)) m + 1"
    if g: "g \<in> E" "m \<in> E" "took keep (f(p \<mapsto> t)) g" for g m
  proof (cases "g = t")
    case True
    then show ?thesis
      using g(2) least(2) new by (auto simp: load_fill)
  next
    case False
    then show ?thesis
      using fairD(2) [OF fair g(1,2) took [OF g(3)]] new by (auto simp: load_fill)
  qed
  then show ?thesis
    using none by (simp add: fair_def)
qed

lemma fair_move:
  fixes f :: "'p::finite \<Rightarrow> 'm option"
  assumes fair: "fair keep E f" and p: "f p = Some d" and d: "d \<in> E" "\<forall>m \<in> E. load f m \<le> load f d"
    and r: "r \<in> E" "\<forall>m \<in> E. load f r \<le> load f m" and gap: "load f r + 2 \<le> load f d"
  shows "fair keep E (f(p \<mapsto> r)) \<and> keep p = Some d"
proof -
  let ?f = "f(p \<mapsto> r)"
  have ne: "d \<noteq> r"
    using gap by auto
  note l = load_move [where f = f and p = p and d = d and r = r, OF p ne]
  have not_took: "\<not> took keep f d"
    using fairD(2) [OF fair d(1) r(1)] gap by linarith
  have not_gave: "\<not> gave keep f r"
    using fairD(3) [OF fair r(1) d(1)] gap by linarith
  have took: "took keep f g" if "took keep ?f g" "g \<noteq> r" for g
    using that by (auto simp: took_def held_upd)
  have gave: "gave keep f g" if "gave keep ?f g" "g \<noteq> d" for g
    using that p by (auto simp: gave_def held_upd held_def split: if_splits)
  have r_clean: "\<not> gave keep ?f r"
    using not_gave by (auto simp: gave_def held_upd)
  have d_clean: "\<not> took keep ?f d"
    using not_took ne by (auto simp: took_def held_upd)
  have 1: "\<not> (took keep ?f m \<and> gave keep ?f m)" if "m \<in> E" for m
    using that fairD(1) [OF fair that] took gave r_clean d_clean by metis
  have 2: "load ?f g \<le> load ?f m + 1" if "g \<in> E" "m \<in> E" "took keep ?f g" for g m
    using that fairD(2) [OF fair, of g m] fairD(2) [OF fair, of g r] took [of g] d_clean r d gap
    by (cases "g = r"; cases "m = d"; cases "m = r"; cases "g = d"; force simp: l)
  have 3: "load ?f m \<le> load ?f e + 1" if "e \<in> E" "m \<in> E" "gave keep ?f e" for e m
    using that fairD(3) [OF fair, of e m] fairD(3) [OF fair, of e d] gave [of e] r_clean r d gap
    by (cases "e = d"; cases "m = d"; cases "m = r"; cases "e = r"; force simp: l)
  have 4: "load ?f g \<le> load ?f e" if "g \<in> E" "e \<in> E" "took keep ?f g" "gave keep ?f e" for g e
    using that fairD(2) [OF fair, of g r] fairD(3) [OF fair, of e d] fairD(4) [OF fair, of g e] took [of g] gave [of e]
      r_clean d_clean r d gap
    by (cases "e = d"; cases "g = r"; cases "e = r"; cases "g = d"; force simp: l)
  have "keep p = Some d"
    using not_took p by (auto simp: took_def held_def)
  then show ?thesis
    using 1 2 3 4 by (simp add: fair_def)
qed

section \<open>Few moves\<close>

text \<open>Two balanced loads with the same sum stay within the same two levels.\<close>

lemma balanced_levels:
  fixes a e :: "'m \<Rightarrow> nat"
  assumes "finite E" and "sum e E = sum a E"
    and "\<forall>x \<in> E. \<forall>y \<in> E. e x \<le> e y + 1" and "\<forall>x \<in> E. \<forall>y \<in> E. a x \<le> a y + 1"
    and "l \<in> E" "\<forall>x \<in> E. e l \<le> e x" and "x \<in> E"
  shows "e l \<le> a x \<and> a x \<le> e l + 1"
proof (intro conjI; rule ccontr)
  assume low: "\<not> e l \<le> a x"
  have "a y \<le> e y" if "y \<in> E" for y
    using low bspec [OF bspec [OF assms(4) that] assms(7)] bspec [OF assms(6) that] by linarith
  moreover have "a x < e x"
    using low bspec [OF assms(6,7)] by linarith
  ultimately have "a x < e x" "\<forall>y \<in> E. a y \<le> e y"
    by blast+
  then have "sum a E < sum e E"
    using assms(1,7) by (intro sum_strict_mono_ex1) auto
  then show False
    using assms(2) by simp
next
  assume high: "\<not> a x \<le> e l + 1"
  have "e y \<le> a y" if "y \<in> E" for y
    using high bspec [OF bspec [OF assms(4,7)] that] bspec [OF bspec [OF assms(3) that] assms(5)] by linarith
  moreover have "e x < a x"
    using high bspec [OF bspec [OF assms(3,7)] assms(5)] by linarith
  ultimately have "e x < a x" "\<forall>y \<in> E. e y \<le> a y"
    by blast+
  then have "sum e E < sum a E"
    using assms(1,7) by (intro sum_strict_mono_ex1) auto
  then show False
    using assms(2) by simp
qed

lemma balanced_keeps_most:
  fixes a c e :: "'m \<Rightarrow> nat"
  assumes E: "finite E" and sum: "sum e E = sum a E"
    and e: "\<forall>x \<in> E. \<forall>y \<in> E. e x \<le> e y + 1" and a: "\<forall>x \<in> E. \<forall>y \<in> E. a x \<le> a y + 1"
    and pairs: "\<forall>g \<in> E. \<forall>d \<in> E. c g < e g \<longrightarrow> e d < c d \<longrightarrow> e g \<le> e d"
  shows "(\<Sum>m\<in>E. min (c m) (a m)) \<le> (\<Sum>m\<in>E. min (c m) (e m))"
proof (cases "E = {}")
  case False
  then obtain l where l: "l \<in> E" "\<forall>x \<in> E. e l \<le> e x"
    using ex_has_least_nat [of "\<lambda>x. x \<in> E" _ e] by blast
  have lev: "e l \<le> a x" "a x \<le> e l + 1" if "x \<in> E" for x
    using balanced_levels [OF E sum e a l that] by simp_all
  show ?thesis
  proof (cases "\<exists>d \<in> E. e d < c d \<and> e d = e l")
    case True
    then have low: "e g \<le> e l" if "g \<in> E" "c g < e g" for g
      using pairs that by metis
    have "(\<Sum>m\<in>E. e m - c m) \<le> (\<Sum>m\<in>E. a m - c m)"
    proof (rule sum_mono)
      fix m
      assume "m \<in> E"
      then show "e m - c m \<le> a m - c m"
        using low [of m] lev(1) [of m] by (cases "c m < e m") auto
    qed
    moreover have "(\<Sum>m\<in>E. min (c m) (h m)) = sum h E - (\<Sum>m\<in>E. h m - c m)" for h :: "'m \<Rightarrow> nat"
    proof -
      have "(\<Sum>m\<in>E. min (c m) (h m)) = (\<Sum>m\<in>E. h m - (h m - c m))"
        by (intro sum.cong) auto
      also have "\<dots> = sum h E - (\<Sum>m\<in>E. h m - c m)"
        by (rule sum_subtractf_nat) simp
      finally show ?thesis .
    qed
    ultimately show ?thesis
      using sum by simp
  next
    case False
    then have high: "e l + 1 \<le> e d" if "d \<in> E" "e d < c d" for d
      using that bspec [OF l(2) that(1)] by fastforce
    show ?thesis
    proof (rule sum_mono)
      fix m
      assume "m \<in> E"
      then show "min (c m) (a m) \<le> min (c m) (e m)"
        using high [of m] lev(2) [of m] by (cases "e m < c m") auto
    qed
  qed
qed simp

lemma sum_loads:
  fixes f :: "'p::finite \<Rightarrow> 'm option"
  assumes "finite E" and "ran f \<subseteq> E"
  shows "(\<Sum>m\<in>E. load f m) = card (dom f)"
proof -
  have "dom f = (\<Union>m\<in>E. held f m)"
    using assms(2) ranI [of f] by (fastforce simp: held_def)
  moreover have "card (\<Union>m\<in>E. held f m) = (\<Sum>m\<in>E. card (held f m))"
    using assms(1) by (intro card_UN_disjoint) (auto simp: held_def)
  ultimately show ?thesis
    by (simp add: load_def)
qed

definition kept :: "('p \<Rightarrow> 'm option) \<Rightarrow> ('p \<Rightarrow> 'm option) \<Rightarrow> 'p set" where
  "kept keep f = {p. keep p \<noteq> None \<and> f p = keep p}"

lemma card_kept:
  fixes f :: "'p::finite \<Rightarrow> 'm option"
  assumes "finite E" and "ran f \<subseteq> E"
  shows "card (kept keep f) = (\<Sum>m\<in>E. card (held keep m \<inter> held f m))"
proof -
  have "kept keep f = (\<Union>m\<in>E. held keep m \<inter> held f m)"
    using assms(2) ranI [of f] by (fastforce simp: kept_def held_def)
  moreover have "card (\<Union>m\<in>E. held keep m \<inter> held f m) = (\<Sum>m\<in>E. card (held keep m \<inter> held f m))"
    using assms(1) by (intro card_UN_disjoint) (auto simp: held_def)
  ultimately show ?thesis
    by simp
qed

text \<open>A fair and balanced placement keeps at least as much as any balanced placement of the same partitions.\<close>

lemma fair_keeps_most:
  fixes f a :: "'p::finite \<Rightarrow> 'm option"
  assumes E: "finite E" "ran f \<subseteq> E" "ran a \<subseteq> E" and dom: "dom f = dom a" and fair: "fair keep E f"
    and f: "\<forall>x \<in> E. \<forall>y \<in> E. load f x \<le> load f y + 1" and a: "\<forall>x \<in> E. \<forall>y \<in> E. load a x \<le> load a y + 1"
  shows "card (kept keep a) \<le> card (kept keep f)"
proof -
  have inter: "card (held keep m \<inter> held f m) = min (load keep m) (load f m)" if "m \<in> E" for m
  proof (cases "held keep m \<subseteq> held f m")
    case True
    then show ?thesis
      by (simp add: load_def Int_absorb2 card_mono)
  next
    case False
    then have "held f m \<subseteq> held keep m"
      using fairD(1) [OF fair that] by (auto simp: took_def gave_def)
    then show ?thesis
      by (simp add: load_def Int_absorb1 card_mono)
  qed
  have pairs: "\<forall>g \<in> E. \<forall>d \<in> E. load keep g < load f g \<longrightarrow> load f d < load keep d \<longrightarrow> load f g \<le> load f d"
  proof (intro ballI impI)
    fix g d
    assume gd: "g \<in> E" "d \<in> E" "load keep g < load f g" "load f d < load keep d"
    then have "took keep f g" "gave keep f d"
      using card_mono [of "held keep g" "held f g"] card_mono [of "held f d" "held keep d"]
      by (auto simp: took_def gave_def load_def)
    then show "load f g \<le> load f d"
      by (rule fairD(4) [OF fair gd(1,2)])
  qed
  have "card (kept keep a) \<le> (\<Sum>m\<in>E. min (load keep m) (load a m))"
    unfolding card_kept [OF E(1,3)] by (intro sum_mono) (simp add: load_def card_mono)
  also have "\<dots> \<le> (\<Sum>m\<in>E. min (load keep m) (load f m))"
    using balanced_keeps_most [OF E(1) _ f a pairs] sum_loads [OF E(1,2)] sum_loads [OF E(1,3)] dom by simp
  also have "\<dots> = card (kept keep f)"
    unfolding card_kept [OF E(1,2)] by (intro sum.cong) (simp_all add: inter)
  finally show ?thesis .
qed

section \<open>The owner lists\<close>

lemma zero_counts:
  "map_of (foldl (\<lambda>counts member. bt_insert member 0 counts) counts ms) x =
     (if x \<in> set ms then Some 0 else map_of counts x)"
  by (induction ms arbitrary: counts) (auto simp: map_of_bt_insert)

lemma added_counts: "map_of (foldl count_owner counts os) x = map_option (\<lambda>n. n + count_list os x) (map_of counts x)"
proof (induction os arbitrary: counts)
  case (Cons o' os)
  then show ?case
    by (cases "map_of counts x") (auto simp: count_owner_def map_of_bt_insert split: option.split)
qed (simp add: option.map_id0 id_def [symmetric])

lemma counts_sorted: "bt_sorted (owner_counts owners eligible)"
proof -
  have "bt_sorted counts \<Longrightarrow> bt_sorted (foldl (\<lambda>counts member. bt_insert member 0 counts) counts ms)"
    for counts :: "(boot_identity \<times> nat) list" and ms
    by (induction ms arbitrary: counts) (simp_all add: bt_insert_sorted)
  moreover have "bt_sorted counts \<Longrightarrow> bt_sorted (foldl count_owner counts os)" for counts os
    by (induction os arbitrary: counts) (simp_all add: count_owner_def bt_insert_sorted split: option.split)
  ultimately show ?thesis
    by (simp add: owner_counts_def)
qed

lemma count_is_load: "bt_sorted owners \<Longrightarrow> count_list (map snd owners) m = load (map_of owners) m"
  for owners :: owner_map
proof (induction owners)
  case (Cons po owners)
  have "map_of owners (fst po) = None"
    using Cons.prems by (auto simp: map_of_eq_None_iff)
  then show ?case
    using Cons load_fill [of "map_of owners" "fst po" "snd po" m] by (cases po) (auto simp: fun_upd_def)
qed (simp add: load_def held_def)

lemma owner_counts_eq:
  assumes "bt_sorted owners"
  shows "owner_counts owners eligible =
    map (\<lambda>m. (m, load (map_of owners) m)) (sorted_list_of_set (set eligible))"
proof (rule bt_sorted_ext [OF counts_sorted])
  show "bt_sorted (map (\<lambda>m. (m, load (map_of owners) m)) (sorted_list_of_set (set eligible)))"
    by (simp add: comp_def)
  show "map_of (owner_counts owners eligible) =
      map_of (map (\<lambda>m. (m, load (map_of owners) m)) (sorted_list_of_set (set eligible)))"
    using assms by (auto simp: owner_counts_def added_counts zero_counts count_is_load map_of_map_restrict restrict_map_def)
qed

lemma counts_mem:
  assumes "bt_sorted owners"
  shows "(m, n) \<in> set (owner_counts owners eligible) \<longleftrightarrow> m \<in> set eligible \<and> n = load (map_of owners) m"
  using assms by (auto simp: owner_counts_eq)

lemma counts_empty: "bt_sorted owners \<Longrightarrow> owner_counts owners eligible = [] \<longleftrightarrow> eligible = []"
  by (simp add: owner_counts_eq)

lemma extreme_counts:
  assumes "bt_sorted owners" and "eligible \<noteq> []"
  shows "max_count (owner_counts owners eligible) = Max (load (map_of owners) ` set eligible)"
    and "min_count (owner_counts owners eligible) = Min (load (map_of owners) ` set eligible)"
  using assms by (simp_all add: max_count_def min_count_def owner_counts_eq image_image)

lemma foldl_least:
  fixes key :: "'a \<Rightarrow> 'k::linorder"
  defines "pick \<equiv> \<lambda>best x. if key x < key best then x else best"
  shows "foldl pick c cs \<in> set (c # cs) \<and> (\<forall>x \<in> set (c # cs). key (foldl pick c cs) \<le> key x)"
proof (induction cs arbitrary: c)
  case (Cons x cs)
  have "key (pick c x) \<le> key c" "key (pick c x) \<le> key x" "pick c x \<in> {c, x}"
    by (auto simp: pick_def)
  then show ?case
    using Cons.IH [of "pick c x"] by (auto intro: order_trans)
qed simp

lemma least_loaded_spec:
  assumes "bt_sorted owners" and "eligible \<noteq> []"
  shows "\<exists>t \<in> set eligible. least_loaded (owner_counts owners eligible) = Inr t \<and>
    (\<forall>m \<in> set eligible. load (map_of owners) t \<le> load (map_of owners) m)"
proof -
  obtain c cs where c: "owner_counts owners eligible = c # cs"
    using counts_empty [OF assms(1)] assms(2) by (meson neq_Nil_conv)
  define b where "b = foldl (\<lambda>best x. if (snd x, fst x) < (snd best, fst best) then x else best) c cs"
  have b: "b \<in> set (c # cs)" "\<And>x. x \<in> set (c # cs) \<Longrightarrow> (snd b, fst b) \<le> (snd x, fst x)"
    using foldl_least [of "\<lambda>x. (snd x, fst x)" c cs] unfolding b_def by blast+
  have t: "fst b \<in> set eligible" "snd b = load (map_of owners) (fst b)"
    using b(1) counts_mem [OF assms(1), of "fst b" "snd b" eligible] c by simp_all
  have "snd b \<le> load (map_of owners) m" if "m \<in> set eligible" for m
    using b(2) [of "(m, load (map_of owners) m)"] counts_mem [OF assms(1), of m _ eligible] that c
    by (auto simp: less_eq_prod_def)
  moreover have "least_loaded (owner_counts owners eligible) = Inr (fst b)"
    by (simp add: least_loaded_def c b_def)
  ultimately show ?thesis
    using t by auto
qed

section \<open>The two loops\<close>

definition owned :: "u32 \<Rightarrow> boot_identity list \<Rightarrow> owner_map \<Rightarrow> bool" where
  "owned n eligible owners \<longleftrightarrow>
     bt_sorted owners \<and> dom (map_of owners) \<subseteq> {p. p < n} \<and> ran (map_of owners) \<subseteq> set eligible"

definition balanced :: "'m set \<Rightarrow> ('p \<Rightarrow> 'm option) \<Rightarrow> bool" where
  "balanced E f \<longleftrightarrow> (\<forall>x \<in> E. \<forall>y \<in> E. load f x \<le> load f y + 1)"

lemma set_partitions: "set (partitions n) = {p. p < n}"
proof -
  have "of_nat i < n" if "i < unat n" for i
    using that unsigned_less [of n] by (simp add: word_less_nat_alt unat_of_nat)
  moreover have "\<exists>i < unat n. p = of_nat i" if "p < n" for p
    using that by (intro exI [of _ "unat p"]) (simp add: word_less_nat_alt)
  ultimately show ?thesis
    by (force simp: partitions_def image_iff)
qed

lemma owned_insert:
  assumes "owned n eligible owners" and "p < n" and "t \<in> set eligible"
  shows "owned n eligible (bt_insert p t owners) \<and> map_of (bt_insert p t owners) = (map_of owners)(p \<mapsto> t)"
proof -
  have "map_of (bt_insert p t owners) = (map_of owners)(p \<mapsto> t)"
    by (auto simp: map_of_bt_insert)
  then show ?thesis
    using assms by (auto simp: owned_def bt_insert_sorted ran_def split: if_splits)
qed

lemma fill_step:
  assumes owned: "owned n eligible owners" and p: "p < n" and ne: "eligible \<noteq> []"
    and fair: "fair keep (set eligible) (map_of owners)" and all: "\<forall>m. \<not> gave keep (map_of owners) m"
  shows "\<exists>o'. assign_orphan eligible p owners = Inr o' \<and> owned n eligible o' \<and> p \<in> dom (map_of o') \<and>
    dom (map_of owners) \<subseteq> dom (map_of o') \<and>
    fair keep (set eligible) (map_of o') \<and> (\<forall>m. \<not> gave keep (map_of o') m)"
proof (cases "map_of owners p")
  case None
  have "bt_sorted owners"
    using owned by (simp add: owned_def)
  then obtain t where t: "t \<in> set eligible" "least_loaded (owner_counts owners eligible) = Inr t"
      "\<forall>m \<in> set eligible. load (map_of owners) t \<le> load (map_of owners) m"
    using least_loaded_spec ne by blast
  note ins = owned_insert [OF owned p t(1)]
  have "assign_orphan eligible p owners = Inr (bt_insert p t owners)"
    using None t(2) by (simp add: assign_orphan_def try_then_def)
  then show ?thesis
    using ins fair_fill [OF fair all None t(1,3)] by auto
next
  case (Some m)
  then show ?thesis
    using assms by (auto simp: assign_orphan_def)
qed

lemma fill_all:
  assumes "owned n eligible owners" and "set ps \<subseteq> {p. p < n}" and "eligible \<noteq> []"
    and "fair keep (set eligible) (map_of owners)" and "\<forall>m. \<not> gave keep (map_of owners) m"
  shows "\<exists>o'. fold_result (assign_orphan eligible) ps owners = Inr o' \<and> owned n eligible o' \<and>
    set ps \<union> dom (map_of owners) \<subseteq> dom (map_of o') \<and> fair keep (set eligible) (map_of o')"
  using assms
proof (induction ps arbitrary: owners)
  case (Cons p ps)
  have "p < n" "set ps \<subseteq> {p. p < n}"
    using Cons.prems(2) by auto
  then obtain o1 where o1: "assign_orphan eligible p owners = Inr o1" "owned n eligible o1" "p \<in> dom (map_of o1)"
      "dom (map_of owners) \<subseteq> dom (map_of o1)" "fair keep (set eligible) (map_of o1)" "\<forall>m. \<not> gave keep (map_of o1) m"
    using fill_step [OF Cons.prems(1) _ Cons.prems(3-5)] by blast
  obtain o2 where "fold_result (assign_orphan eligible) ps o1 = Inr o2" "owned n eligible o2"
      "set ps \<union> dom (map_of o1) \<subseteq> dom (map_of o2)" "fair keep (set eligible) (map_of o2)"
    using Cons.IH [OF o1(2) \<open>set ps \<subseteq> {p. p < n}\<close> Cons.prems(3) o1(5,6)] by blast
  moreover have "set (p # ps) \<union> dom (map_of owners) \<subseteq> set ps \<union> dom (map_of o1)"
    using o1(3,4) by auto
  moreover have "fold_result (assign_orphan eligible) (p # ps) owners = fold_result (assign_orphan eligible) ps o1"
    using o1(1) by (simp add: try_then_def)
  ultimately show ?case
    by (metis (no_types, lifting) subset_trans)
qed simp

lemma last_or_panic_mem: "xs \<noteq> [] \<Longrightarrow> \<exists>x \<in> set xs. last_or_panic msg xs = Inr x"
  by (simp add: last_or_panic_def)

lemma keys_with_value: "set (map fst (filter (\<lambda>(_, w). w = v) xs)) = {k. (k, v) \<in> set xs}"
  by force

lemma max_donor:
  assumes "bt_sorted owners" and "eligible \<noteq> []"
  defines "c \<equiv> owner_counts owners eligible"
  shows "\<exists>d \<in> set eligible. load (map_of owners) d = max_count c \<and>
    last_or_panic msg (map fst (filter (\<lambda>(_, count). count = max_count c) c)) = Inr d"
proof -
  let ?xs = "map fst (filter (\<lambda>(_, count). count = max_count c) c)"
  have "set ?xs = {m. (m, max_count c) \<in> set c}"
    by (rule keys_with_value)
  also have "\<dots> = {m \<in> set eligible. load (map_of owners) m = max_count c}"
    unfolding c_def counts_mem [OF assms(1)] by auto
  finally have xs: "set ?xs = {m \<in> set eligible. load (map_of owners) m = max_count c}" .
  have "max_count c \<in> load (map_of owners) ` set eligible"
    unfolding c_def extreme_counts(1) [OF assms(1,2)] using assms(2) by (intro Max_in) auto
  then obtain m where "max_count c = load (map_of owners) m" "m \<in> set eligible"
    by (rule imageE)
  then have "m \<in> set ?xs"
    unfolding xs by simp
  then have "?xs \<noteq> []"
    by (rule list.set_cases) simp_all
  from last_or_panic_mem [OF this, of msg] obtain d where d: "d \<in> set ?xs" "last_or_panic msg ?xs = Inr d"
    by (rule bexE)
  have "d \<in> set eligible" "load (map_of owners) d = max_count c"
    using d(1) unfolding xs by simp_all
  then show ?thesis
    using d(2) by (intro bexI [of _ d] conjI)
qed

lemma min_recipient:
  assumes "bt_sorted owners" and "eligible \<noteq> []"
  defines "c \<equiv> owner_counts owners eligible"
  shows "\<exists>r \<in> set eligible. load (map_of owners) r = min_count c \<and>
    find (\<lambda>(_, count). count = min_count c) c = Some (r, min_count c)"
proof -
  have "min_count c \<in> load (map_of owners) ` set eligible"
    unfolding c_def extreme_counts(2) [OF assms(1,2)] using assms(2) by (intro Min_in) auto
  then obtain r where "min_count c = load (map_of owners) r" "r \<in> set eligible"
    by (rule imageE)
  then have "(r, min_count c) \<in> set c"
    using counts_mem [OF assms(1), of r _ eligible] by (simp add: c_def)
  then obtain x where x: "find (\<lambda>(_, count). count = min_count c) c = Some x"
    by (cases "find (\<lambda>(_, count). count = min_count c) c") (auto simp: find_None_iff)
  then have "x \<in> set c" "snd x = min_count c"
    by (auto simp: find_Some_iff case_prod_beta)
  moreover from this have "fst x \<in> set eligible" "load (map_of owners) (fst x) = snd x"
    using counts_mem [OF assms(1), of "fst x" "snd x" eligible] by (metis c_def prod.collapse)+
  ultimately show ?thesis
    using x by (metis prod.collapse)
qed

lemma donated_partition:
  assumes "bt_sorted owners" and "load (map_of owners) d \<noteq> 0"
  shows "\<exists>p. map_of owners p = Some d \<and>
    last_or_panic msg (map fst (filter (\<lambda>(_, owner). owner = d) owners)) = Inr p"
proof -
  let ?xs = "map fst (filter (\<lambda>(_, owner). owner = d) owners)"
  have "set ?xs = {p. (p, d) \<in> set owners}"
    by (rule keys_with_value)
  also have "\<dots> = {p. map_of owners p = Some d}"
    using bt_sorted_distinct [OF assms(1)] by simp
  finally have xs: "set ?xs = {p. map_of owners p = Some d}" .
  moreover have "{p. map_of owners p = Some d} \<noteq> {}"
    using assms(2) unfolding load_def held_def by (metis card.empty)
  ultimately have "?xs \<noteq> []"
    by (metis empty_set)
  from last_or_panic_mem [OF this, of msg] obtain p where p: "p \<in> set ?xs" "last_or_panic msg ?xs = Inr p"
    by (rule bexE)
  have "map_of owners p = Some d"
    using p(1) unfolding xs by simp
  then show ?thesis
    using p(2) by (intro exI [of _ p] conjI)
qed

lemma move_step:
  assumes owned: "owned n eligible owners" and ne: "eligible \<noteq> []"
    and gap: "max_count (owner_counts owners eligible) - min_count (owner_counts owners eligible) > 1"
    and fair: "fair keep (set eligible) (map_of owners)"
  shows "\<exists>o' p d r. move_one (owner_counts owners eligible) owners = Inr o' \<and> owned n eligible o' \<and>
    map_of o' = (map_of owners)(p \<mapsto> r) \<and> map_of owners p = Some d \<and> keep p = Some d \<and> r \<noteq> d \<and>
    fair keep (set eligible) (map_of o')"
proof -
  let ?f = "map_of owners" and ?c = "owner_counts owners eligible"
  have s: "bt_sorted owners"
    using owned by (simp add: owned_def)
  note ext = extreme_counts [OF s ne]
  obtain d where dE: "d \<in> set eligible" "load ?f d = max_count ?c" and
      d: "last_or_panic ''max owner exists'' (map fst (filter (\<lambda>(_, count). count = max_count ?c) ?c)) = Inr d"
    using max_donor [OF s ne] by blast
  obtain r where rE: "r \<in> set eligible" "load ?f r = min_count ?c" and
      r: "find (\<lambda>(_, count). count = min_count ?c) ?c = Some (r, min_count ?c)"
    using min_recipient [OF s ne] by blast
  have "load ?f d \<noteq> 0"
    using dE(2) gap by linarith
  then obtain p where fp: "?f p = Some d" and
      p: "last_or_panic ''donor owns a partition'' (map fst (filter (\<lambda>(_, owner). owner = d) owners)) = Inr p"
    using donated_partition [OF s] by blast
  then have pn: "p < n"
    using owned by (auto simp: owned_def)
  have bounds: "\<forall>m \<in> set eligible. load ?f m \<le> load ?f d" "\<forall>m \<in> set eligible. load ?f r \<le> load ?f m"
    using dE rE ext by simp_all
  have "load ?f r + 2 \<le> load ?f d"
    using gap dE(2) rE(2) by simp
  note moved = fair_move [OF fair fp dE(1) bounds(1) rE(1) bounds(2) this]
  have "move_one ?c owners = Inr (bt_insert p r owners)"
    using d r p by (simp add: move_one_def try_then_def)
  moreover have "r \<noteq> d"
    using \<open>load ?f r + 2 \<le> load ?f d\<close> by auto
  moreover note owned_insert [OF owned pn rE(1)]
  ultimately show ?thesis
    using fp moved by (intro exI [of _ "bt_insert p r owners"] exI [of _ p] exI [of _ d] exI [of _ r]) simp
qed

lemma balanced_counts:
  assumes "bt_sorted owners" and "eligible \<noteq> []"
  defines "c \<equiv> owner_counts owners eligible"
  shows "max_count c - min_count c \<le> 1 \<longleftrightarrow> balanced (set eligible) (map_of owners)"
proof
  let ?L = "load (map_of owners) ` set eligible"
  have fin: "finite ?L" "?L \<noteq> {}"
    using assms(2) by simp_all
  {
    assume gap: "max_count c - min_count c \<le> 1"
    have "load (map_of owners) x \<le> load (map_of owners) y + 1" if "x \<in> set eligible" "y \<in> set eligible" for x y
      using gap Max_ge [OF fin(1) imageI [OF that(1)]] Min_le [OF fin(1) imageI [OF that(2)]]
      unfolding c_def extreme_counts [OF assms(1,2)] by linarith
    then show "balanced (set eligible) (map_of owners)"
      by (simp add: balanced_def)
  next
    assume b: "balanced (set eligible) (map_of owners)"
    obtain x where x: "Max ?L = load (map_of owners) x" "x \<in> set eligible"
      using Max_in [OF fin] by (rule imageE)
    obtain y where y: "Min ?L = load (map_of owners) y" "y \<in> set eligible"
      using Min_in [OF fin] by (rule imageE)
    have "load (map_of owners) x \<le> load (map_of owners) y + 1"
      using b x(2) y(2) by (simp add: balanced_def)
    then show "max_count c - min_count c \<le> 1"
      using x(1) y(1) by (simp add: c_def extreme_counts [OF assms(1,2)])
  }
qed

lemma rebalance_returns:
  assumes "owned n eligible owners" and "eligible \<noteq> []" and "fair keep (set eligible) (map_of owners)"
  shows "\<exists>o'. rebalance eligible owners = Some (Inr o') \<and> owned n eligible o' \<and> dom (map_of o') = dom (map_of owners) \<and>
    fair keep (set eligible) (map_of o') \<and> balanced (set eligible) (map_of o')"
  using assms(1,3)
proof (induction owners rule: measure_induct_rule [of "\<lambda>owners. card (kept keep (map_of owners))"])
  case (less owners)
  let ?c = "owner_counts owners eligible"
  have s: "bt_sorted owners"
    using less.prems(1) by (simp add: owned_def)
  have ne: "?c \<noteq> []"
    using counts_empty [OF s] assms(2) by simp
  show ?case
  proof (cases "max_count ?c - min_count ?c \<le> 1")
    case True
    then have "rebalance eligible owners = Some (Inr owners)"
      using ne by (simp add: rebalance.simps [of eligible owners] Let_def)
    then show ?thesis
      using less.prems True balanced_counts [OF s assms(2)] by simp
  next
    case False
    then have "max_count ?c - min_count ?c > 1"
      by simp
    from move_step [OF less.prems(1) assms(2) this less.prems(2)] obtain o' p d r where
      o': "move_one ?c owners = Inr o'" "owned n eligible o'" "map_of o' = (map_of owners)(p \<mapsto> r)"
        "map_of owners p = Some d" "keep p = Some d" "r \<noteq> d" "fair keep (set eligible) (map_of o')"
      by (elim exE conjE)
    have "kept keep (map_of o') = kept keep (map_of owners) - {p}" "p \<in> kept keep (map_of owners)"
      using o'(3-6) by (auto simp: kept_def)
    then have "kept keep (map_of o') \<subset> kept keep (map_of owners)"
      by blast
    then have "card (kept keep (map_of o')) < card (kept keep (map_of owners))"
      by (rule psubset_card_mono [rotated]) simp
    from less.IH [OF this o'(2,7)] obtain o2 where o2: "rebalance eligible o' = Some (Inr o2)" "owned n eligible o2"
        "dom (map_of o2) = dom (map_of o')" "fair keep (set eligible) (map_of o2)" "balanced (set eligible) (map_of o2)"
      by (elim exE conjE)
    have "rebalance eligible owners = rebalance eligible o'"
      using ne False o'(1) by (simp add: rebalance.simps [of eligible owners] Let_def)
    moreover have "dom (map_of o') = dom (map_of owners)"
      using o'(3,4) by auto
    ultimately show ?thesis
      using o2 by simp
  qed
qed

section \<open>The computed document\<close>

definition placement_of :: "u32 \<Rightarrow> boot_identity list \<Rightarrow> owner_map \<Rightarrow> bool" where
  "placement_of n eligible owners \<longleftrightarrow> bt_sorted owners \<and>
     (if eligible = [] then owners = []
      else dom (map_of owners) = {p. p < n} \<and> ran (map_of owners) \<subseteq> set eligible \<and>
        balanced (set eligible) (map_of owners))"

lemma total_iff:
  fixes f :: "'p::ord \<Rightarrow> 'm option"
  shows "(\<forall>p. p < n \<longrightarrow> (\<exists>m \<in> E. f p = Some m)) \<and> dom f \<subseteq> {p. p < n} \<longleftrightarrow> dom f = {p. p < n} \<and> ran f \<subseteq> E"
proof (intro iffI conjI; elim conjE)
  assume a: "\<forall>p. p < n \<longrightarrow> (\<exists>m \<in> E. f p = Some m)" "dom f \<subseteq> {p. p < n}"
  then show "dom f = {p. p < n}"
    by blast
  show "ran f \<subseteq> E"
  proof
    fix m
    assume "m \<in> ran f"
    then obtain p where p: "f p = Some m"
      by (auto simp: ran_def)
    then have "p < n"
      using a(2) by blast
    then show "m \<in> E"
      using a(1) p by fastforce
  qed
next
  assume a: "dom f = {p. p < n}" "ran f \<subseteq> E"
  then show "dom f \<subseteq> {p. p < n}"
    by simp
  show "\<forall>p. p < n \<longrightarrow> (\<exists>m \<in> E. f p = Some m)"
  proof (intro allI impI)
    fix p
    assume "p < n"
    then have "p \<in> dom f"
      using a(1) by simp
    then obtain m where "f p = Some m"
      by blast
    then show "\<exists>m \<in> E. f p = Some m"
      using a(2) ranI by fast
  qed
qed

text \<open>The validator accepts exactly the balanced placements on its members.\<close>

lemma validate_iff:
  assumes "bt_sorted (ad_owners d)"
  shows "assignment_validate d n = Inr () \<longleftrightarrow>
    ad_schema_version d = ASSIGNMENT_SCHEMA_VERSION \<and> distinct (ad_eligible_members d) \<and>
    placement_of n (ad_eligible_members d) (ad_owners d)"
proof -
  let ?o = "ad_owners d" and ?e = "ad_eligible_members d"
  have len: "length (remdups ?e) = length ?e \<longleftrightarrow> distinct ?e"
    by simp
  have owner: "(\<forall>p \<in> set (partitions n). check_owner d p = Inr ()) \<longleftrightarrow>
      (\<forall>p. p < n \<longrightarrow> (\<exists>m \<in> set ?e. map_of ?o p = Some m))"
    by (auto simp: set_partitions check_owner_def split: option.splits if_splits)
  have range: "list_ex (\<lambda>(p, _). p \<ge> n) ?o \<longleftrightarrow> \<not> dom (map_of ?o) \<subseteq> {p. p < n}"
    by (auto simp: list_ex_iff dom_map_of_conv_image_fst not_less) force
  show ?thesis
  proof (cases "?e = []")
    case True
    then show ?thesis
      using assms by (simp add: assignment_validate_def placement_of_def)
  next
    case False
    let ?c = "owner_counts ?o ?e"
    have "assignment_validate d n = Inr () \<longleftrightarrow> ad_schema_version d = ASSIGNMENT_SCHEMA_VERSION \<and> distinct ?e \<and>
        (\<forall>p \<in> set (partitions n). check_owner d p = Inr ()) \<and> \<not> list_ex (\<lambda>(p, _). p \<ge> n) ?o \<and>
        max_count ?c - min_count ?c \<le> 1"
      using False counts_empty [OF assms, of ?e]
      by (simp add: assignment_validate_def len try_then_eq_Inr_iff Let_def not_less)
    then show ?thesis
      unfolding owner range balanced_counts [OF assms False] placement_of_def
      using False assms total_iff [of n "set ?e" "map_of ?o"] by simp argo
  qed
qed

lemma retained_map:
  assumes "case previous of Some d \<Rightarrow> bt_sorted (ad_owners d) | None \<Rightarrow> True"
  shows "bt_sorted (retained n previous eligible)"
    and "map_of (retained n previous eligible) p = Some m \<longleftrightarrow>
      p < n \<and> m \<in> set eligible \<and> (\<exists>d. previous = Some d \<and> map_of (ad_owners d) p = Some m)"
proof -
  have "bt_sorted (filter P xs)" if "bt_sorted xs" for xs :: owner_map and P
    using that by (simp add: sorted_wrt_map sorted_wrt_filter)
  then show "bt_sorted (retained n previous eligible)"
    using assms by (auto simp: retained_def split: option.split)
  have mem: "map_of (filter (\<lambda>(p, m). p < n \<and> m \<in> set eligible) xs) p = Some m \<longleftrightarrow>
      p < n \<and> m \<in> set eligible \<and> map_of xs p = Some m" if "bt_sorted xs" for xs :: owner_map
    using bt_sorted_distinct [OF that] distinct_map_filter [of fst xs]
    by (auto simp: case_prod_beta map_of_eq_Some_iff)
  show "map_of (retained n previous eligible) p = Some m \<longleftrightarrow>
      p < n \<and> m \<in> set eligible \<and> (\<exists>d. previous = Some d \<and> map_of (ad_owners d) p = Some m)"
    using assms mem by (cases previous) (simp_all add: retained_def)
qed

lemma retained_owned:
  assumes "case previous of Some d \<Rightarrow> bt_sorted (ad_owners d) | None \<Rightarrow> True"
  shows "owned n eligible (retained n previous eligible)"
  using retained_map [OF assms] by (auto simp: owned_def ran_def)

lemma place_returns:
  fixes n :: u32 and eligible :: "boot_identity list"
  assumes "case previous of Some d \<Rightarrow> bt_sorted (ad_owners d) | None \<Rightarrow> True"
  defines "keep \<equiv> retained n previous eligible"
  shows "\<exists>owners. place n eligible keep = Some (Inr owners) \<and> placement_of n eligible owners \<and>
    fair (map_of keep) (set eligible) (map_of owners)"
proof (cases "eligible = []")
  case True
  then have "keep = []"
    by (simp add: keep_def retained_def split: option.split)
  then show ?thesis
    using True fair_start by (simp add: place_def placement_of_def)
next
  case False
  have "owned n eligible keep"
    using retained_owned [OF assms(1)] by (simp add: keep_def)
  then obtain o1 where o1: "fold_result (assign_orphan eligible) (partitions n) keep = Inr o1" "owned n eligible o1"
      "set (partitions n) \<subseteq> dom (map_of o1)" "fair (map_of keep) (set eligible) (map_of o1)"
    using fill_all [OF _ _ False fair_start, of n keep "partitions n"] by (auto simp: set_partitions gave_def)
  from rebalance_returns [OF o1(2) False o1(4)] obtain o2 where o2:
      "rebalance eligible o1 = Some (Inr o2)" "owned n eligible o2" "dom (map_of o2) = dom (map_of o1)"
      "fair (map_of keep) (set eligible) (map_of o2)" "balanced (set eligible) (map_of o2)"
    by (elim exE conjE)
  have "dom (map_of o2) = {p. p < n}"
    using o1(2,3) o2(3) by (auto simp: set_partitions owned_def)
  then show ?thesis
    using False o1(1) o2 by (simp add: place_def placement_of_def owned_def)
qed

section \<open>Movement\<close>

text \<open>The partitions whose owner differs from the one of the previous document.\<close>

definition moved :: "u32 \<Rightarrow> assignment_document option \<Rightarrow> owner_map \<Rightarrow> u32 set" where
  "moved n previous owners =
     {p. p < n \<and> map_of owners p \<noteq> (case previous of Some d \<Rightarrow> map_of (ad_owners d) p | None \<Rightarrow> None)}"

lemma moved_kept:
  assumes prev: "case previous of Some d \<Rightarrow> bt_sorted (ad_owners d) | None \<Rightarrow> True"
    and owners: "dom (map_of owners) = {p. p < n}" "ran (map_of owners) \<subseteq> set eligible"
  shows "card (moved n previous owners) =
    card {p. p < n} - card (kept (map_of (retained n previous eligible)) (map_of owners))"
proof -
  let ?keep = "map_of (retained n previous eligible)"
  have "kept ?keep (map_of owners) = {p. p < n} - moved n previous owners"
  proof (rule set_eqI)
    fix p
    show "p \<in> kept ?keep (map_of owners) \<longleftrightarrow> p \<in> {p. p < n} - moved n previous owners"
    proof (cases "map_of owners p")
      case None
      then have "\<not> p < n"
        using owners(1) by (metis domIff mem_Collect_eq)
      moreover have "p \<notin> kept ?keep (map_of owners)"
        using None by (metis (mono_tags, lifting) kept_def mem_Collect_eq)
      ultimately show ?thesis
        by simp
    next
      case (Some m)
      have pm: "p < n" "m \<in> set eligible"
        using owners domI [of "map_of owners", OF Some] ranI [of "map_of owners", OF Some] by auto
      have "p \<in> kept ?keep (map_of owners) \<longleftrightarrow> ?keep p = Some m"
        using Some by (metis (mono_tags, lifting) kept_def mem_Collect_eq option.distinct(1))
      also have "\<dots> \<longleftrightarrow> (\<exists>d. previous = Some d \<and> map_of (ad_owners d) p = Some m)"
        using retained_map(2) [OF prev, of n eligible p m] pm by simp
      also have "\<dots> \<longleftrightarrow> p \<in> {p. p < n} - moved n previous owners"
        using Some pm by (cases previous) (auto simp: moved_def)
      finally show ?thesis .
    qed
  qed
  moreover have "moved n previous owners \<subseteq> {p. p < n}"
    by (auto simp: moved_def)
  ultimately show ?thesis
    by (simp add: card_Diff_subset card_mono)
qed

lemma place_moves_least:
  assumes prev: "case previous of Some d \<Rightarrow> bt_sorted (ad_owners d) | None \<Rightarrow> True"
    and other: "placement_of n eligible other"
    and r: "place n eligible (retained n previous eligible) = Some (Inr owners)"
  shows "card (moved n previous owners) \<le> card (moved n previous other)"
proof (cases "eligible = []")
  case True
  then show ?thesis
    using other place_returns [OF prev, of n eligible] r by (simp add: placement_of_def)
next
  case False
  have p: "placement_of n eligible owners" "fair (map_of (retained n previous eligible)) (set eligible) (map_of owners)"
    using place_returns [OF prev, of n eligible] r by simp_all
  have d: "dom (map_of owners) = {p. p < n}" "ran (map_of owners) \<subseteq> set eligible"
      "dom (map_of other) = {p. p < n}" "ran (map_of other) \<subseteq> set eligible"
    using p(1) other False by (simp_all add: placement_of_def)
  have "card (kept (map_of (retained n previous eligible)) (map_of other)) \<le>
      card (kept (map_of (retained n previous eligible)) (map_of owners))"
    using p other False d fair_keeps_most [of "set eligible" "map_of owners" "map_of other"]
    by (simp add: placement_of_def balanced_def)
  then show ?thesis
    unfolding moved_kept [OF prev d(1,2)] moved_kept [OF prev d(3,4)] by (rule diff_le_mono2)
qed

section \<open>What the computation promises\<close>

lemma computed_document:
  assumes "case previous of Some d \<Rightarrow> bt_sorted (ad_owners d) | None \<Rightarrow> True"
  obtains d where
    "balanced_minimal_movement n previous members region version now_ms = Some (Inr d)"
    "ad_schema_version d = ASSIGNMENT_SCHEMA_VERSION" "ad_version d = version"
    "ad_eligible_members d = sorted_list_of_set (set members)"
    "place n (ad_eligible_members d) (retained n previous (ad_eligible_members d)) = Some (Inr (ad_owners d))"
    "placement_of n (ad_eligible_members d) (ad_owners d)"
proof -
  let ?e = "sorted_list_of_set (set members)"
  obtain owners where owners: "place n ?e (retained n previous ?e) = Some (Inr owners)" "placement_of n ?e owners"
    using place_returns [OF assms] by blast
  show thesis
    by (rule that [of "\<lparr>ad_schema_version = ASSIGNMENT_SCHEMA_VERSION, ad_version = version, ad_region = region,
        ad_computed_at_ms = now_ms, ad_eligible_members = ?e, ad_owners = owners\<rparr>"])
      (simp_all add: balanced_minimal_movement_def owners try_then_def)
qed

lemma placement_of_cong:
  assumes "set e = set e'"
  shows "placement_of n e owners \<longleftrightarrow> placement_of n e' owners"
proof -
  have "e = [] \<longleftrightarrow> e' = []"
    using assms by (metis set_empty)
  then show ?thesis
    using assms by (simp add: placement_of_def)
qed

lemma placement_outside: "placement_of n e owners \<Longrightarrow> \<not> p < n \<Longrightarrow> map_of owners p = None"
  unfolding placement_of_def by (metis (mono_tags, lifting) domIff map_of.simps(1) mem_Collect_eq)

text \<open>
  C33. Placement always succeeds. From any previous document, however stale, and any members, the
  computation returns without a panic, and its document passes the validator: the members are the
  given ones, every partition has an owner among them, and no two of them differ by more than one
  partition.
\<close>

theorem assignment_is_valid:
  assumes "case previous of Some d \<Rightarrow> bt_sorted (ad_owners d) | None \<Rightarrow> True"
  shows "\<exists>d. balanced_minimal_movement n previous members region version now_ms = Some (Inr d) \<and>
    assignment_validate d n = Inr () \<and> ad_version d = version \<and> set (ad_eligible_members d) = set members"
proof -
  obtain d where d:
      "balanced_minimal_movement n previous members region version now_ms = Some (Inr d)"
      "ad_schema_version d = ASSIGNMENT_SCHEMA_VERSION" "ad_version d = version"
      "ad_eligible_members d = sorted_list_of_set (set members)"
      "place n (ad_eligible_members d) (retained n previous (ad_eligible_members d)) = Some (Inr (ad_owners d))"
      "placement_of n (ad_eligible_members d) (ad_owners d)"
    by (rule computed_document [OF assms])
  then have "bt_sorted (ad_owners d)" "distinct (ad_eligible_members d)"
    by (simp_all add: placement_of_def)
  then show ?thesis
    using d validate_iff [of d n] by (intro exI [of _ d]) simp
qed

definition stale_document :: assignment_document where
  "stale_document = \<lparr>ad_schema_version = 2, ad_version = 4, ad_region = ''use1'', ad_computed_at_ms = 0,
     ad_eligible_members = [''a'', ''b''], ad_owners = [(0, ''a''), (1, ''a''), (2, ''a''), (3, ''b''), (9, ''b'')]\<rparr>"

theorem assignment_is_valid_witness:
  "\<exists>d. balanced_minimal_movement 4 (Some stale_document) [''c'', ''a''] ''use1'' 5 0 = Some (Inr d) \<and>
     assignment_validate d 4 = Inr ()"
proof -
  have "bt_sorted (ad_owners stale_document)"
    by (simp add: stale_document_def)
  then show ?thesis
    using assignment_is_valid [of "Some stale_document" 4 "[''c'', ''a'']" "''use1''" 5 0] by auto
qed

text \<open>
  C34. Placement moves as little as possible: among all documents that the validator accepts for
  the same members, none gives fewer partitions a new owner.
\<close>

theorem assignment_moves_least:
  assumes "balanced_minimal_movement n previous members region version now_ms = Some (Inr d)"
    and prev: "case previous of Some d \<Rightarrow> bt_sorted (ad_owners d) | None \<Rightarrow> True"
    and other: "assignment_validate other n = Inr ()" "bt_sorted (ad_owners other)"
      "set (ad_eligible_members other) = set members"
  shows "card (moved n previous (ad_owners d)) \<le> card (moved n previous (ad_owners other))"
proof -
  obtain d' where d':
      "balanced_minimal_movement n previous members region version now_ms = Some (Inr d')"
      "ad_schema_version d' = ASSIGNMENT_SCHEMA_VERSION" "ad_version d' = version"
      "ad_eligible_members d' = sorted_list_of_set (set members)"
      "place n (ad_eligible_members d') (retained n previous (ad_eligible_members d')) = Some (Inr (ad_owners d'))"
      "placement_of n (ad_eligible_members d') (ad_owners d')"
    by (rule computed_document [OF prev])
  have "placement_of n (ad_eligible_members other) (ad_owners other)"
    using validate_iff [OF other(2)] other(1) by simp
  then have "placement_of n (ad_eligible_members d') (ad_owners other)"
    using placement_of_cong [of "ad_eligible_members other" "ad_eligible_members d'"] other(3) d'(4) by simp
  then show ?thesis
    using place_moves_least [OF prev _ d'(5)] assms(1) d'(1) by simp
qed

theorem assignment_moves_least_witness:
  "\<exists>d. balanced_minimal_movement 4 (Some stale_document) [''c'', ''a''] ''use1'' 5 0 = Some (Inr d) \<and>
     card (moved 4 (Some stale_document) (ad_owners d)) \<le> 2"
proof -
  let ?other = "stale_document\<lparr>ad_eligible_members := [''a'', ''c''], ad_owners := [(0, ''a''), (1, ''a''), (2, ''c''), (3, ''c'')]\<rparr>"
  have sorted: "case Some stale_document of Some d \<Rightarrow> bt_sorted (ad_owners d) | None \<Rightarrow> True"
      "bt_sorted (ad_owners ?other)" "set (ad_eligible_members ?other) = set [''c'', ''a'']"
    by (auto simp: stale_document_def)
  have valid: "assignment_validate ?other 4 = Inr ()"
    by code_simp
  have "moved 4 (Some stale_document) (ad_owners ?other) \<subseteq> {2, 3}"
    by (auto simp: moved_def stale_document_def split: if_splits)
  then have "card (moved 4 (Some stale_document) (ad_owners ?other)) \<le> card {2, 3 :: u32}"
    by (rule card_mono [rotated]) simp
  then have two: "card (moved 4 (Some stale_document) (ad_owners ?other)) \<le> 2"
    by (rule order_trans) simp
  obtain d where d: "balanced_minimal_movement 4 (Some stale_document) [''c'', ''a''] ''use1'' 5 0 = Some (Inr d)"
    by (rule computed_document [OF sorted(1)])
  then show ?thesis
    using order_trans [OF assignment_moves_least [OF d sorted(1) valid sorted(2,3)] two]
    by (intro exI [of _ d] conjI)
qed

text \<open>
  C35. Placement is stable: when the previous document is valid for the same members, no owner
  changes, so reconciling again writes nothing new.
\<close>

theorem valid_assignment_is_kept:
  assumes "assignment_validate d n = Inr ()" and "bt_sorted (ad_owners d)" and "set (ad_eligible_members d) = set members"
    and "balanced_minimal_movement n (Some d) members region version now_ms = Some (Inr d')"
  shows "ad_owners d' = ad_owners d"
proof -
  have prev: "case Some d of Some d \<Rightarrow> bt_sorted (ad_owners d) | None \<Rightarrow> True"
    using assms(2) by simp
  obtain d2 where d2:
      "balanced_minimal_movement n (Some d) members region version now_ms = Some (Inr d2)"
      "ad_schema_version d2 = ASSIGNMENT_SCHEMA_VERSION" "ad_version d2 = version"
      "ad_eligible_members d2 = sorted_list_of_set (set members)"
      "place n (ad_eligible_members d2) (retained n (Some d) (ad_eligible_members d2)) = Some (Inr (ad_owners d2))"
      "placement_of n (ad_eligible_members d2) (ad_owners d2)"
    by (rule computed_document [OF prev])
  then have d': "ad_eligible_members d' = sorted_list_of_set (set members)"
      "place n (ad_eligible_members d') (retained n (Some d) (ad_eligible_members d')) = Some (Inr (ad_owners d'))"
      "placement_of n (ad_eligible_members d') (ad_owners d')"
    using assms(4) by simp_all
  have d: "placement_of n (ad_eligible_members d') (ad_owners d)"
    using validate_iff [OF assms(2), of n] assms(1,3) d'(1)
      placement_of_cong [of "ad_eligible_members d" "ad_eligible_members d'"] by simp
  have "moved n (Some d) (ad_owners d) = {}"
    by (simp add: moved_def)
  then have "moved n (Some d) (ad_owners d') = {}"
    using place_moves_least [OF prev d d'(2)] by simp
  then have "map_of (ad_owners d') p = map_of (ad_owners d) p" if "p < n" for p
    using that by (auto simp: moved_def)
  moreover have "map_of (ad_owners d') p = map_of (ad_owners d) p" if "\<not> p < n" for p
    using placement_outside [OF d that] placement_outside [OF d'(3) that] by simp
  ultimately have "map_of (ad_owners d') = map_of (ad_owners d)"
    by blast
  then show ?thesis
    using bt_sorted_ext [OF _ assms(2)] d'(3) by (simp add: placement_of_def)
qed

theorem valid_assignment_is_kept_witness:
  "\<exists>d. balanced_minimal_movement 4 (Some (stale_document\<lparr>ad_eligible_members := [''a'', ''c''],
       ad_owners := [(0, ''a''), (1, ''a''), (2, ''c''), (3, ''c'')]\<rparr>)) [''c'', ''a''] ''use1'' 5 0 = Some (Inr d) \<and>
     ad_owners d = [(0, ''a''), (1, ''a''), (2, ''c''), (3, ''c'')]"
proof -
  let ?d = "stale_document\<lparr>ad_eligible_members := [''a'', ''c''], ad_owners := [(0, ''a''), (1, ''a''), (2, ''c''), (3, ''c'')]\<rparr>"
  have d: "case Some ?d of Some d \<Rightarrow> bt_sorted (ad_owners d) | None \<Rightarrow> True" "bt_sorted (ad_owners ?d)"
      "set (ad_eligible_members ?d) = set [''c'', ''a'']"
    by (auto simp: stale_document_def)
  have valid: "assignment_validate ?d 4 = Inr ()"
    by code_simp
  obtain d' where d': "balanced_minimal_movement 4 (Some ?d) [''c'', ''a''] ''use1'' 5 0 = Some (Inr d')"
    by (rule computed_document [OF d(1)])
  moreover have "ad_owners d' = ad_owners ?d"
    by (rule valid_assignment_is_kept [OF valid d(2,3) d'])
  ultimately show ?thesis
    by (intro exI [of _ d'] conjI) simp_all
qed

end
