(* ===== verification/Spec2Isabelle.thy ===== *)
theory Spec2Isabelle
  imports Engine_Safety Computer_Player Event_Log Replay_Laws Placement_Laws
begin

text \<open>
  \<^bold>\<open>A verification development of SnakeTron.\<close>

  SnakeTron is a multiplayer snake game. A deterministic simulation
  (\<^verbatim>\<open>common/src/game_state.rs\<close> with \<^verbatim>\<open>snake.rs\<close>, \<^verbatim>\<open>util.rs\<close> and \<^verbatim>\<open>constants.rs\<close>) advances a match in
  quanta. An engine (\<^verbatim>\<open>common/src/game_engine.rs\<close>) runs it twice on every machine: a committed state
  that only authoritative events change, and a predicted state that runs ahead of it. Servers
  publish numbered events to the clients; digests of the state (\<^verbatim>\<open>common/src/fingerprint.rs\<close>) tell
  whether two machines agree; traces (\<^verbatim>\<open>common/src/trace.rs\<close>) are replayed and compared offline
  (\<^verbatim>\<open>common/src/replay.rs\<close>); a computer player (\<^verbatim>\<open>common/src/ai.rs\<close>) issues commands. On the server,
  matches are spread over partitions, and \<^verbatim>\<open>server/src/partition_assignment.rs\<close> decides which task owns
  which partition.

  \<^bold>\<open>Conventions\<close> (\<open>Prelude\<close>). Unsigned integers are words of their width, so they wrap as in a release
  build; \<open>i16\<close> and \<open>i64\<close> values are integers with the wrap written out (\<open>wrap_i16\<close>, \<open>wrap_i64\<close>); sizes
  and indexes are natural numbers. Fallible code returns \<open>error + 'a\<close>, where \<open>Err\<close> is a returned error
  and \<open>Panic\<close> an assertion, an index out of range or another abort. Where
  the engine turns an error of the simulation into a request for a snapshot, a panic takes the same
  branch of the model; on the states that occur the tick does neither (C2, C3).
  A \<open>HashMap\<close> is an association list used through the contract of a locale, a \<open>HashSet\<close> a set, a \<open>BTreeMap\<close> a list sorted by its keys.
  Structures are records, and their fields carry a prefix where the name is not unique. A loop that
  may fail to return is a \<open>partial_function (option)\<close>, and None is the value of a call that does not
  return. The logarithm, root and cosine inside \<open>next_normal\<close> come from the platform: they are the
  parameter \<open>box_muller\<close>, and \<open>box_muller_ok\<close> says that on draws in the unit interval its value is
  not NaN; \<open>at_mean\<close> below is an instance.

  \<^bold>\<open>The simulation.\<close>
  \<^item> \<open>Pseudo_Random\<close>: the generator of \<^verbatim>\<open>util.rs\<close> and the float conversion food sampling uses. The step
    is injective and never reaches zero.
  \<^item> \<open>Snake_Model\<close>, \<open>Snake_Geometry\<close>, \<open>Snake_Lifecycle\<close>: \<^verbatim>\<open>snake.rs\<close>. A body is a list of corner points;
    \<open>body_cells\<close> is its abstraction, and stepping, collision and length refine it. Boost, combo and
    movement credit are state machines with an invariant (\<open>boost_wf\<close>) and an exact account of credit.
  \<^item> \<open>Game_Config\<close>, \<open>Arena_Model\<close>: configuration and its validation, pads, zones, goals, food sampling.
  \<^item> \<open>Command_Queue\<close>, \<open>Sorted_Vec\<close>: the command queue against a min-heap contract, and the sorted vector
    of kicked users against a set.
  \<^item> \<open>Game_State\<close>, \<open>Validate\<close>, \<open>Admission\<close>: the state of a match, its construction, and the snapshot
    validator with its declarative reading \<open>admitted\<close>.
  \<^item> \<open>Spawning\<close>, \<open>Events\<close>, \<open>Inactivity\<close>, \<open>Tick\<close>: joining, respawning and food, application and admission of
    events, command execution, the inactivity policy, and one quantum as the sequence of its phases.
  \<^item> \<open>Match_Invariant\<close>, \<open>Tick_Safety\<close>, \<open>Quantum_Safety\<close>, \<open>Match_Runs\<close>: the invariant \<open>simulable\<close>, its
    preservation by each phase, and the matches a server can run as the inductive predicate
    \<open>reachable\<close>.
  \<^item> \<open>Event_Log\<close>: the numbering and the kinds of the events of a quantum.

  \<^bold>\<open>Around the simulation.\<close>
  \<^item> \<open>Fingerprint\<close>: the canonical byte string and its FNV-1a digest. Prefix codes (locale \<open>prefix_code\<close>)
    compose to the statement that the bytes determine the sync-critical fields.
  \<^item> \<open>Game_Engine\<close>, \<open>Engine_Safety\<close>: the engine, and what its loops guarantee through the locale
    \<open>stepping_loop\<close>: they return, prediction stays in its window, messages are applied completely or
    not at all, and a journal reproduces the decisions it records.
  \<^item> \<open>Computer_Player\<close>: breadth-first search and the choice of a move.
  \<^item> \<open>Trace_Replay\<close>, \<open>Replay_Laws\<close>: the trace records, replay of server and client traces, and the
    comparison of two traces with its loss report and verdict.

  \<^bold>\<open>The server.\<close>
  \<^item> \<open>Partition_Assignment\<close>, \<open>Placement_Laws\<close>: memberships, assignment documents, their validator, and
    \<open>balanced_minimal_movement\<close>. The invariant \<open>fair\<close> of its two loops gives termination, validity and
    the least movement. \<open>Sorted_Map\<close> is the \<open>BTreeMap\<close> they and the trace tools use.

  \<^bold>\<open>The properties.\<close> C1 to C4 are about whole matches, C5 and C6 about admission and construction, C7 to
  C10 about one snake, C11 to C13 about queues, C14 to C16 about randomness, food and pads, C17 to C24
  about the engine and its messages, C25 and C26 about the digest, C27 and C28 about the computer
  player, C29 about the event log, C30 to C32 about traces, and C33 to C35 about the placement of
  partitions.

  \<^bold>\<open>Bounds.\<close> Ticks are 32-bit and saturate; the statements about ticking assume that the counter is below
  its last values, which a match reaches after years. Boards are at most 32767 wide and high where
  the source casts a size to \<open>i16\<close>. The division that spaces a column of spawns is total in the model;
  in the source it aborts only for columns of 65536 or more players. There is no fuel: loops either
  have a termination proof (the breadth-first search by its unvisited cells) or are partial, with a
  proof that they return (the clock loops by the ticks left, the balancing loop by the partitions
  still with their previous owner) or an exact characterisation of the inputs on which they do (the
  catch-up of a replicated message).

  \<^bold>\<open>Not modelled.\<close> The mean values of the drift summary and the texts of reports (display only); the
  JSON encoding of states, events and traces, which is derived code of a serialisation library; highlights and scenarios;
  the asynchronous server around the engine (executors, message bus, lobbies, HTTP and socket
  handlers, databases, analytics, payments, and the stores of memberships, assignments and leases),
  whose behaviour is that of the network, Redis and DynamoDB it calls; rendering and the user interface; skins, textures and asset pipelines.
\<close>

section \<open>Runs of a match\<close>

text \<open>A Box-Muller value for concrete instances: always the mean.\<close>

definition at_mean :: box_muller where
  "at_mean = (\<lambda>u1 u2 mean2 std6. Finite (of_int mean2 / 2))"

lemma at_mean_ok: "box_muller_ok at_mean"
  by (simp add: box_muller_ok_def at_mean_def)

lemma duel_board: "board_ok 60 40 (TeamMatch 1)"
proof -
  have "goal_width_for 40 = 9"
    by (simp add: goal_width_for_def Let_def f32_round_def bit_length.simps round_shift_def is_multiple_of_def)
  then show ?thesis by (simp add: board_ok_def)
qed

text \<open>
  C1. Every state of a match that is created on an ordinary board, joined, stocked with food,
  dressed, gated, started, commanded and ticked in any order is accepted by the snapshot
  validator and fit for simulation. The one exception is a match that inactivity has ended.
\<close>

theorem reachable_states_are_admitted:
  assumes "reachable bm g" and "box_muller_ok bm"
  shows "validate_boost_invariants g = Inr () \<and> simulable g \<or> ended_idle g"
  using reachable_inv [OF assms] validate_admitted by (auto simp: simulable_def)

theorem reachable_states_are_admitted_witness:
  "validate_boost_invariants (initial_game_state 60 40 (TeamMatch 1) Competitive (Some 7) 0) = Inr ()"
proof -
  have "reachable at_mean (initial_game_state 60 40 (TeamMatch 1) Competitive (Some 7) 0)"
    using duel_board game_state_new_eq by (rule reachable.created)
  from reachable_states_are_admitted [OF this at_mean_ok] show ?thesis
    by (auto simp: ended_idle_def initial_game_state_def Let_def)
qed

text \<open>
  C2. In every such state a tick returns: no assertion of the simulation fails, nothing is indexed
  out of range, no empty range is clamped or sampled, and no command, crash, pickup or score makes
  it give up. The bound keeps the tick counter below its maximum.
\<close>

theorem reachable_ticks_return:
  assumes "reachable bm g" and "box_muller_ok bm" and "unat (gs_tick g) + 2 < 2 ^ 32"
  shows "\<exists>g' events. tick_forward bm movement_only g = Inr (g', events)"
  using assms by (rule reachable_tick_returns)

theorem reachable_ticks_return_witness:
  "\<exists>g' events. tick_forward at_mean False (initial_game_state 40 40 (FreeForAll 4) Quickmatch None 5) = Inr (g', events)"
proof -
  have "board_ok 40 40 (FreeForAll 4)"
    by (simp add: board_ok_def)
  then have "reachable at_mean (initial_game_state 40 40 (FreeForAll 4) Quickmatch None 5)"
    using game_state_new_eq by (rule reachable.created)
  then show ?thesis
    by (rule reachable_ticks_return [OF _ at_mean_ok]) (simp add: initial_game_state_def Let_def)
qed

text \<open>
  C3. One tick from any simulable state, reachable or not: it returns, counts one tick unless the
  match is over, and leaves a simulable state, except when inactivity ends the match in the very
  tick in which a boost pad was due to come back.
\<close>

theorem tick_preserves_simulable:
  assumes "simulable g" and "box_muller_ok bm" and "unat (gs_tick g) + 2 < 2 ^ 32"
  shows "\<exists>g' events. tick_forward bm movement_only g = Inr (g', events) \<and>
    gs_tick g' = (if is_complete g then gs_tick g else gs_tick g + 1) \<and>
    (simulable g' \<or> gs_completed_by_inactivity g' \<and> is_complete g' \<and> pad_due (gs_tick g + 1) g)"
  using tick_forward_ok [OF assms] by blast

theorem tick_preserves_simulable_witness:
  "\<exists>g' events. tick_forward at_mean True (initial_game_state 30 30 Solo Quickmatch None 0) = Inr (g', events) \<and>
    gs_tick g' = 1"
proof -
  let ?g = "initial_game_state 30 30 Solo Quickmatch None 0"
  have "board_ok 30 30 Solo"
    by (simp add: board_ok_def)
  then have "simulable ?g"
    by (rule initial_simulable)
  moreover have "gs_tick ?g = 0" and "\<not> is_complete ?g"
    by (simp_all add: initial_game_state_def Let_def is_complete_def)
  ultimately show ?thesis
    using tick_preserves_simulable [OF _ at_mean_ok, of ?g True] by auto
qed

text \<open>
  C4. The exception is exact. When inactivity ends a match in a tick, the tick returns and the match
  is complete, but the final state passes the snapshot validator only if no boost pad was due in
  that tick: the tick counter advances past the cooldown of such a pad without restoring the pad.
\<close>

theorem idle_end_admitted_iff_no_pad_due:
  assumes "simulable g" and "\<not> is_complete g" and "unat (gs_tick g) + 2 < 2 ^ 32"
    and ends: "snd (resolve_player_inactivity (gs_tick g + 1) (begin_tick g))"
  shows "\<exists>g' events. tick_forward bm movement_only g = Inr (g', events) \<and>
    is_complete g' \<and> gs_completed_by_inactivity g' \<and>
    (validate_boost_invariants g' = Inr () \<longleftrightarrow> \<not> pad_due (gs_tick g + 1) g)"
proof -
  have post: "sat_add (gs_tick g) 1 = gs_tick g + 1"
    using assms(3) by (simp add: word_unat_eq_iff unat_sat_add unat_word_ariths)
  note ends' = ends [folded post]
  obtain g' events where t: "tick_forward bm movement_only g = Inr (g', events)"
    using idle_end_tick [OF assms(2) ends'] by (simp add: Let_def)
  have same: "tick_forward at_mean movement_only g = Inr (g', events)"
    using t unfolding idle_end_tick [OF assms(2) ends'] .
  have g': "gs_tick g' = gs_tick g + 1" "simulable g' \<or> pad_due (gs_tick g + 1) g"
    using tick_forward_ok [OF assms(1) at_mean_ok assms(3), of movement_only] same assms(2) by auto
  have "pad_due (gs_tick g + 1) g' \<longleftrightarrow> pad_due (gs_tick g + 1) g"
    by (simp add: pad_due_def idle_end_pads [OF assms(2) ends' t])
  then have "admitted g' \<longleftrightarrow> \<not> pad_due (gs_tick g + 1) g"
    using g' stale_pad_not_admitted [of g'] by (auto simp: simulable_def)
  then show ?thesis
    using t idle_end_completes [OF assms(1,2) ends' t] by (simp add: validate_admitted)
qed

text \<open>
  The exception occurs: two players of a free-for-all have been idle for a minute, and a pad is due
  in the tick that removes them.
\<close>

definition idle_pair :: game_state where
  "idle_pair = fst (add_player 2 None (fst (add_player 1 None
     (initial_game_state 40 40 (FreeForAll 2) Quickmatch None 0))))"

definition idle_pair_with_pad_due :: game_state where
  "idle_pair_with_pad_due = idle_pair\<lparr>gs_tick := 1199, gs_status := Started 1,
     gs_arena := (gs_arena idle_pair)\<lparr>ar_boost_pads := cool_pad 0 1200 (ar_boost_pads (gs_arena idle_pair))\<rparr>\<rparr>"

lemma idle_pair_simulable: "simulable idle_pair"
proof -
  have "simulable (initial_game_state 40 40 (FreeForAll 2) Quickmatch None 0)"
    by (rule initial_simulable) (simp add: board_ok_def)
  then have "simulable (fst (add_player 1 None (initial_game_state 40 40 (FreeForAll 2) Quickmatch None 0)))"
    unfolding add_player_def by (rule add_player_simulable) (rule prod.collapse [symmetric])
  then show ?thesis
    unfolding idle_pair_def by (subst add_player_def, rule add_player_simulable) (rule prod.collapse [symmetric])
qed

lemma pad_due_simulable: "simulable idle_pair_with_pad_due"
proof -
  have "sound idle_pair_with_pad_due"
    using idle_pair_simulable sound_cong [of idle_pair_with_pad_due idle_pair]
    by (simp add: simulable_sound idle_pair_with_pad_due_def sound_view_def)
  moreover have "validate_boost_invariants idle_pair_with_pad_due = Inr ()"
    by code_simp
  ultimately show ?thesis
    by (simp add: simulable_sound validate_admitted)
qed

theorem idle_end_admitted_iff_no_pad_due_witness:
  "\<exists>g' events. tick_forward at_mean False idle_pair_with_pad_due = Inr (g', events) \<and>
    gs_completed_by_inactivity g' \<and> validate_boost_invariants g' \<noteq> Inr ()"
proof -
  have "gs_tick idle_pair_with_pad_due = 1199" "\<not> is_complete idle_pair_with_pad_due"
    by (simp_all add: idle_pair_with_pad_due_def is_complete_def)
  moreover have "snd (resolve_player_inactivity 1200 (begin_tick idle_pair_with_pad_due))"
      "pad_due 1200 idle_pair_with_pad_due"
    by code_simp+
  ultimately show ?thesis
    using idle_end_admitted_iff_no_pad_due [OF pad_due_simulable, of at_mean False] by auto
qed

section \<open>Admission\<close>

text \<open>
  C5. The snapshot validator is a decision procedure for the declarative notion of an admitted
  state: rules that match the game type, pads and snakes in order, references that resolve, and
  coherent inactivity records.
\<close>

theorem validator_decides_admission: "validate_boost_invariants g = Inr () \<longleftrightarrow> admitted g"
  by (rule validate_admitted)

text \<open>
  C6. Constructing a match never panics: whatever the board, the game type, the queue, the seed and
  the start time, the freshly built state passes its own validation.
\<close>

theorem new_match_never_panics:
  "game_state_new w h t q seed start = Inr (initial_game_state w h t q seed start) \<and>
   admitted (initial_game_state w h t q seed start)"
  using game_state_new_eq initial_admitted by blast

section \<open>Snakes\<close>

text \<open>
  C7. One movement step of a living snake whose body is an alternating polyline and whose
  direction is not the reverse of its travel: the compressed body afterwards describes exactly the
  cells of the body before it with a new head cell in the snake's direction, and without the last
  cell unless the snake is growing; the body is again a well-formed polyline, its head is that new
  cell and its travel direction is the direction of the step.
\<close>

theorem step_forward_moves_cells:
  assumes "sn_alive s" and "wf_body (sn_body s)"
    and "\<not> is_opposite (travel_direction s) (sn_direction s)"
    and "pos_in_i16 (shift (sn_direction s) 1 (hd (sn_body s)))"
  shows "body_cells (sn_body (step_forward s)) =
      shift (sn_direction s) 1 (hd (sn_body s)) #
        (if sn_food s > 0 then body_cells (sn_body s) else butlast (body_cells (sn_body s))) \<and>
    wf_body (sn_body (step_forward s)) \<and>
    hd (sn_body (step_forward s)) = shift (sn_direction s) 1 (hd (sn_body s)) \<and>
    travel_direction (step_forward s) = sn_direction s"
  using step_forward_refines [OF assms] by blast

theorem step_forward_moves_cells_witness:
  "body_cells (sn_body (step_forward (snake_new [\<lparr>px = 5, py = 5\<rparr>, \<lparr>px = 3, py = 5\<rparr>] Down True 0 None))) =
     [\<lparr>px = 5, py = 6\<rparr>, \<lparr>px = 5, py = 5\<rparr>, \<lparr>px = 4, py = 5\<rparr>]"
proof -
  let ?s = "snake_new [\<lparr>px = 5, py = 5\<rparr>, \<lparr>px = 3, py = 5\<rparr>] Down True 0 None"
  have "sn_alive ?s" and "wf_body (sn_body ?s)" and "\<not> is_opposite (travel_direction ?s) (sn_direction ?s)"
    and "pos_in_i16 (shift (sn_direction ?s) 1 (hd (sn_body ?s)))"
    by code_simp+
  note step_forward_moves_cells [OF this]
  moreover have "shift (sn_direction ?s) 1 (hd (sn_body ?s)) #
        (if sn_food ?s > 0 then body_cells (sn_body ?s) else butlast (body_cells (sn_body ?s))) =
      [\<lparr>px = 5, py = 6\<rparr>, \<lparr>px = 5, py = 5\<rparr>, \<lparr>px = 4, py = 5\<rparr>]"
    by code_simp
  ultimately show ?thesis by simp
qed

text \<open>
  C8. The collision test on the compressed body agrees with membership in the cells the body
  covers, its variant that skips the head with membership in the cells behind the head, and the
  length computed from the segments counts the cells.
\<close>

theorem compressed_body_queries:
  assumes "wf_body (sn_body s)" and "body_in_field (sn_body s)"
  shows "(contains_point s c False \<longleftrightarrow> c \<in> set (body_cells (sn_body s))) \<and>
    (contains_point s c True \<longleftrightarrow> c \<in> set (tl (body_cells (sn_body s)))) \<and>
    snake_length s = length (body_cells (sn_body s))"
  using contains_point_cells [OF assms(1)] contains_point_skip_head [OF assms(1)] snake_length_cells [OF assms] by simp

theorem compressed_body_queries_witness:
  "let s = snake_new [\<lparr>px = 6, py = 2\<rparr>, \<lparr>px = 3, py = 2\<rparr>, \<lparr>px = 3, py = 4\<rparr>] Right True 0 None
   in contains_point s \<lparr>px = 3, py = 3\<rparr> False \<and> contains_point s \<lparr>px = 3, py = 3\<rparr> True \<and> snake_length s = 6"
proof -
  let ?s = "snake_new [\<lparr>px = 6, py = 2\<rparr>, \<lparr>px = 3, py = 2\<rparr>, \<lparr>px = 3, py = 4\<rparr>] Right True 0 None"
  have "wf_body (sn_body ?s)" and "body_in_field (sn_body ?s)"
    by code_simp+
  note compressed_body_queries [OF this, of "\<lparr>px = 3, py = 3\<rparr>"]
  moreover have "\<lparr>px = 3, py = 3\<rparr> \<in> set (body_cells (sn_body ?s)) \<and>
      \<lparr>px = 3, py = 3\<rparr> \<in> set (tl (body_cells (sn_body ?s))) \<and> length (body_cells (sn_body ?s)) = 6"
    by code_simp
  ultimately show ?thesis by (simp add: Let_def)
qed

text \<open>
  C9. Movement credit is exact. Over any number of quanta at a cadence that earns at most one move
  a quantum, no assertion fails, and the moves granted times the price of a move plus the credit
  left equal the credit at the start plus everything earned: no fraction of a move is lost.
\<close>

theorem movement_credit_is_exact:
  assumes "cadence_ok t i (sn_speed s)" and "credit_ok i s" and "sn_alive s"
  shows "\<exists>s' moves. accrue_quanta n t i s = Inr (s', moves) \<and> credit_ok i s' \<and>
     s' = s\<lparr>sn_credit := sn_credit s'\<rparr> \<and>
     moves * (1000 * unat i) + unat (sn_credit s') =
       unat (sn_credit s) + n * (unat (sn_speed s) * unat t)"
  using assms by (rule accrue_quanta_exact)

theorem movement_credit_is_exact_witness:
  "\<exists>s'. accrue_quanta 3 50 100 ((snake_new [] Up True 0 None)\<lparr>sn_speed := 1750\<rparr>) = Inr (s', 2)"
proof -
  let ?s = "(snake_new [] Up True 0 None)\<lparr>sn_speed := 1750\<rparr>"
  have fields: "sn_speed ?s = 1750" "sn_credit ?s = 0" "sn_alive ?s"
    by (simp_all add: snake_new_def)
  then obtain s' moves where "accrue_quanta 3 50 100 ?s = Inr (s', moves)" "credit_ok 100 s'"
    "moves * 100000 + unat (sn_credit s') = 262500"
    using movement_credit_is_exact [of 50 100 ?s 3] by (auto simp: cadence_ok_def credit_ok_def)
  moreover from this have "moves = 2"
    by (simp add: credit_ok_def)
  ultimately show ?thesis by auto
qed

text \<open>
  C10. The boost tank stays in order under every sequence of collecting, intending, resolving,
  spending, depleting, dying and respawning: the charge is a whole number of quanta within the
  capacity, the speed is the boosted one exactly while the boost is on, and the dead carry nothing.
\<close>

theorem boost_tank_invariant:
  assumes "boost_params_ok speed cap" and "boost_wf speed cap s"
  shows "boost_wf speed cap (foldl (boost_step speed cap) s es)"
  using assms by (rule boost_steps_wf)

theorem boost_tank_invariant_witness:
  "boost_wf 1750 2000 (foldl (boost_step 1750 2000) (snake_new [] Up True 0 None)
     [Collect 500, SetIntent True, Resolve, Reserve False, Finalize, Die, Respawn False])"
  by (rule boost_tank_invariant) code_simp+

section \<open>Commands\<close>

text \<open>
  C11. Popping everything due refines the abstract queue of pending commands. What comes out is
  exactly the pending commands up to that tick, in the order of their identifiers; what stays is
  the rest; and the indexes of the queue stay coherent. A speculative command whose authoritative
  copy has been queued is never executed a second time, since it is not pending.
\<close>

theorem queue_drains_in_order:
  assumes "queue_wf q"
  shows "queue_wf (snd (drain t q)) \<and>
    mset (fst (drain t q)) = filter_mset (\<lambda>m. message_tick m \<le> t) (pending q) \<and>
    pending (snd (drain t q)) = filter_mset (\<lambda>m. t < message_tick m) (pending q) \<and>
    sorted (map message_id (fst (drain t q)))"
  using assms by (rule drain_spec)

theorem queue_drains_in_order_witness:
  "let turn = (\<lambda>t n. \<lparr>command_id_client = CommandId t 1 n, command_id_server = None, command = Turn 0 Up\<rparr>)
   in map message_id (fst (drain 5 (push (turn 9 3) (push (turn 2 2) (push (turn 4 1) command_queue_new)))))
      = [CommandId 2 1 2, CommandId 4 1 1]"
proof -
  define turn where "turn = (\<lambda>t n. \<lparr>command_id_client = CommandId t 1 n, command_id_server = None, command = Turn 0 Up\<rparr>)"
  let ?q = "push (turn 9 3) (push (turn 2 2) (push (turn 4 1) command_queue_new))"
  have "queue_wf ?q"
    by (intro push_wf queue_wf_new) (simp_all add: turn_def push_fields command_queue_new_def)
  note this [THEN queue_drains_in_order, of 5]
  moreover have "pending ?q = {#turn 9 3, turn 2 2, turn 4 1#}"
    by (simp add: pending_def superseded_def push_fields command_queue_new_def heap.add_elems turn_def)
  ultimately have "mset (map message_id (fst (drain 5 ?q))) = mset [CommandId 2 1 2, CommandId 4 1 1]"
    and "sorted (map message_id (fst (drain 5 ?q)))"
    by (simp_all add: turn_def message_tick_def message_id_def)
  then have "sort [CommandId 2 1 2, CommandId 4 1 1] = map message_id (fst (drain 5 ?q))"
    by (rule properties_for_sort)
  moreover have "sort [CommandId 2 1 2, CommandId 4 1 1] = [CommandId 2 1 2, CommandId 4 1 1 :: command_id]"
    by (rule sorted_sort_id) (simp add: less_eq_command_id_def command_id_key_def)
  ultimately show ?thesis
    unfolding Let_def turn_def by (rule trans [OF sym])
qed

text \<open>
  C12. Queueing a command adds it to the pending ones; an authoritative command takes the place of
  its own speculative copy.
\<close>

theorem queue_push_supersedes:
  assumes "queue_wf q" and "speculative m \<Longrightarrow> command_id_client m \<notin> active_ids q"
  shows "queue_wf (push m q) \<and> pending (push m q) = add_mset m
    (if speculative m then pending q else supersede (command_id_client m) (pending q))"
  using push_wf [OF assms] push_pending [OF assms] by blast

theorem queue_push_supersedes_witness:
  "let m = \<lparr>command_id_client = CommandId 3 1 1, command_id_server = None, command = Turn 0 Up\<rparr>;
       a = m\<lparr>command_id_server := Some (CommandId 4 1 1)\<rparr>
   in pending (push a (push m command_queue_new)) = {#a#}"
proof -
  define m where "m = \<lparr>command_id_client = CommandId 3 1 1, command_id_server = None, command = Turn 0 Up\<rparr>"
  define a where "a = m\<lparr>command_id_server := Some (CommandId 4 1 1)\<rparr>"
  have sa: "\<not> speculative a" "command_id_client a = command_id_client m" "speculative m"
    by (simp_all add: a_def m_def)
  have wf: "queue_wf (push m command_queue_new)" and p: "pending (push m command_queue_new) = {#m#}"
    using queue_push_supersedes [OF queue_wf_new, of m] sa(3) by (simp_all add: pending_new) (simp_all add: command_queue_new_def)
  have "pending (push a (push m command_queue_new)) = {#a#}"
    using queue_push_supersedes [OF wf, of a] sa by (simp add: p supersede_def)
  then show ?thesis
    by (simp add: m_def a_def Let_def)
qed

text \<open>
  C13. The vector of removed users is a set kept in order: binary search finds a key exactly when
  it is there, and insertion at the index of a failed search keeps the vector strictly ascending
  and adds just that key.
\<close>

theorem kicked_vector_is_a_sorted_set:
  assumes "sorted_wrt (<) (xs :: u32 list)"
  shows "((\<exists>i. binary_search xs k = Inr i) \<longleftrightarrow> k \<in> set xs) \<and>
    set (insert_sorted k xs) = insert k (set xs) \<and> sorted_wrt (<) (insert_sorted k xs)"
  using binary_search_found [OF assms] insert_sorted_set [OF assms] insert_sorted_sorted [OF assms] by blast

theorem kicked_vector_is_a_sorted_set_witness:
  "insert_sorted 5 [2, 3, 7 :: u32] = [2, 3, 5, 7] \<and> \<not> (\<exists>i. binary_search [2, 3, 7 :: u32] 5 = Inr i)"
proof -
  have "sorted_wrt (<) [2, 3, 7 :: u32]"
    by simp
  note kicked_vector_is_a_sorted_set [OF this, of 5]
  moreover have "insert_sorted 5 [2, 3, 7 :: u32] = [2, 3, 5, 7]"
    by code_simp
  ultimately show ?thesis by simp
qed

section \<open>Randomness and food\<close>

text \<open>
  C14. The generator never degenerates: its step is injective, so no state has two predecessors,
  and from a non-zero state no sequence of draws of any kind reaches zero, where xorshift would
  stay forever.
\<close>

theorem generator_never_degenerates:
  "inj xorshift \<and> (rng_state r \<noteq> 0 \<longrightarrow> rng_state (foldl rng_after r draws) \<noteq> 0)"
  using inj_xorshift rng.run_inv by blast

theorem generator_never_degenerates_witness:
  "rng_state (foldl rng_after (pseudo_random_new 42) [DrawU32, DrawF32, DrawNormal at_mean 3 5]) \<noteq> 0"
proof -
  have "rng_state (pseudo_random_new 42) \<noteq> 0"
    by code_simp
  then show ?thesis
    using generator_never_degenerates by blast
qed

text \<open>
  C15. Food is sampled on the board and outside both end zones, on every board of ordinary
  dimensions and whatever the random draws are; no range is empty and no bound is inverted.
\<close>

theorem sampled_food_is_on_the_field:
  assumes "arena_dims_ok a" and "box_muller_ok bm"
  shows "\<exists>p r'. sample_food_position bm t a r = Inr (p, r') \<and> in_arena a p \<and>
    \<not> is_in_team_base a p 0 \<and> \<not> is_in_team_base a p 1"
  using assms by (rule sample_food_position_ok)

theorem sampled_food_is_on_the_field_witness:
  "let a = gs_arena (initial_game_state 60 40 (TeamMatch 1) Competitive (Some 7) 0)
   in \<exists>p r'. sample_food_position at_mean (TeamMatch 1) a (pseudo_random_new 7) = Inr (p, r') \<and> in_arena a p"
proof -
  have "arena_dims_ok (gs_arena (initial_game_state 60 40 (TeamMatch 1) Competitive (Some 7) 0))"
    using initial_simulable [OF duel_board] by (simp add: simulable_def env_ok_def)
  from sampled_food_is_on_the_field [OF this at_mean_ok, of "TeamMatch 1" "pseudo_random_new 7"] show ?thesis
    unfolding Let_def by blast
qed

text \<open>
  C16. The pad layout of a field with a limited boost is twelve pads with distinct identifiers whose footprints are
  disjoint and lie on the field between its end zones.
\<close>

theorem pad_layout_is_disjoint:
  assumes "boost_field_bounds a (bc_spot_layout_version c) = Some (l, h)" and "\<not> bc_unlimited c"
  shows "length (boost_pad_layout a c) = 12 \<and> distinct (map bp_id (boost_pad_layout a c)) \<and>
    distinct (concat (map footprint_cells (boost_pad_layout a c))) \<and>
    (\<forall>p \<in> set (concat (map footprint_cells (boost_pad_layout a c))).
       l \<le> px p \<and> px p \<le> h \<and> 0 \<le> py p \<and> py p < uint (ar_height a))"
  using assms by (rule pad_layout_facts)

theorem pad_layout_is_disjoint_witness:
  "length (boost_pad_layout (gs_arena (initial_game_state 60 40 (TeamMatch 2) Quickmatch None 0)) boost_config_default) = 12"
proof -
  let ?a = "gs_arena (initial_game_state 60 40 (TeamMatch 2) Quickmatch None 0)"
  have "boost_field_bounds ?a (bc_spot_layout_version boost_config_default) = Some (10, 49)"
    by (simp add: initial_game_state_def Let_def initial_arena_def boost_field_bounds_def main_field_bounds_def
        boost_config_default_def i16_of_u16_small in_i16_def boost_config_for_def)
  moreover have "\<not> bc_unlimited boost_config_default"
    by (simp add: boost_config_default_def)
  ultimately show ?thesis
    using pad_layout_is_disjoint by blast
qed

section \<open>The engine\<close>

text \<open>
  C17. Exactly when a client gets stuck on a server message. A message that is neither a snapshot
  nor stale makes the catch-up loop run for ever if and only if the client's own simulation ends the
  match at a tick before the message's; in every other case the call returns.
\<close>

theorem message_spins_iff_match_ended_early:
  assumes "\<not> is_snapshot (em_event m)" and "account_stream False (em_stream_seq m) (engine_sync en) \<noteq> None"
    and "box_muller_ok bm" and "em_tick m \<noteq> -1" and "live (committed_state en)"
  shows "process_server_event bm m en = None \<longleftrightarrow>
    (\<exists>g'. run_state bm True (em_tick m) (committed_state en) = Some (Inr g') \<and> is_complete g' \<and> gs_tick g' < em_tick m)"
  using assms by (rule message_spins_iff)

definition probe_at :: "u32 \<Rightarrow> u64 \<Rightarrow> game_event_message" where
  "probe_at t n = \<lparr>em_game_id = 1, em_tick = t, em_sequence = 0, em_stream_seq = n, em_user_id = None,
     em_event = TickHash 0 0\<rparr>"

definition young_client :: game_engine where
  "young_client = from_validated_state 1 (initial_game_state 40 40 (FreeForAll 2) Quickmatch None 0) 0"

lemma young_client_live: "live (committed_state young_client)" "engine_live young_client"
proof -
  have "simulable (initial_game_state 40 40 (FreeForAll 2) Quickmatch None 0)"
    by (rule initial_simulable) (simp add: board_ok_def)
  then show "live (committed_state young_client)" "engine_live young_client"
    by (simp_all add: young_client_def from_validated_state_def fresh_engine_def live_def engine_live_def
        live_without_rng [unfolded live_def])
qed

lemma young_client_fields:
  "committed_state young_client = initial_game_state 40 40 (FreeForAll 2) Quickmatch None 0"
  "engine_sync young_client = sync_status_default" "committed_state_lag_ms young_client = 500"
  "predicted_state young_client \<noteq> None" "speculative_commands young_client = []"
  by (simp_all add: young_client_def from_validated_state_def fresh_engine_def)

theorem message_spins_iff_match_ended_early_witness:
  "process_server_event at_mean (probe_at 0 1) young_client \<noteq> None"
proof -
  let ?m = "probe_at 0 1"
  have "run_state at_mean True 0 (committed_state young_client) = Some (Inr g) \<Longrightarrow> \<not> gs_tick g < 0" for g
    by simp
  then show ?thesis
    using message_spins_iff_match_ended_early [of ?m young_client at_mean] at_mean_ok young_client_live(1)
    by (simp add: probe_at_def account_stream_def young_client_fields sync_status_default_def)
qed

text \<open>
  The case occurs when a message is lost. Both players have been active on the server, but the client
  has not heard of it: its own clock removes them and ends the match.
\<close>

definition late_pair :: game_state where
  "late_pair = idle_pair\<lparr>gs_tick := 1199, gs_status := Started 1\<rparr>"

definition input_of :: "u32 \<Rightarrow> u32 \<Rightarrow> game_command_message" where
  "input_of u i = \<lparr>command_id_client = CommandId 1199 u 1, command_id_server = Some (CommandId 1199 u i),
     command = PlayerActivity i\<rparr>"

text \<open>
  C18. A lost input message hangs the client. At tick 1199 both players send an input; the server
  records it and goes on. Any client whose committed state is the one before those inputs, and that
  then receives a hash probe for tick 1201 which is not stale, never returns from processing it,
  whether the probe reveals the gap in the stream or not.
\<close>

theorem lost_input_hangs_client:
  assumes "committed_state client = late_pair" and "n = 0 \<or> last_stream_seq (engine_sync client) < n"
  shows "validate_boost_invariants late_pair = Inr () \<and>
   \<not> snd (resolve_player_inactivity 1200
       (begin_tick (schedule_command (input_of 2 1) (schedule_command (input_of 1 0) late_pair)))) \<and>
   process_server_event bm (probe_at 1201 n) client = None"
proof -
  have "validate_boost_invariants late_pair = Inr ()"
    by code_simp
  moreover have "\<not> snd (resolve_player_inactivity 1200
      (begin_tick (schedule_command (input_of 2 1) (schedule_command (input_of 1 0) late_pair))))"
    by code_simp
  moreover have "(case tick_forward bm True late_pair of Inr (g, _) \<Rightarrow> is_complete g \<and> gs_tick g = 1200 | Inl _ \<Rightarrow> False)"
    by code_simp
  then obtain g events where "tick_forward bm True late_pair = Inr (g, events)" "is_complete g" "gs_tick g = 1200"
    by (auto split: sum.splits prod.splits)
  then have spins: "advance_to bm 1201 late_pair = None"
    using advance_to_spins [of g 1201 bm] by (subst advance_to.simps) (simp add: late_pair_def)
  have "account_stream False n (engine_sync client) \<noteq> None"
    using assms(2) by (auto simp: account_stream_def Let_def)
  then obtain status where "account_stream False n (engine_sync client) = Some status"
    by blast
  then have "process_server_event bm (probe_at 1201 n) client = None"
    using spins assms(1)
    by (simp add: process_server_event_def probe_at_def check_snapshot_def advance_and_apply_replicated_message_def Let_def)
  ultimately show ?thesis
    by blast
qed

theorem lost_input_hangs_client_witness:
  "let client = (from_validated_state 1 late_pair 0)\<lparr>engine_sync := sync_status_default\<lparr>last_stream_seq := 5\<rparr>\<rparr>
   in process_server_event at_mean (probe_at 1201 8) client = None"
proof -
  let ?client = "(from_validated_state 1 late_pair 0)\<lparr>engine_sync := sync_status_default\<lparr>last_stream_seq := 5\<rparr>\<rparr>"
  have "committed_state ?client = late_pair"
    by (simp add: from_validated_state_def fresh_engine_def Let_def)
  then show ?thesis
    using lost_input_hangs_client [of ?client 8 at_mean] by (simp add: Let_def)
qed

text \<open>
  C19. The clock call of the engine returns without an error from any live engine, and it catches
  up: afterwards the match is over, or the committed state has reached the tick that the wall clock
  asks for, less the lag window. The next call starts from a live engine again.
\<close>

theorem clock_call_reaches_due_tick:
  assumes "box_muller_ok bm" and "engine_live en" and "predicted_state en \<noteq> None"
    and "gp_tick_duration_ms (gs_properties (committed_state en)) \<noteq> 0" and "wallclock_tick ts en \<noteq> -1"
  shows "\<exists>en' out obs. run_until_observing_boost bm ts en = Some (Inr (en', out, obs)) \<and> engine_live en' \<and>
    (clock_started ts en \<longrightarrow> is_complete (committed_state en') \<or>
       gs_tick (committed_state en') = max (gs_tick (committed_state en)) (due_tick ts en))"
  using assms by (rule run_until_returns)

lemma young_client_clock:
  "gp_tick_duration_ms (gs_properties (committed_state young_client)) = 50"
  "wallclock_tick 1000 young_client = 20" "due_tick 1000 young_client = 10" "clock_started 1000 young_client"
  by code_simp+

theorem clock_call_reaches_due_tick_witness:
  "\<exists>en' out obs. run_until_observing_boost at_mean 1000 young_client = Some (Inr (en', out, obs)) \<and>
    (is_complete (committed_state en') \<or> gs_tick (committed_state en') = 10)"
proof -
  have "gs_tick (committed_state young_client) = 0"
    by (simp add: young_client_fields initial_game_state_def Let_def)
  then show ?thesis
    using clock_call_reaches_due_tick [OF at_mean_ok young_client_live(2) young_client_fields(4), of 1000] young_client_clock
    by auto
qed

text \<open>
  C20. Rebuilding the prediction is exact. From any live engine the call returns. When a rebuild is
  due (it was requested, or the clock runs and the committed match is over, there is no prediction
  yet, or the prediction is behind its target), only the predicted state and the request change: the
  new prediction is at the target tick, unless the match ends on the way, and within the window
  ahead of the committed state. When no rebuild is due, nothing changes. So an engine whose
  prediction is in the window, or is to be rebuilt, leaves the call with its prediction in the
  window: when the server falls silent, the ghost game freezes.
\<close>

theorem rebuilt_prediction_stays_in_window:
  assumes "box_muller_ok bm" and "engine_live en"
    and "gp_tick_duration_ms (gs_properties (committed_state en)) \<noteq> 0" and "wallclock_tick ts en \<noteq> -1"
  shows "\<exists>en'. rebuild_predicted_state bm ts en = Some (en', Inr ()) \<and> engine_live en' \<and>
    (if rebuild_due ts en
     then in_window en' \<and>
       (\<exists>p. en' = en\<lparr>predicted_state := Some p, prediction_needs_rebuild := False\<rparr> \<and>
         (is_complete p \<or> gs_tick p = prediction_target ts en))
     else en' = en) \<and>
    (prediction_needs_rebuild en \<or> in_window en \<longrightarrow> in_window en')"
proof (cases "rebuild_due ts en")
  case True
  then obtain p where "rebuild_predicted_state bm ts en =
      Some (en\<lparr>predicted_state := Some p, prediction_needs_rebuild := False\<rparr>, Inr ())" "live p" "rebuilt ts en p"
    using rebuild_outcome [OF assms] by auto
  then show ?thesis
    using True assms(2) rebuilt_in_window [of ts en p False] by (auto simp: engine_live_def rebuilt_def)
next
  case False
  then show ?thesis
    using rebuild_outcome [OF assms] assms(2) by (auto simp: rebuild_due_def)
qed

theorem rebuilt_prediction_stays_in_window_witness:
  "\<exists>en' p. rebuild_predicted_state at_mean 1000 (young_client\<lparr>prediction_needs_rebuild := True\<rparr>) = Some (en', Inr ()) \<and>
    predicted_state en' = Some p \<and> in_window en' \<and> \<not> prediction_needs_rebuild en' \<and> (is_complete p \<or> gs_tick p = 20)"
proof -
  let ?en = "young_client\<lparr>prediction_needs_rebuild := True\<rparr>"
  have "engine_live ?en" "wallclock_tick 1000 ?en = wallclock_tick 1000 young_client" "rebuild_due 1000 ?en"
    using young_client_live(2) by (simp_all add: engine_live_def wallclock_tick_def rebuild_due_def split: option.split)
  moreover have "prediction_target 1000 ?en = 20"
    by code_simp
  ultimately show ?thesis
    using rebuilt_prediction_stays_in_window [OF at_mean_ok, of ?en 1000] young_client_clock by auto
qed

text \<open>
  C21. Messages are transactional. A message that is refused leaves the committed and the predicted
  state, the pending local commands and every counter of the engine as they were, and asks for a
  snapshot.
\<close>

theorem refused_message_changes_nothing:
  assumes "process_server_event bm m en = Some (en', Inl err)"
  shows "needs_resync (engine_sync en') \<and> en'\<lparr>engine_sync := engine_sync en\<rparr> = en"
  using assms by (rule server_event_cases) (auto simp: request_resync_def with_sync_def)

theorem refused_message_changes_nothing_witness:
  "\<exists>en' err. process_server_event at_mean
      (probe_at 0 1\<lparr>em_event := ScoreUpdated 3 1\<rparr>) young_client = Some (en', Inl err) \<and>
    needs_resync (engine_sync en') \<and> en'\<lparr>engine_sync := sync_status_default\<rparr> = young_client"
proof -
  let ?m = "probe_at 0 1\<lparr>em_event := ScoreUpdated 3 1\<rparr>"
  have "gs_tick (committed_state young_client) = 0" "snake_at (committed_state young_client) 3 = None"
    by (simp_all add: young_client_fields initial_game_state_def Let_def snake_at_def get_at_def initial_arena_def
        split: option.split)
  then obtain en' err where r: "process_server_event at_mean ?m young_client = Some (en', Inl err)"
    by (simp add: process_server_event_def probe_at_def check_snapshot_def account_stream_def young_client_fields(2)
        sync_status_default_def observe_tick_def advance_and_apply_replicated_message_def advance_to.simps [of _ 0]
        try_apply_replicated_event_def require_snake_def Let_def)
  then show ?thesis
    using refused_message_changes_nothing [OF r] young_client_fields(2) by auto
qed

text \<open>
  C22. No stream of deltas breaks a client. Whatever events the server or a faulty relay sends, as
  long as none is a snapshot, the committed state stays one that can be simulated.
\<close>

theorem deltas_keep_client_live:
  assumes "process_server_event bm m en = Some (en', r)" and "\<not> is_snapshot (em_event m)"
    and "box_muller_ok bm" and "em_tick m \<noteq> -1" and "live (committed_state en)"
  shows "live (committed_state en')"
  using assms by (rule message_keeps_live)

lemma young_client_probed: "\<exists>en'. process_server_event at_mean (probe_at 0 1) young_client = Some (en', Inr ())"
proof -
  have "gs_tick (committed_state young_client) = 0"
    by (simp add: young_client_fields initial_game_state_def Let_def)
  then show ?thesis
    by (simp add: process_server_event_def probe_at_def check_snapshot_def account_stream_def young_client_fields(2)
        sync_status_default_def observe_tick_def advance_and_apply_replicated_message_def advance_to.simps [of _ 0] Let_def)
qed

theorem deltas_keep_client_live_witness:
  "\<exists>en' r. process_server_event at_mean (probe_at 0 1) young_client = Some (en', r) \<and> live (committed_state en')"
  using young_client_probed deltas_keep_client_live [OF _ _ at_mean_ok _ young_client_live(1), of "probe_at 0 1"]
  by (fastforce simp: probe_at_def)

text \<open>
  C23. At most once. A numbered delta that is delivered again, directly after it was processed, is
  only counted: the second delivery changes nothing but the number of skipped messages.
\<close>

theorem redelivered_delta_is_skipped:
  assumes "process_server_event bm m en = Some (en', r)" and "\<not> is_snapshot (em_event m)" and "em_stream_seq m \<noteq> 0"
  shows "process_server_event bm m en' =
    Some (with_sync (\<lambda>s. s\<lparr>stale_messages_skipped := stale_messages_skipped s + 1\<rparr>) en', Inr ())"
  using assms by (rule redelivery_is_stale)

theorem redelivered_delta_is_skipped_witness:
  "\<exists>en' en''. process_server_event at_mean (probe_at 0 1) young_client = Some (en', Inr ()) \<and>
    process_server_event at_mean (probe_at 0 1) en' = Some (en'', Inr ()) \<and> committed_state en'' = committed_state en'"
proof -
  obtain en' where r: "process_server_event at_mean (probe_at 0 1) young_client = Some (en', Inr ())"
    using young_client_probed by blast
  have "\<not> is_snapshot (em_event (probe_at 0 1))" "em_stream_seq (probe_at 0 1) \<noteq> 0"
    by (simp_all add: probe_at_def)
  then show ?thesis
    using r redelivered_delta_is_skipped [OF r] by (auto simp: with_sync_def)
qed

text \<open>
  C24. Recovery reproduces the decisions of a failed actor. From the checkpoint the actor had run its
  clock and accepted commands in turn; replaying its journal on an engine restored from the same
  checkpoint (same committed state, same command counter) succeeds and ends in the same committed
  state and counter, whatever the restored engine predicted or had pending.
\<close>

theorem recovery_reproduces_decisions:
  assumes "accept_commands bm ms en = Some (en1, journal)"
    and "committed_state en' = committed_state en" and "command_counter en' = command_counter en"
  shows "\<exists>en2. replay_commands bm journal en' = Some (Inr en2) \<and>
    committed_state en2 = committed_state en1 \<and> command_counter en2 = command_counter en1"
  using assms by (rule replay_reproduces)

theorem recovery_reproduces_decisions_witness:
  "\<exists>en1 en2 journal. accept_commands at_mean [(0, input_of 1 0), (0, input_of 2 1)] young_client = Some (en1, journal) \<and>
    length journal = 2 \<and>
    replay_commands at_mean journal (young_client\<lparr>predicted_state := None\<rparr>) = Some (Inr en2) \<and>
    committed_state en2 = committed_state en1"
proof -
  have tick: "gs_tick (committed_state young_client) = 0" "command_counter young_client = 0"
    by (simp_all add: young_client_def from_validated_state_def fresh_engine_def initial_game_state_def Let_def)
  have keep: "gs_tick (schedule_command m g) = gs_tick g" for m g
    by (simp add: schedule_command_def record_player_activity_for_command_def Let_def split: option.split)
  obtain en1 journal where a:
      "accept_commands at_mean [(0, input_of 1 0), (0, input_of 2 1)] young_client = Some (en1, journal)"
      "length journal = 2"
    using tick by (simp add: run_committed.simps [of _ 0] process_command_def schedule_everywhere_def keep Let_def)
  then show ?thesis
    using recovery_reproduces_decisions [OF a(1), of "young_client\<lparr>predicted_state := None\<rparr>"] by auto
qed

section \<open>The digest\<close>

text \<open>
  C25. The digest covers the sync-critical state, all of it and nothing else: two states whose
  vectors fit their u32 lengths are written as the same byte string exactly when they agree on every
  sync-critical field, with food and maps compared without order and the hosting server ignored; so
  states in sync have equal hashes.
\<close>

theorem digest_covers_sync_state:
  assumes "sync_fits g" and "sync_fits g'"
  shows "(sync_bytes g = sync_bytes g' \<longleftrightarrow> in_sync g g') \<and> (in_sync g g' \<longrightarrow> sync_hash g = sync_hash g')"
  using sync_bytes_iff [OF assms] by (auto simp: sync_hash_def)

theorem digest_covers_sync_state_witness:
  "sync_hash (initial_game_state 30 30 (FreeForAll 3) Quickmatch (Some 7) 0) =
   sync_hash (initial_game_state 30 30 (FreeForAll 3) Quickmatch None 5)"
proof -
  have "sync_fits (initial_game_state 30 30 (FreeForAll 3) Quickmatch seed start)" for seed start
    by (simp add: sync_fits_def short_def initial_game_state_def initial_arena_def initial_properties_def
        boost_config_for_def food_target_for_def properties_fit_def authoritative_commands_def command_queue_new_def Let_def)
  moreover have "in_sync (initial_game_state 30 30 (FreeForAll 3) Quickmatch (Some 7) 0)
      (initial_game_state 30 30 (FreeForAll 3) Quickmatch None 5)"
    by (simp add: in_sync_def initial_game_state_def food_cells_def controlled_def Let_def)
  ultimately show ?thesis
    using digest_covers_sync_state by blast
qed

text \<open>
  C26. A difference of one byte is always detected: two byte strings that differ in exactly one
  position have different FNV-1a digests, whatever surrounds the position.
\<close>

theorem one_byte_divergence_is_detected:
  "write_bytes (as @ [b] @ bs) h = write_bytes (as @ [b'] @ bs) h \<longleftrightarrow> b = b'"
  by (rule one_byte_difference)

section \<open>The event log of a tick\<close>

text \<open>
  C29. The events of a tick are well formed, for every state and without any assumption on it: they
  carry consecutive sequence numbers that continue those of the state, the state keeps the last of
  them, and each event is one that the simulation may author or a snapshot. A tick never emits a
  command, a readiness change, a hash or a chat message.
\<close>

theorem tick_events_are_numbered:
  assumes "tick_forward_observing_boost bm movement_only g = Inr ((g', events), transitions)"
  shows "map fst events = map (\<lambda>k. gs_event_sequence g + 1 + of_nat k) [0..<length events] \<and>
    gs_event_sequence g' = gs_event_sequence g + of_nat (length events) \<and>
    (\<forall>e \<in> set (map snd events). simulated e \<or> is_snapshot e)"
  using logged_tick [OF assms] by (fastforce simp: logged_def)

theorem tick_events_are_numbered_witness:
  "\<exists>g' events transitions. tick_forward_observing_boost at_mean False late_pair = Inr ((g', events), transitions) \<and>
     length events = 4 \<and> map fst events = [1, 2, 3, 4] \<and> gs_event_sequence g' = 4"
proof -
  have "case tick_forward_observing_boost at_mean False late_pair of
      Inr ((g, events), ts) \<Rightarrow> length events = 4 | _ \<Rightarrow> False"
    by code_simp
  then obtain g' events transitions where
      r: "tick_forward_observing_boost at_mean False late_pair = Inr ((g', events), transitions)" "length events = 4"
    by (auto split: sum.splits)
  have "gs_event_sequence late_pair = 0"
    by code_simp
  then show ?thesis
    using tick_events_are_numbered [OF r(1)] r by (simp add: upt_rec)
qed

section \<open>Diagnosis from traces\<close>

text \<open>
  C30. Ranges of sequence numbers round-trip: expanding the ranges made from an ascending list gives
  the list back, and the ranges are the coarsest ones, since no two of them touch.
\<close>

theorem sequence_ranges_round_trip:
  assumes "sorted_wrt (<) seqs"
  shows "concat (map range_seqs (seqs_to_ranges seqs)) = seqs \<and> ranges_ok (seqs_to_ranges seqs)"
  using seqs_to_ranges_ok [OF assms] by simp

theorem sequence_ranges_round_trip_witness:
  "length (seqs_to_ranges [3, 4, 5, 9]) = 2 \<and>
   concat (map range_seqs (seqs_to_ranges [3, 4, 5, 9])) = [3, 4, 5, 9]"
proof -
  have "length (seqs_to_ranges [3, 4, 5, 9]) = 2"
    by code_simp
  then show ?thesis
    using sequence_ranges_round_trip [of "[3, 4, 5, 9]"] by simp
qed

text \<open>
  C31. The loss report is exact: the reported ranges contain precisely the messages that the server
  published after the first one the client received and not after the last, and that the client did
  not receive.
\<close>

theorem loss_report_is_exact:
  "seq \<in> set (concat (map range_seqs (missing_stream_seqs (diff_traces server client)))) \<longleftrightarrow> lost server client seq"
  by (rule missing_ranges)

text \<open>
  C32. The verdict is justified by the traces. Transport loss is only reported when a message was
  lost; nondeterminism only when the two sides hashed the same tick differently; and the other
  verdicts only when nothing was lost and no tick that both sides hashed disagrees.
\<close>

theorem verdict_is_justified:
  "case verdict (diff_traces server client) of
     TRANSPORT_LOSS \<Rightarrow> \<exists>seq. lost server client seq
   | ENGINE_NONDETERMINISM \<Rightarrow>
       \<exists>tick h h'. fingerprint_at server tick = Some h \<and> fingerprint_at client tick = Some h' \<and> h \<noteq> h'
   | _ \<Rightarrow> (\<nexists>seq. lost server client seq) \<and>
       (\<forall>tick h h'. fingerprint_at server tick = Some h \<longrightarrow> fingerprint_at client tick = Some h' \<longrightarrow> h = h')"
proof -
  have mismatch: "first_fingerprint_mismatch (diff_traces server client) =
      first_mismatch (server_view_of server) (client_view_of client)"
    by (simp add: diff_traces_def Let_def)
  show ?thesis
    using verdict_cases [of "diff_traces server client"] no_missing_ranges [of server client]
      no_mismatch [of server client] mismatch_found [of server client]
    unfolding mismatch by (auto split: verdict.splits)
qed

theorem verdict_is_justified_witness:
  "verdict (diff_traces [EventOut 0 (probe_at 0 1), EventOut 1 (probe_at 0 2), EventOut 2 (probe_at 0 3)]
     [EventIn 0 0 (probe_at 0 1), EventIn 5 0 (probe_at 0 3)]) = TRANSPORT_LOSS \<and>
   (\<exists>seq. lost [EventOut 0 (probe_at 0 1), EventOut 1 (probe_at 0 2), EventOut 2 (probe_at 0 3)]
     [EventIn 0 0 (probe_at 0 1), EventIn 5 0 (probe_at 0 3)] seq)"
proof -
  let ?s = "[EventOut 0 (probe_at 0 1), EventOut 1 (probe_at 0 2), EventOut 2 (probe_at 0 3)]"
  let ?c = "[EventIn 0 0 (probe_at 0 1), EventIn 5 0 (probe_at 0 3)]"
  have "verdict (diff_traces ?s ?c) = TRANSPORT_LOSS"
    by code_simp
  then show ?thesis
    using verdict_is_justified [of ?s ?c] by simp
qed

end
